(* ===== verification/X10_Prelude.thy ===== *)
theory X10_Prelude
  imports Main "HOL-Library.Word" "HOL-Library.List_Lexorder" "HOL-Library.Char_ord"
begin

text \<open>
  Shared vocabulary of the development: the lemma collections, C integer conversions, the
  Qt string operations the sources use (on Latin-1 strings, a \<open>QString\<close> being a
  character list), decimal printing and reading, and the ordered map that stands for
  \<open>std::map\<close> with \<open>QString\<close> keys.
\<close>

named_theorems x10_simps "equations that unfold small operations of the model"
named_theorems x10_inv "preservation of the invariants of the components"

section \<open>C integers\<close>

text \<open>
  Conversions to a 32-bit \<open>int\<close> and \<open>unsigned int\<close>, to a signed \<open>char\<close>, and the
  truncating division of C.
\<close>

definition INT_MAX :: int where "INT_MAX = 2147483647"
definition INT_MIN :: int where "INT_MIN = -2147483648"

definition wrap32 :: "int \<Rightarrow> int" where
  "wrap32 x = (x + 2147483648) mod 4294967296 - 2147483648"

definition wrapu32 :: "int \<Rightarrow> int" where
  "wrapu32 x = x mod 4294967296"

definition wrap8 :: "int \<Rightarrow> int" where
  "wrap8 x = (x + 128) mod 256 - 128"

definition c_div :: "int \<Rightarrow> int \<Rightarrow> int" where
  "c_div a b = sgn a * sgn b * (\<bar>a\<bar> div \<bar>b\<bar>)"

definition in_int :: "int \<Rightarrow> bool" where
  "in_int x \<longleftrightarrow> INT_MIN \<le> x \<and> x \<le> INT_MAX"

definition in_uint :: "int \<Rightarrow> bool" where
  "in_uint x \<longleftrightarrow> 0 \<le> x \<and> x \<le> 4294967295"

lemma wrap32_id: "in_int x \<Longrightarrow> wrap32 x = x"
  by (simp add: wrap32_def in_int_def INT_MIN_def INT_MAX_def)

lemma wrapu32_id: "in_uint x \<Longrightarrow> wrapu32 x = x"
  by (simp add: wrapu32_def in_uint_def)

lemma wrap8_id: "-128 \<le> x \<Longrightarrow> x < 128 \<Longrightarrow> wrap8 x = x"
  by (simp add: wrap8_def)

lemma c_div_nonneg: "0 \<le> a \<Longrightarrow> 0 < b \<Longrightarrow> c_div a b = a div b"
  by (cases "a = 0") (auto simp: c_div_def)

text \<open>The value of a \<open>char\<close> on the platforms the program runs on, where it is signed.\<close>

definition c_char :: "char \<Rightarrow> int" where
  "c_char c = (let n = int (of_char c) in if n < 128 then n else n - 256)"

section \<open>Strings\<close>

definition upper_char :: "char \<Rightarrow> char" where
  "upper_char c =
     (let n = (of_char c :: nat) in if 97 \<le> n \<and> n \<le> 122 then char_of (n - 32) else c)"

definition to_upper :: "string \<Rightarrow> string" where
  "to_upper s = map upper_char s"

lemma of_char_upper:
  "(of_char (upper_char c) :: nat) =
     (if 97 \<le> (of_char c :: nat) \<and> (of_char c :: nat) \<le> 122 then of_char c - 32 else of_char c)"
  by (auto simp: upper_char_def Let_def of_char_of intro!: mod_less)

lemma char_eq_of_char: "c = d \<longleftrightarrow> (of_char c :: nat) = of_char d"
  by simp

lemma upper_char_idem [simp]: "upper_char (upper_char c) = upper_char c"
  by (subst char_eq_of_char) (auto simp: of_char_upper)

lemma to_upper_idem [simp]: "to_upper (to_upper s) = to_upper s"
  by (simp add: to_upper_def)

lemma to_upper_Nil [simp]: "to_upper [] = []"
  by (simp add: to_upper_def)

lemma to_upper_append [simp]: "to_upper (s @ t) = to_upper s @ to_upper t"
  by (simp add: to_upper_def)

lemma upper_char_keeps:
  assumes "(of_char c :: nat) < 65 \<or> (of_char c :: nat) > 122"
  shows "upper_char d = c \<longleftrightarrow> d = c"
  using assms by (subst (1 2) char_eq_of_char) (auto simp: of_char_upper)

text \<open>\<open>QString::split\<close> on one character, and its \<open>SkipEmptyParts\<close> variant.\<close>

fun split_on :: "char \<Rightarrow> string \<Rightarrow> string list" where
  "split_on c [] = [[]]"
| "split_on c (x # xs) =
     (if x = c then [] # split_on c xs
      else (case split_on c xs of [] \<Rightarrow> [[x]] | y # ys \<Rightarrow> (x # y) # ys))"

definition split_skip :: "char \<Rightarrow> string \<Rightarrow> string list" where
  "split_skip c s = filter (\<lambda>p. p \<noteq> []) (split_on c s)"

lemma split_on_nonempty [simp]: "split_on c s \<noteq> []"
  by (induction s) (auto split: list.splits)

lemma split_on_no_sep: "c \<notin> set xs \<Longrightarrow> split_on c xs = [xs]"
  by (induction xs) auto

lemma split_on_sep: "c \<notin> set xs \<Longrightarrow> split_on c (xs @ c # ys) = xs # split_on c ys"
  by (induction xs) auto

lemma split_on_parts: "p \<in> set (split_on c s) \<Longrightarrow> c \<notin> set p"
proof (induction s arbitrary: p)
  case Nil
  then show ?case by simp
next
  case (Cons x xs)
  obtain y ys where y: "split_on c xs = y # ys"
    by (cases "split_on c xs") simp_all
  from Cons.IH have "c \<notin> set y" "\<And>q. q \<in> set ys \<Longrightarrow> c \<notin> set q"
    using y by auto
  with Cons.prems y show ?case by (auto split: if_splits)
qed

lemma split_skip_Nil [simp]: "split_skip c [] = []"
  by (simp add: split_skip_def)

lemma split_skip_single: "c \<notin> set p \<Longrightarrow> p \<noteq> [] \<Longrightarrow> split_skip c p = [p]"
  by (simp add: split_skip_def split_on_no_sep)

lemma split_skip_step:
  "c \<notin> set p \<Longrightarrow> p \<noteq> [] \<Longrightarrow> split_skip c (p @ c # s) = p # split_skip c s"
  by (simp add: split_skip_def split_on_sep)

text \<open>
  A list of non-empty separator-free parts, each followed by the separator, splits back
  into the parts.
\<close>

lemma split_skip_terminated:
  assumes "\<And>p. p \<in> set ps \<Longrightarrow> c \<notin> set p \<and> p \<noteq> []"
  shows "split_skip c (concat (map (\<lambda>p. p @ [c]) ps)) = ps"
  using assms by (induction ps) (simp_all add: split_skip_step)

section \<open>Decimal numbers\<close>

text \<open>\<open>QString::number\<close> for integers.\<close>

definition digit_char :: "nat \<Rightarrow> char" where
  "digit_char d = char_of (48 + d)"

definition is_digit :: "char \<Rightarrow> bool" where
  "is_digit c \<longleftrightarrow> 48 \<le> (of_char c :: nat) \<and> (of_char c :: nat) \<le> 57"

definition digit_val :: "char \<Rightarrow> nat" where
  "digit_val c = of_char c - 48"

fun dec_nat :: "nat \<Rightarrow> string" where
  "dec_nat n = (if n < 10 then [digit_char n] else dec_nat (n div 10) @ [digit_char (n mod 10)])"

declare dec_nat.simps [simp del]

definition dec_int :: "int \<Rightarrow> string" where
  "dec_int i = (if i < 0 then CHR ''-'' # dec_nat (nat (- i)) else dec_nat (nat i))"

lemma digit_char_props:
  assumes "d < 10"
  shows "is_digit (digit_char d)" and "digit_val (digit_char d) = d"
  using assms by (auto simp: is_digit_def digit_val_def digit_char_def of_char_of)

lemma dec_nat_nonempty [simp]: "dec_nat n \<noteq> []"
  by (subst dec_nat.simps) simp

lemma dec_int_nonempty [simp]: "dec_int i \<noteq> []"
  by (simp add: dec_int_def)

lemma dec_nat_digits: "c \<in> set (dec_nat n) \<Longrightarrow> is_digit c"
proof (induction n rule: dec_nat.induct)
  case (1 n)
  show ?case
  proof (cases "n < 10")
    case True
    with "1.prems" show ?thesis
      by (subst (asm) dec_nat.simps) (simp add: digit_char_props)
  next
    case False
    then have "n mod 10 < 10" by simp
    with False "1.prems" "1.IH" show ?thesis
      by (subst (asm) dec_nat.simps) (auto simp: digit_char_props)
  qed
qed

lemma dec_int_chars: "c \<in> set (dec_int i) \<Longrightarrow> is_digit c \<or> c = CHR ''-''"
  by (auto simp: dec_int_def dest: dec_nat_digits split: if_splits)

lemma not_digit_simps [simp]:
  "\<not> is_digit CHR '',''" "\<not> is_digit CHR ''|''" "\<not> is_digit CHR '' ''" "\<not> is_digit CHR ''*''"
  "\<not> is_digit CHR ''-''" "\<not> is_digit CHR 0x0A"
  by (simp_all add: is_digit_def)

lemma dec_int_five: "dec_int 5 = ''5''"
proof -
  have "char_of (53 :: nat) = CHR ''5''" by (subst char_eq_of_char) (simp add: of_char_of)
  then show ?thesis by (simp add: dec_int_def dec_nat.simps digit_char_def)
qed

lemma dec_int_avoids:
  assumes "\<not> is_digit c" and "c \<noteq> CHR ''-''"
  shows "c \<notin> set (dec_int i)"
  using assms dec_int_chars by blast

text \<open>
  Reading a decimal number. \<open>QString::toInt\<close> and \<open>QString::toUInt\<close> are operations of
  Qt, which is not part of this repository: they are the record \<open>qt_number\<close>, an
  argument of every definition that reads a number. What the code relies on is
  \<open>qt_number_ok\<close>: a printed number is read back, and a number that is read is in range.
  The result \<open>None\<close> is the documented failure (\<open>ok\<close> is false and the value 0).
\<close>

record qt_number =
  toInt :: "string \<Rightarrow> int option"
  toUInt :: "string \<Rightarrow> int option"

definition qt_number_ok :: "qt_number \<Rightarrow> bool" where
  "qt_number_ok q \<longleftrightarrow>
     (\<forall>i. in_int i \<longrightarrow> toInt q (dec_int i) = Some i) \<and>
     (\<forall>i. in_uint i \<longrightarrow> toUInt q (dec_int i) = Some i) \<and>
     (\<forall>s i. toInt q s = Some i \<longrightarrow> in_int i) \<and>
     (\<forall>s i. toUInt q s = Some i \<longrightarrow> in_uint i)"

lemma qt_number_okD:
  assumes "qt_number_ok q"
  shows "in_int i \<Longrightarrow> toInt q (dec_int i) = Some i"
    and "in_uint i \<Longrightarrow> toUInt q (dec_int i) = Some i"
    and "toInt q s = Some i \<Longrightarrow> in_int i"
    and "toUInt q s = Some i \<Longrightarrow> in_uint i"
  using assms by (auto simp: qt_number_ok_def)

text \<open>A reader of plain decimal numerals, at which the contract holds.\<close>

fun read_dec :: "nat \<Rightarrow> string \<Rightarrow> nat option" where
  "read_dec acc [] = Some acc"
| "read_dec acc (c # cs) =
     (if is_digit c then read_dec (10 * acc + digit_val c) cs else None)"

definition read_int :: "string \<Rightarrow> int option" where
  "read_int s =
     (case s of [] \<Rightarrow> None
      | c # cs \<Rightarrow>
          if c = CHR ''-''
          then (if cs = [] then None else map_option (\<lambda>n. - int n) (read_dec 0 cs))
          else map_option int (read_dec 0 s))"

definition in_range :: "(int \<Rightarrow> bool) \<Rightarrow> int option \<Rightarrow> int option" where
  "in_range P r = (case r of None \<Rightarrow> None | Some i \<Rightarrow> if P i then Some i else None)"

definition std_number :: qt_number where
  "std_number = \<lparr>toInt = (\<lambda>s. in_range in_int (read_int s)),
                 toUInt = (\<lambda>s. in_range in_uint (read_int s))\<rparr>"

lemma read_dec_append:
  "read_dec acc (s @ t) = (case read_dec acc s of None \<Rightarrow> None | Some a \<Rightarrow> read_dec a t)"
  by (induction s arbitrary: acc) auto

lemma read_dec_dec_nat: "read_dec 0 (dec_nat n) = Some n"
proof (induction n rule: dec_nat.induct)
  case (1 n)
  show ?case
  proof (cases "n < 10")
    case True
    then show ?thesis by (subst dec_nat.simps) (simp add: digit_char_props)
  next
    case False
    then have "n mod 10 < 10" by simp
    with False "1.IH" show ?thesis
      by (subst dec_nat.simps) (simp add: read_dec_append digit_char_props)
  qed
qed

lemma read_int_dec_int: "read_int (dec_int i) = Some i"
proof (cases "i < 0")
  case True
  then show ?thesis by (simp add: dec_int_def read_int_def read_dec_dec_nat)
next
  case False
  obtain c cs where d: "dec_nat (nat i) = c # cs"
    by (cases "dec_nat (nat i)") simp_all
  have "is_digit c" using dec_nat_digits [of c "nat i"] d by simp
  then have "c \<noteq> CHR ''-''" by auto
  with False d show ?thesis
    using read_dec_dec_nat [of "nat i"] by (simp add: dec_int_def read_int_def)
qed

lemma std_number_ok: "qt_number_ok std_number"
  by (auto simp: qt_number_ok_def std_number_def in_range_def read_int_dec_int
      split: option.splits if_splits)

section \<open>Loops that can fail\<close>

text \<open>A loop over a list whose body may have no result.\<close>

fun fold_opt :: "('a \<Rightarrow> 's \<Rightarrow> 's option) \<Rightarrow> 'a list \<Rightarrow> 's \<Rightarrow> 's option" where
  "fold_opt f [] s = Some s"
| "fold_opt f (x # xs) s = (case f x s of None \<Rightarrow> None | Some s' \<Rightarrow> fold_opt f xs s')"

lemma fold_opt_Some:
  "(\<And>x s. x \<in> set xs \<Longrightarrow> f x s = Some (g x s)) \<Longrightarrow> fold_opt f xs s = Some (fold g xs s)"
  by (induction xs arbitrary: s) auto

lemma fold_opt_append:
  "fold_opt f (xs @ ys) s = (case fold_opt f xs s of None \<Rightarrow> None | Some s' \<Rightarrow> fold_opt f ys s')"
  by (induction xs arbitrary: s) (auto split: option.splits)

end
