(* ===== verification/X10_Codes.thy ===== *)
theory X10_Codes
  imports X10_Prelude
begin

text \<open>
  The X10 code tables of \<open>controller/x10core/x10codes.h\<close> and \<open>x10codes.cpp\<close>: house,
  unit and command codes as the 32-bit values of their enumerations (casts from received
  bytes reach values that are no enumerator), the translations between codes, characters
  and numbers, and the construction of a command with its bounds checks.
\<close>

unbundle bit_operations_syntax

type_synonym HouseCode = "32 word"
type_synonym UnitCode = "32 word"
type_synonym CmdCode = "32 word"

abbreviation (input) HOUSE_A :: HouseCode where "HOUSE_A \<equiv> 0x60"
abbreviation (input) HOUSE_B :: HouseCode where "HOUSE_B \<equiv> 0x70"
abbreviation (input) HOUSE_C :: HouseCode where "HOUSE_C \<equiv> 0x40"
abbreviation (input) HOUSE_D :: HouseCode where "HOUSE_D \<equiv> 0x50"
abbreviation (input) HOUSE_E :: HouseCode where "HOUSE_E \<equiv> 0x80"
abbreviation (input) HOUSE_F :: HouseCode where "HOUSE_F \<equiv> 0x90"
abbreviation (input) HOUSE_G :: HouseCode where "HOUSE_G \<equiv> 0xA0"
abbreviation (input) HOUSE_H :: HouseCode where "HOUSE_H \<equiv> 0xB0"
abbreviation (input) HOUSE_I :: HouseCode where "HOUSE_I \<equiv> 0xE0"
abbreviation (input) HOUSE_J :: HouseCode where "HOUSE_J \<equiv> 0xF0"
abbreviation (input) HOUSE_K :: HouseCode where "HOUSE_K \<equiv> 0xC0"
abbreviation (input) HOUSE_L :: HouseCode where "HOUSE_L \<equiv> 0xD0"
abbreviation (input) HOUSE_M :: HouseCode where "HOUSE_M \<equiv> 0x00"
abbreviation (input) HOUSE_N :: HouseCode where "HOUSE_N \<equiv> 0x10"
abbreviation (input) HOUSE_O :: HouseCode where "HOUSE_O \<equiv> 0x20"
abbreviation (input) HOUSE_P :: HouseCode where "HOUSE_P \<equiv> 0x30"

abbreviation (input) UNIT_1 :: UnitCode where "UNIT_1 \<equiv> 0x000"
abbreviation (input) UNIT_9 :: UnitCode where "UNIT_9 \<equiv> 0x400"

abbreviation (input) X10CMD_ON :: CmdCode where "X10CMD_ON \<equiv> 0x00"
abbreviation (input) X10CMD_OFF :: CmdCode where "X10CMD_OFF \<equiv> 0x20"
abbreviation (input) X10CMD_DIM :: CmdCode where "X10CMD_DIM \<equiv> 0x98"
abbreviation (input) X10CMD_BRIGHT :: CmdCode where "X10CMD_BRIGHT \<equiv> 0x88"
abbreviation (input) X10CMD_UP :: CmdCode where "X10CMD_UP \<equiv> 0x762"
abbreviation (input) X10CMD_RIGHT :: CmdCode where "X10CMD_RIGHT \<equiv> 0x661"
abbreviation (input) X10CMD_DOWN :: CmdCode where "X10CMD_DOWN \<equiv> 0x863"
abbreviation (input) X10CMD_LEFT :: CmdCode where "X10CMD_LEFT \<equiv> 0x560"
abbreviation (input) X10CMD_INVALID :: CmdCode where "X10CMD_INVALID \<equiv> 0xFF"

definition HouseCodeLut :: "HouseCode list" where
  "HouseCodeLut =
     [HOUSE_A, HOUSE_B, HOUSE_C, HOUSE_D, HOUSE_E, HOUSE_F, HOUSE_G, HOUSE_H,
      HOUSE_I, HOUSE_J, HOUSE_K, HOUSE_L, HOUSE_M, HOUSE_N, HOUSE_O, HOUSE_P]"

definition UnitCodeLut :: "UnitCode list" where
  "UnitCodeLut =
     [0x000, 0x010, 0x008, 0x018, 0x040, 0x050, 0x048, 0x058,
      0x400, 0x410, 0x408, 0x418, 0x440, 0x450, 0x448, 0x458]"

text \<open>The command structure.\<close>

record x10_ha_command =
  ha_cmd :: CmdCode
  ha_house :: HouseCode
  ha_unit :: UnitCode

section \<open>Construction with bounds checks\<close>

text \<open>
  The macros work on the promoted value of the \<open>char\<close>; the assignment
  \<open>house = TO_LOWER(house)\<close> narrows it to a signed \<open>char\<close> again.
\<close>

definition TO_LOWER :: "int \<Rightarrow> int" where
  "TO_LOWER ch = (if ch < 97 then (ch - 65) + 97 else ch)"

definition OUT_OF_BOUNDS :: "int \<Rightarrow> int \<Rightarrow> int \<Rightarrow> bool" where
  "OUT_OF_BOUNDS val low high \<longleftrightarrow> val < low \<or> high < val"

definition HOUSE_MIN :: int where "HOUSE_MIN = 97"
definition HOUSE_MAX :: int where "HOUSE_MAX = 112"
definition UNIT_MIN :: int where "UNIT_MIN = 1"
definition UNIT_MAX :: int where "UNIT_MAX = 16"

text \<open>The first argument says whether \<open>malloc\<close> returns memory.\<close>

definition new_x10_ha_command_alloc ::
    "bool \<Rightarrow> CmdCode \<Rightarrow> char \<Rightarrow> int \<Rightarrow> x10_ha_command option" where
  "new_x10_ha_command_alloc mem cmd house0 unit =
     (let house = wrap8 (TO_LOWER (c_char house0)) in
      if OUT_OF_BOUNDS house HOUSE_MIN HOUSE_MAX then None
      else if OUT_OF_BOUNDS unit UNIT_MIN UNIT_MAX then None
      else if \<not> mem then None
      else Some \<lparr>ha_cmd = cmd,
                 ha_house = HouseCodeLut ! nat (house - HOUSE_MIN),
                 ha_unit = UnitCodeLut ! nat (unit - UNIT_MIN)\<rparr>)"

definition new_x10_ha_command :: "CmdCode \<Rightarrow> char \<Rightarrow> int \<Rightarrow> x10_ha_command option" where
  "new_x10_ha_command = new_x10_ha_command_alloc True"

section \<open>Translations\<close>

definition cmd_code_to_char :: "CmdCode \<Rightarrow> char" where
  "cmd_code_to_char code =
     (if code = X10CMD_ON then CHR ''+''
      else if code = X10CMD_OFF then CHR ''-''
      else if code = X10CMD_DIM then CHR ''s''
      else if code = X10CMD_BRIGHT then CHR ''b''
      else if code = X10CMD_UP then CHR ''u''
      else if code = X10CMD_RIGHT then CHR ''r''
      else if code = X10CMD_DOWN then CHR ''d''
      else if code = X10CMD_LEFT then CHR ''l''
      else CHR ''?'')"

definition cmd_code_to_str :: "CmdCode \<Rightarrow> string" where
  "cmd_code_to_str code =
     (if code = X10CMD_ON then ''on''
      else if code = X10CMD_OFF then ''off''
      else if code = X10CMD_DIM then ''dim''
      else if code = X10CMD_BRIGHT then ''brighten''
      else if code = X10CMD_UP then ''up''
      else if code = X10CMD_RIGHT then ''right''
      else if code = X10CMD_DOWN then ''down''
      else if code = X10CMD_LEFT then ''left''
      else ''invalid'')"

definition house_code_to_char :: "HouseCode \<Rightarrow> char" where
  "house_code_to_char code =
     (if code = HOUSE_A then CHR ''a''
      else if code = HOUSE_B then CHR ''b''
      else if code = HOUSE_C then CHR ''c''
      else if code = HOUSE_D then CHR ''d''
      else if code = HOUSE_E then CHR ''e''
      else if code = HOUSE_F then CHR ''f''
      else if code = HOUSE_G then CHR ''g''
      else if code = HOUSE_H then CHR ''h''
      else if code = HOUSE_I then CHR ''i''
      else if code = HOUSE_J then CHR ''j''
      else if code = HOUSE_K then CHR ''k''
      else if code = HOUSE_L then CHR ''l''
      else if code = HOUSE_M then CHR ''m''
      else if code = HOUSE_N then CHR ''n''
      else if code = HOUSE_O then CHR ''o''
      else if code = HOUSE_P then CHR ''p''
      else CHR ''?'')"

definition house_code_to_cam_code :: "HouseCode \<Rightarrow> 8 word" where
  "house_code_to_cam_code code =
     (if code = HOUSE_A then 0x90
      else if code = HOUSE_B then 0xA0
      else if code = HOUSE_C then 0x70
      else if code = HOUSE_D then 0x80
      else if code = HOUSE_E then 0xB0
      else if code = HOUSE_F then 0xC0
      else if code = HOUSE_G then 0xD0
      else if code = HOUSE_H then 0xE0
      else if code = HOUSE_I then 0x10
      else if code = HOUSE_J then 0x20
      else if code = HOUSE_K then 0xF0
      else if code = HOUSE_L then 0x00
      else if code = HOUSE_M then 0x30
      else if code = HOUSE_N then 0x40
      else if code = HOUSE_O then 0x50
      else if code = HOUSE_P then 0x60
      else 0x90)"

definition unit_code_to_int :: "UnitCode \<Rightarrow> int" where
  "unit_code_to_int code =
     (let unit = push_bit 1 code AND 0x8;
          unit = unit OR (drop_bit 4 code AND 0x4);
          unit = unit OR (drop_bit 2 code AND 0x2);
          unit = unit OR (drop_bit 4 code AND 0x1)
      in uint unit + 1)"

text \<open>\<open>None\<close>: the table is read outside its bounds.\<close>

definition int_to_unit_code :: "int \<Rightarrow> UnitCode option" where
  "int_to_unit_code unit =
     (let i = unit - UNIT_MIN in
      if 0 \<le> i \<and> i < int (length UnitCodeLut) then Some (UnitCodeLut ! nat i) else None)"

definition parse_cmd_code :: "char \<Rightarrow> CmdCode" where
  "parse_cmd_code c =
     (if c = CHR ''+'' then X10CMD_ON
      else if c = CHR ''-'' then X10CMD_OFF
      else if c = CHR ''u'' then X10CMD_UP
      else if c = CHR ''d'' then X10CMD_DOWN
      else if c = CHR ''l'' then X10CMD_LEFT
      else if c = CHR ''r'' then X10CMD_RIGHT
      else if c = CHR ''b'' then X10CMD_BRIGHT
      else if c = CHR ''s'' then X10CMD_DIM
      else X10CMD_INVALID)"

definition x10_ha_command_print :: "x10_ha_command \<Rightarrow> string" where
  "x10_ha_command_print c =
     upper_char (house_code_to_char (ha_house c)) # dec_int (unit_code_to_int (ha_unit c))
     @ '' '' @ cmd_code_to_str (ha_cmd c)"

section \<open>Tables\<close>

definition valid_cmd_codes :: "CmdCode list" where
  "valid_cmd_codes = [X10CMD_ON, X10CMD_OFF, X10CMD_DIM, X10CMD_BRIGHT,
                      X10CMD_UP, X10CMD_RIGHT, X10CMD_DOWN, X10CMD_LEFT]"

lemma house_lut_length [simp]: "length HouseCodeLut = 16"
  by (simp add: HouseCodeLut_def)

lemma unit_lut_length [simp]: "length UnitCodeLut = 16"
  by (simp add: UnitCodeLut_def)

lemma house_lut_distinct: "distinct HouseCodeLut"
  by (simp add: HouseCodeLut_def)

lemma unit_lut_distinct: "distinct UnitCodeLut"
  by (simp add: UnitCodeLut_def)

lemma house_lut_chars: "map house_code_to_char HouseCodeLut = ''abcdefghijklmnop''"
  by (simp add: HouseCodeLut_def house_code_to_char_def)

lemma unit_lut_ints:
  "map unit_code_to_int UnitCodeLut = [1, 2, 3, 4, 5, 6, 7, 8, 1, 2, 3, 4, 5, 6, 7, 8]"
  by (simp add: UnitCodeLut_def unit_code_to_int_def)

lemma parse_cmd_code_inverse: "map (parse_cmd_code \<circ> cmd_code_to_char) valid_cmd_codes = valid_cmd_codes"
  by (simp add: valid_cmd_codes_def parse_cmd_code_def cmd_code_to_char_def)

lemma cmd_code_to_char_parse:
  "cmd_code_to_char (parse_cmd_code c) = (if c \<in> set ''+-udlrbs'' then c else CHR ''?'')"
  by (simp add: parse_cmd_code_def cmd_code_to_char_def)

text \<open>The letters the house check accepts are exactly A to P in either case.\<close>

definition is_house :: "char \<Rightarrow> bool" where
  "is_house h \<longleftrightarrow> 65 \<le> (of_char (upper_char h) :: nat) \<and> (of_char (upper_char h) :: nat) \<le> 80"

definition house_index :: "char \<Rightarrow> nat" where
  "house_index h = of_char (upper_char h) - 65"

lemma house_index_less: "is_house h \<Longrightarrow> house_index h < 16"
  by (auto simp: is_house_def house_index_def)

lemma lowered_house:
  "(let house = wrap8 (TO_LOWER (c_char h)) in \<not> OUT_OF_BOUNDS house HOUSE_MIN HOUSE_MAX) \<longleftrightarrow> is_house h"
  "is_house h \<Longrightarrow> wrap8 (TO_LOWER (c_char h)) - HOUSE_MIN = int (house_index h)"
proof -
  define n where "n = (of_char h :: nat)"
  have n: "n < 256" unfolding n_def by simp
  have c: "c_char h = (if n < 128 then int n else int n - 256)"
    by (simp add: c_char_def n_def)
  have u: "(of_char (upper_char h) :: nat) = (if 97 \<le> n \<and> n \<le> 122 then n - 32 else n)"
    by (simp add: of_char_upper n_def)
  show "(let house = wrap8 (TO_LOWER (c_char h)) in \<not> OUT_OF_BOUNDS house HOUSE_MIN HOUSE_MAX)
          \<longleftrightarrow> is_house h"
    using n unfolding is_house_def u c wrap8_def TO_LOWER_def OUT_OF_BOUNDS_def HOUSE_MIN_def
      HOUSE_MAX_def Let_def
    by (cases "n < 128"; cases "n < 97"; cases "n = 96"; force)
  assume "is_house h"
  then show "wrap8 (TO_LOWER (c_char h)) - HOUSE_MIN = int (house_index h)"
    using n unfolding is_house_def house_index_def u c wrap8_def TO_LOWER_def HOUSE_MIN_def
    by (cases "n < 128"; cases "n < 97"; auto split: if_splits)
qed

lemma new_x10_ha_command_eq:
  "new_x10_ha_command cmd h u =
     (if is_house h \<and> 1 \<le> u \<and> u \<le> 16
      then Some \<lparr>ha_cmd = cmd, ha_house = HouseCodeLut ! house_index h,
                 ha_unit = UnitCodeLut ! nat (u - 1)\<rparr>
      else None)"
proof (cases "is_house h")
  case True
  then have "\<not> OUT_OF_BOUNDS (wrap8 (TO_LOWER (c_char h))) HOUSE_MIN HOUSE_MAX"
    using lowered_house(1) [of h] by (simp add: Let_def)
  with lowered_house(2) [OF True] True show ?thesis
    by (simp add: new_x10_ha_command_def new_x10_ha_command_alloc_def Let_def OUT_OF_BOUNDS_def
        UNIT_MIN_def UNIT_MAX_def not_less)
next
  case False
  then have "OUT_OF_BOUNDS (wrap8 (TO_LOWER (c_char h))) HOUSE_MIN HOUSE_MAX"
    using lowered_house(1) [of h] by (simp add: Let_def)
  with False show ?thesis
    by (simp add: new_x10_ha_command_def new_x10_ha_command_alloc_def Let_def)
qed

lemma unit_cases:
  assumes "1 \<le> (u::int)" and "u \<le> 16"
  shows "u \<in> set [1,2,3,4,5,6,7,8,9,10,11,12,13,14,15,16]"
proof -
  from assms have "u \<in> set [1..16]" by (simp only: set_upto atLeastAtMost_iff)
  moreover have "[1..16] = [1,2,3,4,5,6,7,8,9,10,11,12,13,14,15,16::int]" by code_simp
  ultimately show ?thesis by (simp only:)
qed

lemma house_of_lut:
  assumes "i < 16"
  shows "(of_char (house_code_to_char (HouseCodeLut ! i)) :: nat) = 97 + i"
proof -
  have "map (of_char :: char \<Rightarrow> nat) ''abcdefghijklmnop'' = [97..<113]"
    by (simp add: upt_rec_numeral)
  then have "map (\<lambda>c. of_char (house_code_to_char c) :: nat) HouseCodeLut = [97..<113]"
    by (simp only: house_lut_chars [symmetric] map_map comp_def)
  then have "map (\<lambda>c. of_char (house_code_to_char c) :: nat) HouseCodeLut ! i = [97..<113] ! i"
    by (rule arg_cong)
  also from assms have "[97..<113] ! i = 97 + i" by (intro nth_upt) simp
  finally show ?thesis using assms by simp
qed

lemma house_round_trip:
  assumes "is_house h"
  shows "upper_char (house_code_to_char (HouseCodeLut ! house_index h)) = upper_char h"
proof (subst char_eq_of_char)
  have "(of_char (house_code_to_char (HouseCodeLut ! house_index h)) :: nat) = 97 + house_index h"
    by (rule house_of_lut [OF house_index_less [OF assms]])
  with assms show "(of_char (upper_char (house_code_to_char (HouseCodeLut ! house_index h))) :: nat)
      = of_char (upper_char h)"
    by (auto simp: of_char_upper [of "house_code_to_char _"] is_house_def house_index_def)
qed

lemma int_to_unit_code_eq:
  "int_to_unit_code u = (if 1 \<le> u \<and> u \<le> 16 then Some (UnitCodeLut ! nat (u - 1)) else None)"
  by (auto simp: int_to_unit_code_def UNIT_MIN_def Let_def)

lemma unit_code_to_int_nth:
  assumes "1 \<le> u" and "u \<le> 16"
  shows "unit_code_to_int (UnitCodeLut ! nat (u - 1)) = (if u \<le> 8 then u else u - 8)"
  using unit_cases [OF assms] by (auto simp: UnitCodeLut_def unit_code_to_int_def)

section \<open>Properties\<close>

text \<open>A unit code reads back as its number for the units 1 to 8 and as the number minus 8
  for the units 9 to 16, because \<open>unit_code_to_int\<close> loses the bit that tells the two halves
  apart. So a command received for unit 9 is taken for unit 1.\<close>

lemma unit_numbers_collide:
  assumes "int_to_unit_code u = Some code"
  shows "unit_code_to_int code = (if u \<le> 8 then u else u - 8)"
  using assms unit_code_to_int_nth [of u] by (auto simp: int_to_unit_code_eq split: if_splits)

text \<open>\<open>new_x10_ha_command\<close> accepts exactly the letters A to P in either case with the units
  1 to 16, and the command it builds carries the code it was given, a house code that prints as
  that letter and the code of that unit.\<close>

lemma new_command_exact:
  "(case new_x10_ha_command cmd h u of
      None \<Rightarrow> \<not> (is_house h \<and> 1 \<le> u \<and> u \<le> 16)
    | Some c \<Rightarrow> is_house h \<and> 1 \<le> u \<and> u \<le> 16 \<and> ha_cmd c = cmd \<and>
                upper_char (house_code_to_char (ha_house c)) = upper_char h \<and>
                int_to_unit_code u = Some (ha_unit c))"
  by (auto simp: new_x10_ha_command_eq int_to_unit_code_eq house_round_trip)

end
