(* ===== verification/X10_Command.thy ===== *)
theory X10_Command
  imports X10_Codes
begin

text \<open>
  \<open>common/command.h\<close>: the command types, the \<open>COMMAND\<close> structure with its printed
  address, the unit structure of the widgets, and the class \<open>X10\<close> of argument checks that
  the service, the rules, the data engine and the command line all use.
\<close>

type_synonym Channel = char
type_synonym Unit = int

definition MAX_VALUE :: int where "MAX_VALUE = 7"

datatype COMMAND_TYPE =
  CMD_SET | CMD_ON | CMD_OFF | CMD_DIM | CMD_BRIGHT | CMD_INIT
| CMD_MVUP | CMD_MVDOWN | CMD_MVLEFT | CMD_MVRIGHT

text \<open>The enumerators' values are characters.\<close>

fun cmd_char :: "COMMAND_TYPE \<Rightarrow> char" where
  "cmd_char CMD_SET = CHR ''=''"
| "cmd_char CMD_ON = CHR ''+''"
| "cmd_char CMD_OFF = CHR ''-''"
| "cmd_char CMD_DIM = CHR ''s''"
| "cmd_char CMD_BRIGHT = CHR ''b''"
| "cmd_char CMD_INIT = CHR ''i''"
| "cmd_char CMD_MVUP = CHR ''u''"
| "cmd_char CMD_MVDOWN = CHR ''d''"
| "cmd_char CMD_MVLEFT = CHR ''l''"
| "cmd_char CMD_MVRIGHT = CHR ''r''"

text \<open>The cast \<open>(COMMAND_TYPE) c\<close>, for the characters that are enumerators.\<close>

definition cmd_of_char :: "char \<Rightarrow> COMMAND_TYPE option" where
  "cmd_of_char c =
     (if c = CHR ''='' then Some CMD_SET
      else if c = CHR ''+'' then Some CMD_ON
      else if c = CHR ''-'' then Some CMD_OFF
      else if c = CHR ''s'' then Some CMD_DIM
      else if c = CHR ''b'' then Some CMD_BRIGHT
      else if c = CHR ''i'' then Some CMD_INIT
      else if c = CHR ''u'' then Some CMD_MVUP
      else if c = CHR ''d'' then Some CMD_MVDOWN
      else if c = CHR ''l'' then Some CMD_MVLEFT
      else if c = CHR ''r'' then Some CMD_MVRIGHT
      else None)"

lemma cmd_of_char_char [simp]: "cmd_of_char (cmd_char t) = Some t"
  by (cases t) (simp_all add: cmd_of_char_def)

lemma cmd_of_char_SomeD: "cmd_of_char c = Some t \<Longrightarrow> cmd_char t = c"
  by (auto simp: cmd_of_char_def split: if_splits)

lemma cmd_char_inj [simp]: "cmd_char s = cmd_char t \<longleftrightarrow> s = t"
  by (metis cmd_of_char_char option.inject)

text \<open>C compares enumerators by value; the order of the type is the order of the values.\<close>

instantiation COMMAND_TYPE :: linorder
begin

definition less_eq_COMMAND_TYPE :: "COMMAND_TYPE \<Rightarrow> COMMAND_TYPE \<Rightarrow> bool" where
  "less_eq_COMMAND_TYPE s t \<longleftrightarrow> cmd_char s \<le> cmd_char t"

definition less_COMMAND_TYPE :: "COMMAND_TYPE \<Rightarrow> COMMAND_TYPE \<Rightarrow> bool" where
  "less_COMMAND_TYPE s t \<longleftrightarrow> cmd_char s < cmd_char t"

instance
  by standard (auto simp: less_eq_COMMAND_TYPE_def less_COMMAND_TYPE_def dest: order_antisym)

end

section \<open>Commands\<close>

record COMMAND =
  channel :: Channel
  cunit :: Unit
  ctype :: COMMAND_TYPE
  cvalue :: int
  created :: int
  notified :: bool

text \<open>The constructors; \<open>now\<close> is what \<open>time(0)\<close> returns.\<close>

definition COMMAND_default :: "int \<Rightarrow> COMMAND" where
  "COMMAND_default now =
     \<lparr>channel = CHR ''A'', cunit = 1, ctype = CMD_OFF, cvalue = -2, created = now, notified = False\<rparr>"

definition COMMAND_new :: "int \<Rightarrow> Channel \<Rightarrow> Unit \<Rightarrow> COMMAND_TYPE \<Rightarrow> int \<Rightarrow> COMMAND" where
  "COMMAND_new now ch u t v =
     \<lparr>channel = ch, cunit = u, ctype = t, cvalue = v, created = now, notified = False\<rparr>"

definition COMMAND_eq :: "COMMAND \<Rightarrow> COMMAND \<Rightarrow> bool" where
  "COMMAND_eq a b \<longleftrightarrow>
     channel a = channel b \<and> cunit a = cunit b \<and> ctype a = ctype b \<and> cvalue a = cvalue b
     \<and> created a = created b"

definition addr_str :: "Channel \<Rightarrow> Unit \<Rightarrow> string" where
  "addr_str ch u = [ch] @ (if ch \<noteq> CHR ''*'' \<and> u \<noteq> 0 then (if u \<noteq> 0 then dec_int u else ''*'') else '''')"

definition address :: "COMMAND \<Rightarrow> string" where
  "address c = addr_str (channel c) (cunit c)"

definition commandStr :: "COMMAND \<Rightarrow> string" where
  "commandStr c =
     address c @ [cmd_char (ctype c)] @ (if ctype c = CMD_SET then dec_int (cvalue c) else '''')"

lemma COMMAND_new_sel [simp]:
  "channel (COMMAND_new now ch u t v) = ch" "cunit (COMMAND_new now ch u t v) = u"
  "ctype (COMMAND_new now ch u t v) = t" "cvalue (COMMAND_new now ch u t v) = v"
  "created (COMMAND_new now ch u t v) = now" "notified (COMMAND_new now ch u t v) = False"
  by (simp_all add: COMMAND_new_def)

text \<open>The unit of a control widget; \<open>_address\<close> is a buffer of four bytes.\<close>

record X10Unit =
  xchannel :: Channel
  xunit :: Unit
  xvalue :: int
  xvalueBeforeOff :: int

definition X10Unit_new :: "Channel \<Rightarrow> Unit \<Rightarrow> int \<Rightarrow> X10Unit" where
  "X10Unit_new ch u v = \<lparr>xchannel = ch, xunit = u, xvalue = v, xvalueBeforeOff = -1\<rparr>"

definition X10Unit_IsOn :: "X10Unit \<Rightarrow> bool" where
  "X10Unit_IsOn x \<longleftrightarrow> xvalue x \<noteq> -1"

definition X10Unit_address :: "X10Unit \<Rightarrow> string" where
  "X10Unit_address x = xchannel x # dec_int (xunit x)"

section \<open>Argument checks\<close>

text \<open>
  \<open>X10::sourceToAddress\<close> writes its two reference arguments even when it returns false, and
  one of its callers ignores the returned flag, so both results are returned.
\<close>

definition house_letter :: "char \<Rightarrow> bool" where
  "house_letter c \<longleftrightarrow> c_char CHR ''A'' \<le> c_char c \<and> c_char c \<le> c_char CHR ''P''"

definition sourceToAddress :: "qt_number \<Rightarrow> string \<Rightarrow> Channel \<Rightarrow> Unit \<Rightarrow> bool \<times> Channel \<times> Unit" where
  "sourceToAddress q source ch0 u0 =
     (if source = ''*'' then (True, CHR ''*'', 0)
      else if length source < 2 \<or> length source > 3 then (False, ch0, u0)
      else
        let ch = upper_char (source ! 0);
            (ok, u) = (if drop 1 source = ''*'' then (True, 0)
                       else (case toInt q (drop 1 source) of None \<Rightarrow> (False, 0) | Some n \<Rightarrow> (True, n)))
        in (ok \<and> u \<ge> 0 \<and> u < 17 \<and> house_letter ch, ch, u))"

definition isValidAddress :: "qt_number \<Rightarrow> string \<Rightarrow> bool" where
  "isValidAddress q source = fst (sourceToAddress q source (CHR 0x00) 0)"

text \<open>
  The variants that occur: strings, \<open>int\<close>, \<open>unsigned int\<close>, \<open>bool\<close> and no value.
  \<open>QVariant::convert\<close> to a string succeeds on all but the last; to an integer it reads a
  string with \<open>toInt\<close> and narrows an unsigned number.
\<close>

datatype QVariant = QV_Invalid | QV_String string | QV_Int int | QV_UInt int | QV_Bool bool

fun qv_string :: "QVariant \<Rightarrow> string option" where
  "qv_string QV_Invalid = None"
| "qv_string (QV_String s) = Some s"
| "qv_string (QV_Int i) = Some (dec_int i)"
| "qv_string (QV_UInt i) = Some (dec_int i)"
| "qv_string (QV_Bool b) = Some (if b then ''true'' else ''false'')"

fun qv_int :: "qt_number \<Rightarrow> QVariant \<Rightarrow> int option" where
  "qv_int q QV_Invalid = None"
| "qv_int q (QV_String s) = toInt q s"
| "qv_int q (QV_Int i) = Some i"
| "qv_int q (QV_UInt i) = Some (wrap32 i)"
| "qv_int q (QV_Bool b) = Some (if b then 1 else 0)"

definition isValidChannel :: "QVariant \<Rightarrow> bool" where
  "isValidChannel v =
     (case qv_string v of None \<Rightarrow> False
      | Some s \<Rightarrow> length s = 1 \<and> (s ! 0 = CHR ''*'' \<or> house_letter (to_upper s ! 0)))"

definition isValidUnit :: "qt_number \<Rightarrow> QVariant \<Rightarrow> bool" where
  "isValidUnit q v = (case qv_int q v of None \<Rightarrow> False | Some i \<Rightarrow> i \<ge> 0 \<and> i < 17)"

definition isValidValue :: "qt_number \<Rightarrow> QVariant \<Rightarrow> bool" where
  "isValidValue q v = (case qv_int q v of None \<Rightarrow> False | Some i \<Rightarrow> i \<ge> -1 \<and> i \<le> MAX_VALUE)"

text \<open>\<open>isValidBoolean\<close>: the accepted value, or \<open>None\<close> when the check returns false.\<close>

definition isValidBoolean :: "QVariant \<Rightarrow> bool option" where
  "isValidBoolean v =
     (case qv_string v of None \<Rightarrow> None
      | Some s \<Rightarrow> if s = ''true'' \<or> s = ''1'' then Some True
                 else if s = ''false'' \<or> s = ''0'' then Some False else None)"

definition isValidCommand :: "QVariant \<Rightarrow> bool" where
  "isValidCommand v =
     (case qv_string v of None \<Rightarrow> False
      | Some s \<Rightarrow> length s = 1 \<and>
          (let cmd = s ! 0 in
             cmd = CHR ''='' \<or> cmd = CHR ''+'' \<or> cmd = CHR ''-'' \<or>
             cmd = CHR ''s'' \<or> cmd = CHR ''b'' \<or>
             cmd = CHR ''i'' \<or> cmd = CHR ''u'' \<or> cmd = CHR ''d'' \<or> cmd = CHR ''l'' \<or>
             cmd = CHR ''r''))"

section \<open>Lemmas\<close>

text \<open>
  A concrete address is a house letter with a unit from 1 to 16: what \<open>new_x10_ha_command\<close>
  accepts and what a container of a real unit is named after.
\<close>

definition concrete :: "Channel \<Rightarrow> Unit \<Rightarrow> bool" where
  "concrete ch u \<longleftrightarrow> house_letter ch \<and> 1 \<le> u \<and> u \<le> 16"

text \<open>The values a unit takes: -1 is off.\<close>

definition level_ok :: "int \<Rightarrow> bool" where
  "level_ok v \<longleftrightarrow> -1 \<le> v \<and> v \<le> MAX_VALUE"

text \<open>
  What a command sent to the queue manager looks like: a real unit or a pattern (the star for
  the house, 0 for the unit), and a value in range where it sets one.
\<close>

definition request_ok :: "COMMAND \<Rightarrow> bool" where
  "request_ok c \<longleftrightarrow>
     (channel c = CHR ''*'' \<or> house_letter (channel c)) \<and> 0 \<le> cunit c \<and> cunit c \<le> 16
     \<and> (ctype c = CMD_SET \<longrightarrow> level_ok (cvalue c))"

lemma house_letter_range:
  "house_letter c \<longleftrightarrow> 65 \<le> (of_char c :: nat) \<and> (of_char c :: nat) \<le> 80"
proof -
  define n where "n = (of_char c :: nat)"
  have n: "n < 256" by (simp add: n_def)
  have "c_char c = (if n < 128 then int n else int n - 256)" by (simp add: c_char_def n_def)
  moreover have "c_char CHR ''A'' = 65" and "c_char CHR ''P'' = 80" by (simp_all add: c_char_def)
  ultimately show ?thesis
    unfolding house_letter_def n_def [symmetric] using n by auto
qed

lemma house_letter_upper: "house_letter c \<Longrightarrow> upper_char c = c"
  by (simp add: house_letter_range upper_char_def)

lemma house_letter_is_house: "house_letter c \<Longrightarrow> is_house c"
  by (simp add: is_house_def house_letter_upper) (simp add: house_letter_range)

lemma house_letter_not_star: "house_letter c \<Longrightarrow> c \<noteq> CHR ''*''"
  by (auto simp: house_letter_range)

lemma house_letter_not_space: "house_letter c \<Longrightarrow> c \<noteq> CHR '' ''"
  by (auto simp: house_letter_range)

lemma dec_int_not_star: "dec_int u \<noteq> ''*''"
proof
  assume "dec_int u = ''*''"
  then have "CHR ''*'' \<in> set (dec_int u)" by simp
  then show False using dec_int_avoids [of "CHR ''*''"] by simp
qed

lemma dec_nat_length: "n < 10 \<Longrightarrow> length (dec_nat n) = 1" "10 \<le> n \<Longrightarrow> n < 100 \<Longrightarrow> length (dec_nat n) = 2"
  by (simp_all add: dec_nat.simps)

lemma dec_unit_length:
  assumes "0 \<le> u" and "u \<le> 16"
  shows "length (dec_int u) = (if u < 10 then 1 else 2)"
  using assms by (auto simp: dec_int_def dec_nat_length nat_less_iff le_nat_iff)

lemma addr_str_concrete: "concrete ch u \<Longrightarrow> addr_str ch u = ch # dec_int u"
  by (auto simp: addr_str_def concrete_def dest: house_letter_not_star)

lemma sourceToAddress_addr_str:
  assumes "qt_number_ok q" and "concrete ch u"
  shows "sourceToAddress q (addr_str ch u) ch0 u0 = (True, ch, u)"
proof -
  from assms(2) have ch: "house_letter ch" and u: "1 \<le> u" "u \<le> 16"
    by (auto simp: concrete_def)
  have "in_int u" using u by (simp add: in_int_def INT_MIN_def INT_MAX_def)
  with assms(1) have "toInt q (dec_int u) = Some u" by (rule qt_number_okD)
  moreover have "addr_str ch u \<noteq> ''*''" using addr_str_concrete [OF assms(2)] house_letter_not_star [OF ch]
    by simp
  moreover have "length (dec_int u) = 1 \<or> length (dec_int u) = 2"
    using dec_unit_length [of u] u by auto
  ultimately show ?thesis
    using ch u addr_str_concrete [OF assms(2)]
    by (auto simp: sourceToAddress_def dec_int_not_star house_letter_upper)
qed

lemma sourceToAddress_range:
  assumes "sourceToAddress q s ch0 u0 = (True, ch, u)"
  shows "ch = CHR ''*'' \<and> u = 0 \<or> house_letter ch \<and> 0 \<le> u \<and> u \<le> 16"
  using assms by (auto simp: sourceToAddress_def Let_def split: if_splits option.splits)

lemma isValidAddress_iff:
  "isValidAddress q s \<longleftrightarrow>
     s = ''*'' \<or>
     (length s = 2 \<or> length s = 3) \<and> house_letter (upper_char (hd s)) \<and>
     (tl s = ''*'' \<or> (\<exists>n. toInt q (tl s) = Some n \<and> 0 \<le> n \<and> n \<le> 16))"
proof (cases s)
  case Nil
  then show ?thesis by (simp add: isValidAddress_def sourceToAddress_def)
next
  case (Cons c cs)
  show ?thesis
  proof (cases cs)
    case Nil
    with Cons show ?thesis by (simp add: isValidAddress_def sourceToAddress_def)
  next
    case (Cons d ds)
    with \<open>s = c # cs\<close> show ?thesis
      by (auto simp: isValidAddress_def sourceToAddress_def Let_def le_Suc_eq not_less
          split: option.splits)
  qed
qed

lemma isValidAddress_addr_str:
  "qt_number_ok q \<Longrightarrow> concrete ch u \<Longrightarrow> isValidAddress q (addr_str ch u)"
  by (simp add: isValidAddress_def sourceToAddress_addr_str)

lemma isValidCommand_iff:
  "isValidCommand (QV_String s) \<longleftrightarrow> (\<exists>t. s = [cmd_char t])"
proof
  assume "isValidCommand (QV_String s)"
  then obtain c where s: "s = [c]" and "cmd_of_char c \<noteq> None"
    by (cases s) (auto simp: isValidCommand_def cmd_of_char_def Let_def)
  then show "\<exists>t. s = [cmd_char t]" by (auto dest: cmd_of_char_SomeD)
next
  assume "\<exists>t. s = [cmd_char t]"
  then obtain t where "s = [cmd_char t]" ..
  then show "isValidCommand (QV_String s)"
    by (cases t) (simp_all add: isValidCommand_def)
qed

lemma concrete_new_cmd:
  assumes "concrete ch u"
  shows "\<exists>c. new_x10_ha_command code ch u = Some c \<and> ha_cmd c = code
           \<and> ha_house c = HouseCodeLut ! house_index ch \<and> ha_unit c = UnitCodeLut ! nat (u - 1)"
  using assms by (simp add: new_x10_ha_command_eq concrete_def house_letter_is_house)

section \<open>Properties\<close>

text \<open>The address a command prints is read back as its house and unit, and is a valid
  address, for every house letter and every unit from 1 to 16.\<close>

lemma address_round_trip:
  assumes "qt_number_ok q" and "house_letter (channel c)" and "1 \<le> cunit c" and "cunit c \<le> 16"
  shows "sourceToAddress q (address c) ch0 u0 = (True, channel c, cunit c) \<and> isValidAddress q (address c)"
  using assms sourceToAddress_addr_str [of q "channel c" "cunit c"]
    isValidAddress_addr_str [of q "channel c" "cunit c"]
  by (simp add: address_def concrete_def)

end
