(* ===== verification/X10_Store.thy ===== *)
theory X10_Store
  imports X10_Prelude
begin

text \<open>
  The \<open>std::map<QString, Container*>\<close> of the queue manager and of the data engine: an
  association list kept in key order, which is the order in which the code iterates. The
  locale \<open>std_map\<close> is what the clients rely on.
\<close>

type_synonym 'v store = "(string \<times> 'v) list"

definition st_find :: "'v store \<Rightarrow> string \<Rightarrow> 'v option" where
  "st_find m k = map_of m k"

fun st_put :: "string \<Rightarrow> 'v \<Rightarrow> 'v store \<Rightarrow> 'v store" where
  "st_put k v [] = [(k, v)]"
| "st_put k v ((k', v') # m) =
     (if k < k' then (k, v) # (k', v') # m
      else if k = k' then (k, v) # m
      else (k', v') # st_put k v m)"

definition st_erase :: "string \<Rightarrow> 'v store \<Rightarrow> 'v store" where
  "st_erase k m = filter (\<lambda>p. fst p \<noteq> k) m"

definition st_keys :: "'v store \<Rightarrow> string list" where
  "st_keys m = map fst m"

definition st_inv :: "'v store \<Rightarrow> bool" where
  "st_inv m \<longleftrightarrow> sorted_wrt (<) (map fst m)"

section \<open>The interface\<close>

locale std_map =
  fixes empty :: "'m"
    and find :: "'m \<Rightarrow> string \<Rightarrow> 'v option"
    and put :: "string \<Rightarrow> 'v \<Rightarrow> 'm \<Rightarrow> 'm"
    and keys :: "'m \<Rightarrow> string list"
    and invar :: "'m \<Rightarrow> bool"
  assumes invar_empty: "invar empty"
    and keys_empty: "keys empty = []"
    and invar_put: "invar m \<Longrightarrow> invar (put k v m)"
    and find_put: "invar m \<Longrightarrow> find (put k v m) k' = (if k' = k then Some v else find m k')"
    and keys_sorted: "invar m \<Longrightarrow> sorted_wrt (<) (keys m)"
    and keys_find: "invar m \<Longrightarrow> k \<in> set (keys m) \<longleftrightarrow> find m k \<noteq> None"
begin

lemma find_empty: "find empty k = None"
  using keys_find [OF invar_empty, of k] by (simp add: keys_empty)

lemma find_put_same: "invar m \<Longrightarrow> find (put k v m) k = Some v"
  by (simp add: find_put)

lemma find_put_other: "invar m \<Longrightarrow> k' \<noteq> k \<Longrightarrow> find (put k v m) k' = find m k'"
  by (simp add: find_put)

lemma set_keys_put:
  assumes "invar m"
  shows "set (keys (put k v m)) = insert k (set (keys m))"
  using assms by (auto simp: keys_find invar_put find_put split: if_splits)

lemma keys_distinct: "invar m \<Longrightarrow> distinct (keys m)"
  using keys_sorted strict_sorted_iff by blast

text \<open>Storing at a key that is there leaves the iteration order alone.\<close>

lemma keys_put_present:
  assumes "invar m" and "find m k \<noteq> None"
  shows "keys (put k v m) = keys m"
proof (rule sorted_distinct_set_unique)
  show "set (keys (put k v m)) = set (keys m)"
    using assms set_keys_put [of m k v] keys_find [of m k] by auto
qed (use assms keys_sorted [of m] keys_sorted [of "put k v m"] invar_put [of m k v]
     in \<open>auto simp: strict_sorted_iff\<close>)

end

section \<open>The association list provides it\<close>

lemma st_put_keys: "fst ` set (st_put k v m) = insert k (fst ` set m)"
  by (induction k v m rule: st_put.induct) auto

lemma st_put_find: "st_inv m \<Longrightarrow> st_find (st_put k v m) k' = (if k' = k then Some v else st_find m k')"
proof (induction m)
  case Nil
  then show ?case by (simp add: st_find_def)
next
  case (Cons p m)
  obtain kp vp where p: "p = (kp, vp)" by (cases p)
  from Cons.prems have "st_inv m" by (simp add: st_inv_def)
  with Cons.IH have IH: "map_of (st_put k v m) k' = (if k' = k then Some v else map_of m k')"
    by (simp add: st_find_def)
  have less: "kp < x" if "x \<in> set (map fst m)" for x
    using Cons.prems that by (auto simp: st_inv_def p)
  have "map_of m k = None" if "k < kp"
    using less [of k] that by (auto simp: map_of_eq_None_iff dest: order_less_trans)
  then show ?case using IH by (cases "k' = k") (auto simp: p st_find_def)
qed

lemma st_put_inv: "st_inv m \<Longrightarrow> st_inv (st_put k v m)"
proof (induction m)
  case Nil
  then show ?case by (simp add: st_inv_def)
next
  case (Cons p m)
  obtain kp vp where p: "p = (kp, vp)" by (cases p)
  from Cons have "sorted_wrt (<) (map fst (st_put k v m))" by (simp add: st_inv_def)
  moreover have "kp < x" if "x \<in> fst ` set (st_put k v m)" and "kp < k" for x
    using Cons.prems that by (auto simp: st_put_keys st_inv_def p)
  moreover have "k < x" if "k < kp" and "x \<in> set (map fst m)" for x
    using Cons.prems that by (auto simp: st_inv_def p intro: order_less_trans)
  ultimately show ?case
    using Cons.prems by (auto simp: st_inv_def p image_iff)
qed

lemma st_keys_find: "k \<in> set (st_keys m) \<longleftrightarrow> st_find m k \<noteq> None"
  by (simp add: st_keys_def st_find_def map_of_eq_None_iff)

interpretation cmap: std_map "[]" st_find st_put st_keys st_inv
  by unfold_locales
     (simp_all add: st_keys_find st_put_find st_put_inv, simp_all add: st_inv_def st_keys_def)

lemma st_erase_inv: "st_inv m \<Longrightarrow> st_inv (st_erase k m)"
  by (induction m) (auto simp: st_inv_def st_erase_def)

lemma st_erase_find: "st_find (st_erase k m) k' = (if k' = k then None else st_find m k')"
  by (induction m) (auto simp: st_find_def st_erase_def)

end
