(* ===== verification/X10_Container.thy ===== *)
theory X10_Container
  imports X10_Command X10_Store
begin

text \<open>
  \<open>controller/service/container.h\<close> and \<open>container.cpp\<close>: the last known value of a unit,
  -1 for off and 0 to 7 for a brightness, with the operations that change it and tell the
  queue manager. The signals the queue manager emits are events.
\<close>

datatype qm_event =
  SourceUpdated string int
| CommandCompleted COMMAND
| CommandReceived
| StatusUpdate string
| RestartDBUS

record Container =
  csource :: string
  clevel :: int

definition Container_new :: "string \<Rightarrow> Container" where
  "Container_new src = \<lparr>csource = src, clevel = -1\<rparr>"

text \<open>
  \<open>SetValue\<close> stores and calls \<open>QueueManager::UpdateSource\<close>, whose body is the signal.
\<close>

definition UpdateSource :: "string \<Rightarrow> int \<Rightarrow> qm_event list" where
  "UpdateSource src v = [SourceUpdated src v]"

definition SetValue :: "int \<Rightarrow> Container \<Rightarrow> Container \<times> qm_event list" where
  "SetValue v c = (c\<lparr>clevel := v\<rparr>, UpdateSource (csource c) v)"

definition SetOn :: "bool \<Rightarrow> Container \<Rightarrow> Container \<times> qm_event list" where
  "SetOn on c =
     (if \<not> on then SetValue (-1) c
      else if clevel c = -1 then SetValue MAX_VALUE c
      else (c, []))"

definition PushDirection :: "bool \<Rightarrow> Container \<Rightarrow> Container \<times> qm_event list" where
  "PushDirection up c =
     (if clevel c = -1 then SetValue (MAX_VALUE - (if up then 0 else 1)) c
      else if up \<and> clevel c \<noteq> MAX_VALUE then SetValue (clevel c + 1) c
      else if \<not> up \<and> clevel c \<noteq> 0 then SetValue (clevel c - 1) c
      else (c, []))"

section \<open>Containers by address\<close>

definition CheckContainerExist :: "string \<Rightarrow> Container store \<Rightarrow> Container store" where
  "CheckContainerExist addr m =
     (case st_find m addr of None \<Rightarrow> st_put addr (Container_new addr) m | Some _ \<Rightarrow> m)"

text \<open>
  \<open>Containers[address]->f()\<close>. The code calls \<open>CheckContainerExist\<close> before every such access,
  so the case of a missing container never arises (\<open>find_CheckContainerExist\<close>).
\<close>

definition on_container ::
    "string \<Rightarrow> (Container \<Rightarrow> Container \<times> qm_event list) \<Rightarrow> Container store
       \<Rightarrow> Container store \<times> qm_event list" where
  "on_container addr f m =
     (case st_find m addr of
        None \<Rightarrow> (m, [])
      | Some c \<Rightarrow> (let (c', evs) = f c in (st_put addr c' m, evs)))"

definition container_value :: "Container store \<Rightarrow> string \<Rightarrow> int" where
  "container_value m addr = (case st_find m addr of None \<Rightarrow> -1 | Some c \<Rightarrow> clevel c)"

text \<open>Every container is filed under its source and holds a level in range.\<close>

definition containers_ok :: "Container store \<Rightarrow> bool" where
  "containers_ok m \<longleftrightarrow>
     st_inv m \<and> (\<forall>k c. st_find m k = Some c \<longrightarrow> csource c = k \<and> level_ok (clevel c))"

lemma containers_okD:
  assumes "containers_ok m"
  shows "st_inv m" and "st_find m k = Some c \<Longrightarrow> csource c = k"
    and "st_find m k = Some c \<Longrightarrow> level_ok (clevel c)"
  using assms by (auto simp: containers_ok_def)

lemma containers_ok_empty: "containers_ok []"
  by (simp add: containers_ok_def st_inv_def st_find_def)

lemma container_value_ok: "containers_ok m \<Longrightarrow> level_ok (container_value m k)"
  by (auto simp: container_value_def level_ok_def MAX_VALUE_def split: option.splits
      dest: containers_okD)

lemma CheckContainerExist_ok [x10_inv]:
  "containers_ok m \<Longrightarrow> containers_ok (CheckContainerExist a m)"
  by (auto simp: containers_ok_def CheckContainerExist_def cmap.find_put cmap.invar_put
      Container_new_def level_ok_def MAX_VALUE_def split: option.splits if_splits)

lemma find_CheckContainerExist:
  assumes "st_inv m"
  shows "st_find (CheckContainerExist a m) a \<noteq> None"
    and "k \<noteq> a \<Longrightarrow> st_find (CheckContainerExist a m) k = st_find m k"
  using assms by (auto simp: CheckContainerExist_def cmap.find_put split: option.splits)

lemma CheckContainerExist_value:
  "st_inv m \<Longrightarrow> container_value (CheckContainerExist a m) k = container_value m k"
  by (auto simp: container_value_def CheckContainerExist_def cmap.find_put Container_new_def
      split: option.splits)

lemma CheckContainerExist_inv: "st_inv m \<Longrightarrow> st_inv (CheckContainerExist a m)"
  by (auto simp: CheckContainerExist_def cmap.invar_put split: option.splits)

lemma CheckContainerExist_present: "st_find m a \<noteq> None \<Longrightarrow> CheckContainerExist a m = m"
  by (auto simp: CheckContainerExist_def)

lemma CheckContainerExist_keys:
  "st_inv m \<Longrightarrow> set (st_keys (CheckContainerExist a m)) = insert a (set (st_keys m))"
  by (auto simp: CheckContainerExist_def cmap.set_keys_put st_keys_find split: option.splits)

section \<open>The contract of the container operations\<close>

text \<open>
  An operation on a container keeps its source and the range of its level, and either does
  nothing or reports the level it stored. What follows for the whole store is proved once.
\<close>

locale container_op =
  fixes f :: "Container \<Rightarrow> Container \<times> qm_event list"
  assumes keeps_source: "csource (fst (f c)) = csource c"
    and keeps_level: "level_ok (clevel c) \<Longrightarrow> level_ok (clevel (fst (f c)))"
    and reports: "f c = (c, []) \<or> snd (f c) = [SourceUpdated (csource c) (clevel (fst (f c)))]"
begin

lemma store_ok: "containers_ok m \<Longrightarrow> containers_ok (fst (on_container a f m))"
  using keeps_source keeps_level
  by (auto simp: on_container_def containers_ok_def cmap.find_put cmap.invar_put
      split: option.splits prod.splits if_splits) (metis fst_conv)+

lemma store_frame:
  "st_inv m \<Longrightarrow> k \<noteq> a \<Longrightarrow> st_find (fst (on_container a f m)) k = st_find m k"
  by (auto simp: on_container_def cmap.find_put split: option.splits prod.splits)

lemma store_value:
  assumes "st_inv m" and "st_find m a = Some c"
  shows "container_value (fst (on_container a f m)) a = clevel (fst (f c))"
  using assms by (auto simp: on_container_def container_value_def cmap.find_put split: prod.splits)

lemma store_keys: "st_inv m \<Longrightarrow> st_keys (fst (on_container a f m)) = st_keys m"
  by (auto simp: on_container_def cmap.keys_put_present split: option.splits prod.splits)

lemma store_reports:
  assumes "containers_ok m" and "SourceUpdated k v \<in> set (snd (on_container a f m))"
  shows "k = a \<and> container_value (fst (on_container a f m)) a = v"
proof -
  from assms(2) obtain c where c: "st_find m a = Some c"
    by (auto simp: on_container_def split: option.splits)
  with assms have "SourceUpdated k v \<in> set (snd (f c))"
    by (auto simp: on_container_def split: prod.splits)
  then have "k = csource c \<and> v = clevel (fst (f c))" using reports [of c] by auto
  with store_value [OF _ c] assms(1) c show ?thesis by (auto dest: containers_okD)
qed

end

interpretation set_on: container_op "SetOn b"
  by unfold_locales (auto simp: SetOn_def SetValue_def UpdateSource_def level_ok_def MAX_VALUE_def)

interpretation push: container_op "PushDirection b"
  by unfold_locales
     (auto simp: PushDirection_def SetValue_def UpdateSource_def level_ok_def MAX_VALUE_def)

end
