(* ===== verification/X10_Rule.thy ===== *)
theory X10_Rule
  imports X10_Command
begin

text \<open>
  \<open>common/rule.h\<close> and \<open>rule.cpp\<close>: scheduled rules, the computation of the next execution
  time, the commands a rule stands for, validation, display and the text form in which rules
  travel and are saved.

  The clock and the time zone are the environment: \<open>now\<close> is what \<open>time\<close> returns and
  \<open>lt\<close> is \<open>localtime\<close>. The enumerations \<open>DAYS\<close> and \<open>ACTION_TYPE\<close> are integers,
  because \<open>deserialize\<close> casts any integer to them.
\<close>

unbundle bit_operations_syntax

definition MAX_TIMET :: int where "MAX_TIMET = 9223372036854775807"

definition SECS_IN_DAY :: int where "SECS_IN_DAY = 86400"

abbreviation (input) SUNDAY :: int where "SUNDAY \<equiv> 1"
abbreviation (input) MONDAY :: int where "MONDAY \<equiv> 2"
abbreviation (input) TUESDAY :: int where "TUESDAY \<equiv> 4"
abbreviation (input) WEDNESDAY :: int where "WEDNESDAY \<equiv> 8"
abbreviation (input) THURSDAY :: int where "THURSDAY \<equiv> 16"
abbreviation (input) FRIDAY :: int where "FRIDAY \<equiv> 32"
abbreviation (input) SATURDAY :: int where "SATURDAY \<equiv> 64"

definition WEEKDAYS :: int where "WEEKDAYS = MONDAY + TUESDAY + WEDNESDAY + THURSDAY + FRIDAY"
definition WEEK :: int where "WEEK = WEEKDAYS + SATURDAY + SUNDAY"

abbreviation (input) AT_ON :: int where "AT_ON \<equiv> 0"
abbreviation (input) AT_OFF :: int where "AT_OFF \<equiv> 1"
abbreviation (input) AT_SET :: int where "AT_SET \<equiv> 2"
abbreviation (input) AT_SEND :: int where "AT_SEND \<equiv> 3"

record tm =
  tm_sec :: int
  tm_min :: int
  tm_hour :: int
  tm_wday :: int

record Rule =
  enabled :: bool
  raddress :: string
  exec_time :: int
  period :: int
  actionType :: int
  raction :: string
  repeatTimes :: int
  repeatPeriodMn :: int
  nextExecTime :: int

definition Rule_new :: "(int \<Rightarrow> tm) \<Rightarrow> int \<Rightarrow> Rule" where
  "Rule_new lt now =
     (let tmNow = lt now in
      \<lparr>enabled = True, raddress = ''*'', exec_time = tm_hour tmNow * 3600 + tm_min tmNow * 60,
       period = WEEK, actionType = AT_ON, raction = '''', repeatTimes = 0, repeatPeriodMn = 60,
       nextExecTime = MAX_TIMET\<rparr>)"

definition Rule_eq :: "Rule \<Rightarrow> Rule \<Rightarrow> bool" where
  "Rule_eq a b \<longleftrightarrow>
     raddress a = raddress b \<and> exec_time a = exec_time b \<and> period a = period b
     \<and> actionType a = actionType b \<and> raction a = raction b \<and> repeatTimes a = repeatTimes b
     \<and> repeatPeriodMn a = repeatPeriodMn b"

section \<open>Display\<close>

definition period_has :: "int \<Rightarrow> int \<Rightarrow> bool" where
  "period_has p d \<longleftrightarrow> p AND d \<noteq> 0"

definition getPeriodText :: "Rule \<Rightarrow> string" where
  "getPeriodText r =
     (if period_has (period r) MONDAY then ''M'' else ''-'') @
     (if period_has (period r) TUESDAY then ''T'' else ''-'') @
     (if period_has (period r) WEDNESDAY then ''W'' else ''-'') @
     (if period_has (period r) THURSDAY then ''T'' else ''-'') @
     (if period_has (period r) FRIDAY then ''F'' else ''-'') @
     (if period_has (period r) SATURDAY then ''S'' else ''-'') @
     (if period_has (period r) SUNDAY then ''S'' else ''-'')"

text \<open>\<open>strftime\<close> with \<open>%H:%M\<close> of \<open>gmtime\<close>: two digits each.\<close>

definition two_digits :: "int \<Rightarrow> string" where
  "two_digits n = (if n < 10 then ''0'' @ dec_int n else dec_int n)"

definition getDisplayTime :: "Rule \<Rightarrow> string" where
  "getDisplayTime r =
     (let s = exec_time r mod SECS_IN_DAY
      in two_digits (s div 3600) @ '':'' @ two_digits ((s mod 3600) div 60))"

definition getDisplayText :: "Rule \<Rightarrow> string" where
  "getDisplayText r =
     (let actionStr =
            (if actionType r = AT_ON then ''Turn on '' @ raddress r
             else if actionType r = AT_OFF then ''Turn off '' @ raddress r
             else if actionType r = AT_SEND then ''Send to '' @ raddress r @ '' : '' @ raction r
             else if actionType r = AT_SET then ''Set '' @ raddress r @ '' to '' @ raction r
             else '''');
          repeatPattern =
            (if repeatTimes r > 0
             then '' ['' @ dec_int (repeatTimes r) @ ''x @'' @ dec_int (repeatPeriodMn r) @ ''mn]''
             else '''')
      in (if enabled r then ''o'' else ''x'') @ ''|'' @ getPeriodText r @ '', ''
         @ getDisplayTime r @ '': '' @ actionStr @ repeatPattern)"

section \<open>The next execution time\<close>

text \<open>
  The loop over \<open>inNbDays\<close>, from the given day on; \<open>day_due p k\<close> is the test
  \<open>period & (uint)pow(2, k)\<close>.
\<close>

definition day_due :: "int \<Rightarrow> int \<Rightarrow> bool" where
  "day_due p k \<longleftrightarrow> p AND 2 ^ nat k \<noteq> 0"

function search_day :: "int \<Rightarrow> int \<Rightarrow> int \<Rightarrow> int" where
  "search_day p wday inNbDays =
     (if inNbDays < 7
      then if day_due p ((wday + inNbDays) mod 7) then inNbDays
           else search_day p wday (inNbDays + 1)
      else inNbDays)"
  by pat_completeness auto
termination
  by (relation "measure (\<lambda>(p, w, n). nat (7 - n))") auto

declare search_day.simps [simp del]

definition nbSecs :: "tm \<Rightarrow> int" where
  "nbSecs t = tm_hour t * 3600 + tm_min t * 60 + tm_sec t"

text \<open>
  \<open>nbRepeatsRequired\<close> is an \<open>unsigned int\<close>; the other values are \<open>time_t\<close>, whose
  64 bits are wider than anything reached here.
\<close>

definition nbRepeatsRequired :: "Rule \<Rightarrow> int \<Rightarrow> int" where
  "nbRepeatsRequired r secs =
     wrapu32 (if repeatPeriodMn r \<noteq> 0
              then 1 + c_div (secs - exec_time r) (60 * repeatPeriodMn r)
              else wrapu32 (repeatTimes r + 1))"

definition GetExecutionTime :: "(int \<Rightarrow> tm) \<Rightarrow> int \<Rightarrow> Rule \<Rightarrow> int" where
  "GetExecutionTime lt now r =
     (if \<not> enabled r \<or> period r = 0 then MAX_TIMET
      else
        let tmNow = lt now;
            wday = tm_wday tmNow;
            nbSecsToday = nbSecs tmNow;
            finalExecTime = now + exec_time r - nbSecsToday;
            later = finalExecTime + search_day (period r) wday 1 * SECS_IN_DAY
        in if day_due (period r) wday
           then if exec_time r < nbSecsToday
                then let n = nbRepeatsRequired r nbSecsToday
                     in if n \<le> repeatTimes r then finalExecTime + n * repeatPeriodMn r * 60
                        else later
                else finalExecTime
           else later)"

section \<open>The commands of a rule\<close>

fun rule_addresses :: "qt_number \<Rightarrow> string list \<Rightarrow> string list \<Rightarrow> string list" where
  "rule_addresses q addresses [] = addresses"
| "rule_addresses q addresses (a # as) =
     (if a = ''*'' then [''*'']
      else if isValidAddress q a then rule_addresses q (addresses @ [a]) as
      else rule_addresses q addresses as)"

text \<open>The commands for one address of the rule; \<open>actions[ac][0]\<close> of a non-empty part.\<close>

fun send_commands :: "int \<Rightarrow> Channel \<Rightarrow> Unit \<Rightarrow> string list \<Rightarrow> COMMAND list" where
  "send_commands now ch u [] = []"
| "send_commands now ch u (a # as) =
     (if a ! 0 \<noteq> CHR ''='' \<and> isValidCommand (QV_String a)
      then (case cmd_of_char (a ! 0) of
              Some t \<Rightarrow> [COMMAND_new now ch u t (-1)]
            | None \<Rightarrow> [])
      else []) @ send_commands now ch u as"

definition address_commands :: "qt_number \<Rightarrow> int \<Rightarrow> Rule \<Rightarrow> string \<Rightarrow> COMMAND list" where
  "address_commands q now r ad =
     (case sourceToAddress q ad (CHR 0x00) 0 of
        (False, ch, u) \<Rightarrow> []
      | (True, ch, u) \<Rightarrow>
          if actionType r = AT_ON then [COMMAND_new now ch u CMD_ON (-1)]
          else if actionType r = AT_OFF then [COMMAND_new now ch u CMD_OFF (-1)]
          else if actionType r = AT_SEND
          then send_commands now ch u (split_skip CHR '' '' (raction r))
          else if actionType r = AT_SET
          then (if isValidValue q (QV_String (raction r))
                then [COMMAND_new now ch u CMD_SET
                        (case toInt q (raction r) of None \<Rightarrow> 0 | Some v \<Rightarrow> v)]
                else [])
          else [])"

definition getCommands :: "qt_number \<Rightarrow> int \<Rightarrow> Rule \<Rightarrow> COMMAND list" where
  "getCommands q now r =
     concat (map (address_commands q now r)
       (rule_addresses q [] (split_skip CHR '' '' (raddress r))))"

section \<open>Validation\<close>

definition validateAction :: "string \<Rightarrow> bool" where
  "validateAction action =
     (let fields = split_skip CHR '' '' action in
      if fields = [] then True
      else list_all (\<lambda>f. f \<noteq> ''='' \<and> isValidCommand (QV_String f)) fields)"

definition validateAddress :: "qt_number \<Rightarrow> string \<Rightarrow> bool" where
  "validateAddress q addresses =
     (let fields = split_skip CHR '' '' addresses in
      if fields = [] then False else list_all (isValidAddress q) fields)"

definition isValid :: "qt_number \<Rightarrow> Rule \<Rightarrow> bool" where
  "isValid q r = validateAddress q (raddress r)"

section \<open>Text form\<close>

definition serialize :: "Rule \<Rightarrow> string" where
  "serialize r =
     (if enabled r then ''1'' else ''0'')
     @ '','' @ to_upper (raddress r) @ '',''
     @ dec_int (exec_time r) @ '',''
     @ dec_int (period r) @ '',''
     @ dec_int (actionType r) @ '',''
     @ raction r @ '',''
     @ dec_int (repeatTimes r) @ '',''
     @ dec_int (repeatPeriodMn r)"

definition int_or0 :: "int option \<Rightarrow> int" where
  "int_or0 r = (case r of None \<Rightarrow> 0 | Some i \<Rightarrow> i)"

definition deserialize :: "qt_number \<Rightarrow> string \<Rightarrow> Rule \<Rightarrow> bool \<times> Rule" where
  "deserialize q params r =
     (let fields = split_on CHR '','' params in
      if length fields \<noteq> 8 then (False, r)
      else
        let r = r\<lparr>enabled := (fields ! 0 = ''1''),
                  raddress := to_upper (fields ! 1),
                  exec_time := int_or0 (toInt q (fields ! 2)),
                  period := int_or0 (toInt q (fields ! 3)),
                  actionType := int_or0 (toInt q (fields ! 4)),
                  raction := fields ! 5,
                  repeatTimes := int_or0 (toUInt q (fields ! 6)),
                  repeatPeriodMn := int_or0 (toInt q (fields ! 7))\<rparr>
        in (True, if isValid q r then r else r\<lparr>enabled := False\<rparr>))"

definition serializedRules :: "Rule list \<Rightarrow> string" where
  "serializedRules rs = concat (map (\<lambda>r. serialize r @ ''|'') rs)"

text \<open>
  \<open>fresh\<close> is the default-constructed \<open>Rule rule;\<close> of each turn of the loop.
\<close>

fun parse_rules :: "qt_number \<Rightarrow> Rule \<Rightarrow> string list \<Rightarrow> Rule list" where
  "parse_rules q fresh [] = []"
| "parse_rules q fresh (s # ss) =
     (case deserialize q s fresh of
        (True, r) \<Rightarrow> r # parse_rules q fresh ss
      | (False, _) \<Rightarrow> parse_rules q fresh ss)"

definition deserializeRules :: "qt_number \<Rightarrow> Rule \<Rightarrow> string \<Rightarrow> Rule list" where
  "deserializeRules q fresh rules = parse_rules q fresh (split_skip CHR ''|'' rules)"

end
