(* ===== verification/X10_Rule_Time.thy ===== *)
theory X10_Rule_Time
  imports X10_Rule
begin

text \<open>
  What \<open>Rule::GetExecutionTime\<close> computes, against a specification by the instants at which
  a rule is due, for a \<open>localtime\<close> at a constant offset from UTC (no change of daylight
  saving between now and the result).
\<close>

text \<open>The civil clock: seconds since the epoch, which began on a Thursday.\<close>

definition civil :: "int \<Rightarrow> int \<Rightarrow> tm" where
  "civil off t =
     (let L = t + off in
      \<lparr>tm_sec = L mod 60, tm_min = (L mod 3600) div 60, tm_hour = (L mod 86400) div 3600,
       tm_wday = (L div 86400 + 4) mod 7\<rparr>)"

definition due :: "int \<Rightarrow> Rule \<Rightarrow> int \<Rightarrow> bool" where
  "due off r t \<longleftrightarrow>
     (t + off) mod 86400 = exec_time r \<and> day_due (period r) (((t + off) div 86400 + 4) mod 7)"

definition selects_day :: "int \<Rightarrow> bool" where
  "selects_day p \<longleftrightarrow> list_ex (day_due p) [0, 1, 2, 3, 4, 5, 6]"

text \<open>A rule whose time of day, days and repeat counts are in their ranges.\<close>

definition rule_ok :: "Rule \<Rightarrow> bool" where
  "rule_ok r \<longleftrightarrow>
     0 \<le> exec_time r \<and> exec_time r < 86400 \<and> selects_day (period r)
     \<and> in_uint (repeatTimes r) \<and> 0 \<le> repeatPeriodMn r \<and> repeatPeriodMn r \<le> 10080"

section \<open>Clock arithmetic\<close>

lemma nbSecs_civil: "nbSecs (civil off t) = (t + off) mod 86400"
proof -
  define a where "a = (t + off) mod 86400"
  define b where "b = a mod 3600"
  have "(t + off) mod 3600 = b" and "(t + off) mod 60 = b mod 60"
    by (simp_all add: a_def b_def mod_mod_cancel)
  moreover have "a div 3600 * 3600 + b = a" and "b div 60 * 60 + b mod 60 = b"
    by (simp_all add: b_def)
  ultimately show ?thesis
    by (simp add: nbSecs_def civil_def Let_def a_def [symmetric])
qed

lemma wday_civil: "tm_wday (civil off t) = ((t + off) div 86400 + 4) mod 7"
  by (simp add: civil_def Let_def)

lemma day_shift:
  fixes L e n :: int
  assumes "0 \<le> e" and "e < 86400"
  shows "(L - L mod 86400 + e + n * 86400) mod 86400 = e"
    and "(L - L mod 86400 + e + n * 86400) div 86400 = L div 86400 + n"
proof -
  have "L - L mod 86400 + e + n * 86400 = e + (L div 86400 + n) * 86400"
    by (simp add: minus_mod_eq_mult_div algebra_simps)
  with assms show "(L - L mod 86400 + e + n * 86400) mod 86400 = e"
    and "(L - L mod 86400 + e + n * 86400) div 86400 = L div 86400 + n"
    by simp_all
qed

lemma selects_day_residue: "selects_day p \<longleftrightarrow> (\<exists>k. 0 \<le> k \<and> k < 7 \<and> day_due p k)"
proof
  assume "selects_day p"
  then show "\<exists>k. 0 \<le> k \<and> k < 7 \<and> day_due p k"
    by (auto simp: selects_day_def) (rule exI, rule conjI [rotated], rule conjI [rotated], assumption, simp_all)+
next
  assume "\<exists>k. 0 \<le> k \<and> k < 7 \<and> day_due p k"
  then obtain k where "0 \<le> k" and "k < 7" and "day_due p k" by auto
  then have "k \<in> {0..6}" and "day_due p k" by auto
  moreover have "{0..6} = {0, 1, 2, 3, 4, 5, 6 :: int}" by auto
  ultimately show "selects_day p" by (auto simp: selects_day_def)
qed

section \<open>The loop over the days\<close>

lemma search_day_bounds: "n \<le> 7 \<Longrightarrow> n \<le> search_day p w n \<and> search_day p w n \<le> 7"
proof (induction p w n rule: search_day.induct)
  case (1 p w n)
  then show ?case by (subst (1 2) search_day.simps) auto
qed

lemma search_day_found: "search_day p w n < 7 \<Longrightarrow> day_due p ((w + search_day p w n) mod 7)"
proof (induction p w n rule: search_day.induct)
  case (1 p w n)
  then show ?case by (subst search_day.simps, subst (asm) (1) search_day.simps) (auto split: if_splits)
qed

lemma search_day_skipped:
  "n \<le> k \<Longrightarrow> k < search_day p w n \<Longrightarrow> k < 7 \<Longrightarrow> \<not> day_due p ((w + k) mod 7)"
proof (induction p w n rule: search_day.induct)
  case (1 p w n)
  show ?case
  proof (cases "k = n")
    case True
    with "1.prems" show ?thesis by (subst (asm) (1) search_day.simps) (auto split: if_splits)
  next
    case False
    with "1.prems" have "n < 7" and "n + 1 \<le> k" by auto
    moreover have "\<not> day_due p ((w + n) mod 7)" and "k < search_day p w (n + 1)"
      using "1.prems" \<open>n < 7\<close> by (subst (asm) (1) search_day.simps, auto split: if_splits)+
    ultimately show ?thesis using "1.IH" "1.prems"(3) by blast
  qed
qed

text \<open>If some day is selected, the day the search from tomorrow on ends at is selected.\<close>

lemma search_day_due:
  assumes "selects_day p" and "0 \<le> w" and "w < 7"
  shows "day_due p ((w + search_day p w 1) mod 7)"
proof (cases "search_day p w 1 < 7")
  case True
  then show ?thesis by (rule search_day_found)
next
  case False
  with search_day_bounds [of 1 p w] have eq: "search_day p w 1 = 7" by auto
  from assms(1) obtain k where k: "0 \<le> k" "k < 7" "day_due p k"
    by (auto simp: selects_day_residue)
  define n where "n = (k - w) mod 7"
  have kn: "(w + n) mod 7 = k" using k by (simp add: n_def mod_simps)
  have "n = 0"
  proof (rule ccontr)
    assume "n \<noteq> 0"
    then have "1 \<le> n" and "n < 7" unfolding n_def by presburger+
    then have "\<not> day_due p ((w + n) mod 7)" using search_day_skipped [of 1 n p w] eq by simp
    with k kn show False by simp
  qed
  with kn k eq assms show ?thesis by (simp add: mod_simps)
qed

section \<open>The result is a due instant, and the first one\<close>

lemma due_at_day:
  assumes "0 \<le> exec_time r" and "exec_time r < 86400"
  shows "due off r (now + exec_time r - (now + off) mod 86400 + n * 86400) \<longleftrightarrow>
           day_due (period r) (((now + off) div 86400 + 4 + n) mod 7)"
proof -
  define L where "L = now + off"
  have "now + exec_time r - L mod 86400 + n * 86400 + off
          = L - L mod 86400 + exec_time r + n * 86400"
    by (simp add: L_def)
  then have m: "(now + exec_time r - L mod 86400 + n * 86400 + off) mod 86400 = exec_time r"
    and d: "(now + exec_time r - L mod 86400 + n * 86400 + off) div 86400 = L div 86400 + n"
    by (simp_all only: day_shift [OF assms])
  have "L div 86400 + n + 4 = L div 86400 + 4 + n" by simp
  then show ?thesis
    unfolding due_def L_def [symmetric] m d by (simp add: add_ac)
qed

text \<open>A due instant is \<open>exec_time\<close> on some day, counted from today.\<close>

lemma due_day:
  assumes "due off r t"
  obtains n where "t = now + exec_time r - (now + off) mod 86400 + n * 86400"
    and "day_due (period r) (((now + off) div 86400 + 4 + n) mod 7)"
proof -
  define L where "L = now + off"
  define n where "n = (t + off) div 86400 - L div 86400"
  from assms have e: "exec_time r = (t + off) mod 86400"
    and d: "day_due (period r) (((t + off) div 86400 + 4) mod 7)" by (auto simp: due_def)
  have "t + off = (t + off) div 86400 * 86400 + (t + off) mod 86400" by simp
  moreover have "L = L div 86400 * 86400 + L mod 86400" by simp
  moreover have "n * 86400 = (t + off) div 86400 * 86400 - L div 86400 * 86400"
    by (simp add: n_def left_diff_distrib)
  ultimately have "t = now + exec_time r - L mod 86400 + n * 86400"
    using e L_def by linarith
  moreover from d have "day_due (period r) ((L div 86400 + 4 + n) mod 7)"
    by (simp add: n_def add_ac)
  ultimately show ?thesis using that by (simp add: L_def)
qed

text \<open>The repeats: how many periods bring the slot past the current second.\<close>

lemma nbRepeatsRequired_pos:
  assumes "rule_ok r" and "exec_time r < secs" and "secs < 86400"
  shows "1 \<le> nbRepeatsRequired r secs \<or> repeatTimes r = 4294967295"
    and "repeatPeriodMn r \<noteq> 0 \<Longrightarrow>
           nbRepeatsRequired r secs = 1 + (secs - exec_time r) div (60 * repeatPeriodMn r)"
proof -
  have *: "nbRepeatsRequired r secs = 1 + (secs - exec_time r) div (60 * repeatPeriodMn r)"
    if "repeatPeriodMn r \<noteq> 0"
  proof -
    from that assms have pos: "0 < 60 * repeatPeriodMn r" by (auto simp: rule_ok_def)
    have q: "0 \<le> (secs - exec_time r) div (60 * repeatPeriodMn r)"
      using assms(2) pos by (simp add: pos_imp_zdiv_nonneg_iff)
    have "(secs - exec_time r) div (60 * repeatPeriodMn r) \<le> secs - exec_time r"
      using assms(2) pos by (intro int_div_le_self) auto
    with q assms that pos show ?thesis
      by (auto simp: nbRepeatsRequired_def c_div_nonneg wrapu32_def rule_ok_def)
  qed
  then show "repeatPeriodMn r \<noteq> 0 \<Longrightarrow>
      nbRepeatsRequired r secs = 1 + (secs - exec_time r) div (60 * repeatPeriodMn r)" .
  show "1 \<le> nbRepeatsRequired r secs \<or> repeatTimes r = 4294967295"
  proof (cases "repeatPeriodMn r = 0")
    case True
    with assms show ?thesis
      by (auto simp: nbRepeatsRequired_def wrapu32_def rule_ok_def in_uint_def)
  next
    case False
    then have "0 < 60 * repeatPeriodMn r" using assms by (auto simp: rule_ok_def)
    then have "0 \<le> (secs - exec_time r) div (60 * repeatPeriodMn r)"
      using assms(2) by (simp add: pos_imp_zdiv_nonneg_iff)
    with * [OF False] show ?thesis by simp
  qed
qed

section \<open>The specification\<close>

definition today_secs :: "int \<Rightarrow> int \<Rightarrow> int" where
  "today_secs off now = (now + off) mod 86400"

definition today_wday :: "int \<Rightarrow> int \<Rightarrow> int" where
  "today_wday off now = ((now + off) div 86400 + 4) mod 7"

text \<open>The first due day from today on, and the due instant of that day.\<close>

definition first_day :: "int \<Rightarrow> int \<Rightarrow> Rule \<Rightarrow> int" where
  "first_day off now r =
     (if day_due (period r) (today_wday off now) \<and> today_secs off now \<le> exec_time r then 0
      else search_day (period r) (today_wday off now) 1)"

definition first_due :: "int \<Rightarrow> int \<Rightarrow> Rule \<Rightarrow> int" where
  "first_due off now r =
     now + exec_time r - today_secs off now + first_day off now r * 86400"

lemma today_bounds:
  "0 \<le> today_secs off now" "today_secs off now < 86400"
  "0 \<le> today_wday off now" "today_wday off now < 7"
  by (simp_all add: today_secs_def today_wday_def)

lemma rule_okD:
  assumes "rule_ok r"
  shows "0 \<le> exec_time r" "exec_time r < 86400" "selects_day (period r)" "period r \<noteq> 0"
    "0 \<le> repeatTimes r" "repeatTimes r \<le> 4294967295" "0 \<le> repeatPeriodMn r"
    "repeatPeriodMn r \<le> 10080"
  using assms by (auto simp: rule_ok_def in_uint_def selects_day_def day_due_def)

lemma first_day_due:
  assumes "rule_ok r"
  shows "day_due (period r) ((today_wday off now + first_day off now r) mod 7)"
  using assms today_bounds [of off now]
  by (auto simp: first_day_def intro!: search_day_due dest: rule_okD)

lemma first_day_bounds: "0 \<le> first_day off now r \<and> first_day off now r \<le> 7"
  using search_day_bounds [of 1 "period r" "today_wday off now"] by (auto simp: first_day_def)

lemma first_due_is_due:
  assumes "rule_ok r"
  shows "due off r (first_due off now r)"
proof -
  have "day_due (period r) (((now + off) div 86400 + 4 + first_day off now r) mod 7)"
    using first_day_due [OF assms, of off now] by (simp add: today_wday_def mod_simps)
  then show ?thesis
    using due_at_day rule_okD [OF assms] by (simp add: first_due_def today_secs_def)
qed

lemma first_due_bounds:
  assumes "rule_ok r"
  shows "now \<le> first_due off now r" and "first_due off now r \<le> now + 7 * 86400"
proof -
  have "first_day off now r = 0 \<longrightarrow> today_secs off now \<le> exec_time r"
    using search_day_bounds [of 1 "period r" "today_wday off now"] by (auto simp: first_day_def)
  moreover have "first_day off now r = 7 \<longrightarrow> exec_time r \<le> today_secs off now"
  proof
    assume "first_day off now r = 7"
    then have "\<not> (day_due (period r) (today_wday off now) \<and> today_secs off now \<le> exec_time r)"
      and seven: "search_day (period r) (today_wday off now) 1 = 7"
      by (auto simp: first_day_def split: if_splits)
    moreover have "day_due (period r) (today_wday off now)"
      using search_day_due [of "period r" "today_wday off now"] seven rule_okD [OF assms]
        today_bounds [of off now] by simp
    ultimately show "exec_time r \<le> today_secs off now" by auto
  qed
  moreover have "first_day off now r = 0 \<or> 1 \<le> first_day off now r"
    and "first_day off now r \<le> 6 \<or> first_day off now r = 7"
    using first_day_bounds [of off now r] by auto
  ultimately show "now \<le> first_due off now r" and "first_due off now r \<le> now + 7 * 86400"
    using today_bounds(1,2) [of off now] rule_okD(1,2) [OF assms]
    unfolding first_due_def by auto
qed

lemma first_due_least:
  assumes ok: "rule_ok r" and "now \<le> t" and "t < first_due off now r"
  shows "\<not> due off r t"
proof
  assume "due off r t"
  then obtain n where t: "t = now + exec_time r - (now + off) mod 86400 + n * 86400"
    and n: "day_due (period r) (((now + off) div 86400 + 4 + n) mod 7)"
    by (rule due_day)
  from n have d: "day_due (period r) ((today_wday off now + n) mod 7)"
    by (simp add: today_wday_def mod_simps)
  from t have t': "t = now + exec_time r - today_secs off now + n * 86400"
    by (simp add: today_secs_def)
  have lt: "n < first_day off now r" using assms(3) t' by (simp add: first_due_def)
  have n0: "0 \<le> n" using assms(2) t' today_bounds(1) [of off now] rule_okD(2) [OF ok] by linarith
  have today: "n = 0 \<longrightarrow> today_secs off now \<le> exec_time r" using assms(2) t' by simp
  show False
  proof (cases "n = 0")
    case True
    with d today lt today_bounds [of off now] show False by (simp add: first_day_def)
  next
    case False
    with n0 lt have "1 \<le> n" and "n < search_day (period r) (today_wday off now) 1"
      by (auto simp: first_day_def split: if_splits)
    moreover from lt first_day_bounds [of off now r] have "n < 7" by auto
    ultimately show False using d search_day_skipped [of 1 n] by blast
  qed
qed

section \<open>The code against the specification\<close>

definition in_repeat_zone :: "int \<Rightarrow> int \<Rightarrow> Rule \<Rightarrow> bool" where
  "in_repeat_zone off now r \<longleftrightarrow>
     day_due (period r) (today_wday off now) \<and> exec_time r < today_secs off now
     \<and> nbRepeatsRequired r (today_secs off now) \<le> repeatTimes r"

lemma GetExecutionTime_cases:
  assumes "rule_ok r" and "enabled r"
  shows "GetExecutionTime (civil off) now r =
     (if in_repeat_zone off now r
      then now + exec_time r - today_secs off now
             + nbRepeatsRequired r (today_secs off now) * repeatPeriodMn r * 60
      else first_due off now r)"
  using assms rule_okD(4) [OF assms(1)]
  by (auto simp: GetExecutionTime_def Let_def nbSecs_civil wday_civil in_repeat_zone_def
      first_due_def first_day_def today_secs_def today_wday_def SECS_IN_DAY_def)

lemma no_repeat_zone: "rule_ok r \<Longrightarrow> repeatTimes r = 0 \<Longrightarrow> \<not> in_repeat_zone off now r"
  using nbRepeatsRequired_pos(1) [of r "today_secs off now"] today_bounds [of off now]
  by (auto simp: in_repeat_zone_def)

text \<open>A period of a positive number of minutes: the repeat is the first one after now.\<close>

lemma repeat_slot:
  assumes ok: "rule_ok r" and zone: "in_repeat_zone off now r" and p: "repeatPeriodMn r \<noteq> 0"
  defines "T \<equiv> now + exec_time r - today_secs off now
                 + nbRepeatsRequired r (today_secs off now) * repeatPeriodMn r * 60"
  shows "now < T" and "T \<le> now + repeatPeriodMn r * 60"
proof -
  define d where "d = today_secs off now - exec_time r"
  define P where "P = 60 * repeatPeriodMn r"
  have P: "0 < P" using p rule_okD(7) [OF ok] by (simp add: P_def)
  have "nbRepeatsRequired r (today_secs off now) = 1 + d div P"
    using nbRepeatsRequired_pos(2) [OF ok _ _ p] zone today_bounds [of off now]
    by (simp add: in_repeat_zone_def d_def P_def)
  then have "T = now - d + (P + d div P * P)"
    by (simp add: T_def d_def P_def algebra_simps)
  moreover have "d div P * P \<le> d" and "d < d div P * P + P"
    using P div_mult_mod_eq [of d P] pos_mod_bound [of P d] pos_mod_sign [of P d] by linarith+
  ultimately show "now < T" and "T \<le> now + repeatPeriodMn r * 60"
    by (auto simp: P_def)
qed

section \<open>Facts for the scheduler\<close>

lemma GetExecutionTime_due:
  assumes "rule_ok r" and "enabled r" and "due off r now"
  shows "GetExecutionTime (civil off) now r = now"
proof -
  have e: "exec_time r = today_secs off now" and d: "day_due (period r) (today_wday off now)"
    using assms(3) by (simp_all add: due_def today_secs_def today_wday_def)
  then show ?thesis
    using assms(1,2) by (simp add: GetExecutionTime_cases in_repeat_zone_def first_due_def first_day_def)
qed

lemma GetExecutionTime_lower:
  assumes "rule_ok r" and "enabled r"
  shows "now - 86400 \<le> GetExecutionTime (civil off) now r"
proof (cases "in_repeat_zone off now r")
  case True
  have "0 \<le> nbRepeatsRequired r (today_secs off now)" by (simp add: nbRepeatsRequired_def wrapu32_def)
  then have "0 \<le> nbRepeatsRequired r (today_secs off now) * repeatPeriodMn r"
    using rule_okD(7) [OF assms(1)] by simp
  with True show ?thesis
    using assms today_bounds(2) [of off now] rule_okD(1) [OF assms(1)]
    by (simp add: GetExecutionTime_cases)
next
  case False
  with first_due_bounds(1) [OF assms(1), of now off] assms show ?thesis
    by (simp add: GetExecutionTime_cases)
qed

lemma first_due_after:
  assumes "rule_ok r" and "\<not> due off r now"
  shows "now + 1 \<le> first_due off now r" and "due off r (now + 1) \<Longrightarrow> first_due off now r = now + 1"
proof -
  have "first_due off now r \<noteq> now" using first_due_is_due [OF assms(1), of off now] assms(2) by auto
  with first_due_bounds(1) [OF assms(1), of now off] show ge: "now + 1 \<le> first_due off now r" by simp
  assume "due off r (now + 1)"
  with first_due_least [OF assms(1), of now "now + 1" off] ge show "first_due off now r = now + 1"
    by fastforce
qed

section \<open>Properties\<close>

text \<open>C10: without repeats, \<open>GetExecutionTime\<close> is the first instant from now on at which the rule
  is due: on a day of its period, at its time of day. It is at most seven days away.\<close>

theorem execution_time_is_first_due:
  assumes "rule_ok r" and "enabled r" and "repeatTimes r = 0"
  shows "due off r (GetExecutionTime (civil off) now r)
    \<and> now \<le> GetExecutionTime (civil off) now r
    \<and> GetExecutionTime (civil off) now r \<le> now + 7 * 86400
    \<and> (\<forall>t. now \<le> t \<and> t < GetExecutionTime (civil off) now r \<longrightarrow> \<not> due off r t)"
proof -
  have "GetExecutionTime (civil off) now r = first_due off now r"
    using assms by (simp add: GetExecutionTime_cases no_repeat_zone)
  then show ?thesis
    using first_due_is_due [OF assms(1), of off now] first_due_bounds(1) [OF assms(1), of now off]
      first_due_bounds(2) [OF assms(1), of off now]
      first_due_least [OF assms(1), of now _ off] by auto
qed

text \<open>A rule for Saturdays at 10:00.\<close>

definition saturday_rule :: Rule where
  "saturday_rule = \<lparr>enabled = True, raddress = ''E5'', exec_time = 36000, period = SATURDAY,
     actionType = AT_ON, raction = '''', repeatTimes = 0, repeatPeriodMn = 60,
     nextExecTime = MAX_TIMET\<rparr>"

lemma saturday_rule_ok: "rule_ok saturday_rule"
  by (simp add: rule_ok_def saturday_rule_def selects_day_def day_due_def in_uint_def)

theorem execution_time_is_first_due_witness:
  "due 0 saturday_rule (GetExecutionTime (civil 0) 0 saturday_rule)
     \<and> GetExecutionTime (civil 0) 0 saturday_rule \<le> 7 * 86400"
  using execution_time_is_first_due [OF saturday_rule_ok, of 0 0] by (simp add: saturday_rule_def)

text \<open>Within the repeats of the current day, \<open>GetExecutionTime\<close> is a repeat slot of the rule
  (the time of day plus a number of repeat periods, at most \<open>repeatTimes\<close> of them) strictly
  after now, and the first one: less than one repeat period away.\<close>

lemma execution_time_is_next_repeat:
  assumes "rule_ok r" and "enabled r" and "repeatPeriodMn r \<noteq> 0" and "in_repeat_zone off now r"
  shows "\<exists>n. 1 \<le> n \<and> n \<le> repeatTimes r
    \<and> GetExecutionTime (civil off) now r
        = now + exec_time r - today_secs off now + n * repeatPeriodMn r * 60
    \<and> now < GetExecutionTime (civil off) now r
    \<and> GetExecutionTime (civil off) now r \<le> now + repeatPeriodMn r * 60"
proof -
  let ?n = "nbRepeatsRequired r (today_secs off now)"
  have "exec_time r < today_secs off now" and le: "?n \<le> repeatTimes r"
    using assms(4) by (auto simp: in_repeat_zone_def)
  then have "?n = 1 + (today_secs off now - exec_time r) div (60 * repeatPeriodMn r)"
    using nbRepeatsRequired_pos(2) [OF assms(1) _ _ assms(3)] today_bounds [of off now] by simp
  moreover have "0 \<le> (today_secs off now - exec_time r) div (60 * repeatPeriodMn r)"
    using \<open>exec_time r < today_secs off now\<close> assms(3) rule_okD(7) [OF assms(1)]
    by (simp add: pos_imp_zdiv_nonneg_iff)
  ultimately have "1 \<le> ?n" by simp
  with le show ?thesis
    using assms repeat_slot [OF assms(1,4,3)] by (intro exI [of _ ?n]) (simp add: GetExecutionTime_cases)
qed

end
