(* ===== verification/X10_Rule_Text.thy ===== *)
theory X10_Rule_Text
  imports X10_Rule
begin

text \<open>
  The text form of the rules (\<open>serialize\<close>, \<open>deserialize\<close> and their list versions) and the
  commands a rule stands for.
\<close>

section \<open>Round trips\<close>

text \<open>
  What the text form can carry: no separator in the two free texts, and numbers in the
  ranges of the conversions used to read them.
\<close>

definition rule_text_ok :: "Rule \<Rightarrow> bool" where
  "rule_text_ok r \<longleftrightarrow>
     CHR '','' \<notin> set (raddress r) \<and> CHR '','' \<notin> set (raction r)
     \<and> CHR ''|'' \<notin> set (raddress r) \<and> CHR ''|'' \<notin> set (raction r)
     \<and> in_int (exec_time r) \<and> in_int (period r) \<and> in_int (actionType r)
     \<and> in_uint (repeatTimes r) \<and> in_int (repeatPeriodMn r)"

text \<open>
  What comes back: the address in upper case, disabled if the address is not valid, and the
  next execution time of the object that was read into.
\<close>

definition normalise :: "qt_number \<Rightarrow> Rule \<Rightarrow> Rule \<Rightarrow> Rule" where
  "normalise q fresh r =
     r\<lparr>enabled := enabled r \<and> validateAddress q (to_upper (raddress r)),
       raddress := to_upper (raddress r),
       nextExecTime := nextExecTime fresh\<rparr>"

lemma separator_upper:
  "CHR '','' \<in> set (to_upper s) \<longleftrightarrow> CHR '','' \<in> set s"
  "CHR ''|'' \<in> set (to_upper s) \<longleftrightarrow> CHR ''|'' \<in> set s"
  by (auto simp: to_upper_def image_iff upper_char_keeps eq_commute [of _ "upper_char _"])

lemma dec_int_separators [simp]: "CHR '','' \<notin> set (dec_int i)" "CHR ''|'' \<notin> set (dec_int i)"
  by (simp_all add: dec_int_avoids)

lemma serialize_fields:
  assumes "rule_text_ok r"
  shows "split_on CHR '','' (serialize r) =
    [if enabled r then ''1'' else ''0'', to_upper (raddress r), dec_int (exec_time r),
     dec_int (period r), dec_int (actionType r), raction r, dec_int (repeatTimes r),
     dec_int (repeatPeriodMn r)]"
  using assms
  by (simp add: serialize_def rule_text_ok_def split_on_sep split_on_no_sep separator_upper)

lemma deserialize_serialize:
  assumes "qt_number_ok q" and "rule_text_ok r"
  shows "deserialize q (serialize r) fresh = (True, normalise q fresh r)"
  using assms
  by (cases fresh, cases r)
     (auto simp: deserialize_def serialize_fields normalise_def isValid_def int_or0_def Let_def
       qt_number_okD rule_text_ok_def)

lemma serialize_part:
  assumes "rule_text_ok r"
  shows "CHR ''|'' \<notin> set (serialize r)" and "serialize r \<noteq> []"
  using assms by (auto simp: serialize_def rule_text_ok_def separator_upper)

lemma parse_rules_serialized:
  assumes "qt_number_ok q" and "list_all rule_text_ok rs"
  shows "parse_rules q fresh (map serialize rs) = map (normalise q fresh) rs"
  using assms(2) by (induction rs) (simp_all add: deserialize_serialize [OF assms(1)])

lemma deserializeRules_serializedRules:
  assumes "qt_number_ok q" and "list_all rule_text_ok rs"
  shows "deserializeRules q fresh (serializedRules rs) = map (normalise q fresh) rs"
proof -
  have "split_skip CHR ''|'' (concat (map (\<lambda>p. p @ [CHR ''|'']) (map serialize rs))) = map serialize rs"
    using assms(2) by (intro split_skip_terminated) (auto simp: list_all_iff serialize_part)
  then have "split_skip CHR ''|'' (serializedRules rs) = map serialize rs"
    by (simp add: serializedRules_def comp_def)
  with parse_rules_serialized [OF assms] show ?thesis by (simp add: deserializeRules_def)
qed

text \<open>Reading rejects a text that has not eight fields, and leaves the object alone.\<close>

lemma deserialize_rejects:
  "fst (deserialize q s r) \<longleftrightarrow> length (split_on CHR '','' s) = 8"
  "length (split_on CHR '','' s) \<noteq> 8 \<Longrightarrow> deserialize q s r = (False, r)"
  by (auto simp: deserialize_def Let_def)

text \<open>Whatever is read, an enabled rule has a valid address and numbers in range.\<close>

lemma int_or0_toInt: "qt_number_ok q \<Longrightarrow> in_int (int_or0 (toInt q s))"
  by (auto simp: int_or0_def in_int_def INT_MIN_def INT_MAX_def split: option.splits
      dest: qt_number_okD(3) [unfolded in_int_def INT_MIN_def INT_MAX_def])

lemma int_or0_toUInt: "qt_number_ok q \<Longrightarrow> in_uint (int_or0 (toUInt q s))"
  by (auto simp: int_or0_def in_uint_def split: option.splits
      dest: qt_number_okD(4) [unfolded in_uint_def])

lemma deserialize_enabled_valid:
  "deserialize q s r0 = (True, r) \<Longrightarrow> enabled r \<Longrightarrow> validateAddress q (raddress r)"
  by (auto simp: deserialize_def Let_def isValid_def split: if_splits)

lemma deserialize_ranges:
  assumes "qt_number_ok q" and "deserialize q s r0 = (True, r)"
  shows "in_int (exec_time r) \<and> in_int (period r) \<and> in_int (actionType r)
           \<and> in_uint (repeatTimes r) \<and> in_int (repeatPeriodMn r)"
  using assms
  by (auto simp: deserialize_def Let_def int_or0_toInt int_or0_toUInt split: if_splits)

lemma parse_rules_in:
  "r \<in> set (parse_rules q fresh ss) \<Longrightarrow> \<exists>s \<in> set ss. deserialize q s fresh = (True, r)"
  by (induction ss) (auto split: prod.splits bool.splits)

section \<open>Commands\<close>

lemma rule_addresses_valid:
  "list_all (isValidAddress q) acc \<Longrightarrow> list_all (isValidAddress q) (rule_addresses q acc as)"
  by (induction as arbitrary: acc) (auto simp: isValidAddress_def sourceToAddress_def)

lemma rule_addresses_eq:
  "rule_addresses q acc as =
     (if ''*'' \<in> set as then [''*''] else acc @ filter (isValidAddress q) as)"
  by (induction as arbitrary: acc) auto

lemma send_commands_ok:
  "c \<in> set (send_commands now ch u as) \<Longrightarrow>
     channel c = ch \<and> cunit c = u \<and> ctype c \<noteq> CMD_SET \<and> cvalue c = -1"
proof (induction as)
  case Nil
  then show ?case by simp
next
  case (Cons a as)
  have noset: "t \<noteq> CMD_SET" if "cmd_of_char (a ! 0) = Some t" and "a ! 0 \<noteq> CHR ''=''" for t
    using that by (simp add: cmd_of_char_def split: if_splits)
  show ?case
  proof (cases "a ! 0 \<noteq> CHR ''='' \<and> isValidCommand (QV_String a)")
    case True
    with Cons noset show ?thesis by (cases "cmd_of_char (a ! 0)") auto
  next
    case False
    then have "send_commands now ch u (a # as) = send_commands now ch u as"
      by (simp only: send_commands.simps if_False append_Nil)
    with Cons.prems have "c \<in> set (send_commands now ch u as)" by (simp only:)
    then show ?thesis by (rule Cons.IH)
  qed
qed

lemma address_commands_ok:
  assumes "c \<in> set (address_commands q now r ad)"
  shows "request_ok c"
proof -
  obtain ok ch u where split: "sourceToAddress q ad (CHR 0x00) 0 = (ok, ch, u)"
    by (rule prod_cases3)
  with assms have addr: "sourceToAddress q ad (CHR 0x00) 0 = (True, ch, u)"
    by (cases ok) (simp_all add: address_commands_def)
  note range = sourceToAddress_range [OF addr]
  have "ctype c = CMD_SET \<longrightarrow> level_ok (cvalue c)" and "channel c = ch \<and> cunit c = u"
    using assms addr
    by (auto simp: address_commands_def isValidValue_def level_ok_def
        split: if_splits option.splits dest: send_commands_ok)
  with range show ?thesis by (auto simp: request_ok_def)
qed

lemma getCommands_ok: "c \<in> set (getCommands q now r) \<Longrightarrow> request_ok c"
  by (auto simp: getCommands_def dest: address_commands_ok)

text \<open>One command per address where the rule turns on or off.\<close>

lemma getCommands_switch:
  assumes "actionType r = AT_ON \<or> actionType r = AT_OFF" and "validateAddress q (raddress r)"
    and "''*'' \<notin> set (split_skip CHR '' '' (raddress r))"
  shows "map (\<lambda>c. (channel c, cunit c)) (getCommands q now r) =
           map (\<lambda>s. snd (sourceToAddress q s (CHR 0x00) 0)) (split_skip CHR '' '' (raddress r))"
    and "c \<in> set (getCommands q now r) \<Longrightarrow>
           ctype c = (if actionType r = AT_ON then CMD_ON else CMD_OFF)"
proof -
  let ?as = "split_skip CHR '' '' (raddress r)"
  have valid: "list_all (isValidAddress q) ?as"
    using assms(2) by (auto simp: validateAddress_def Let_def split: if_splits)
  then have "rule_addresses q [] ?as = ?as"
    using assms(3) by (simp add: rule_addresses_eq list_all_iff filter_id_conv)
  then have cmds: "getCommands q now r = concat (map (address_commands q now r) ?as)"
    by (simp add: getCommands_def)
  have one: "address_commands q now r s =
      [COMMAND_new now (fst (snd (sourceToAddress q s (CHR 0x00) 0)))
         (snd (snd (sourceToAddress q s (CHR 0x00) 0)))
         (if actionType r = AT_ON then CMD_ON else CMD_OFF) (-1)]" if "isValidAddress q s" for s
    using assms(1) that
    by (auto simp: address_commands_def isValidAddress_def split: prod.splits bool.splits)
  have each: "list_all (isValidAddress q) ss \<Longrightarrow>
      map (\<lambda>c. (channel c, cunit c)) (concat (map (address_commands q now r) ss)) =
        map (\<lambda>s. snd (sourceToAddress q s (CHR 0x00) 0)) ss" for ss
    by (induction ss) (simp_all add: one)
  show "map (\<lambda>c. (channel c, cunit c)) (getCommands q now r) =
          map (\<lambda>s. snd (sourceToAddress q s (CHR 0x00) 0)) ?as"
    unfolding cmds by (rule each [OF valid])
  show "c \<in> set (getCommands q now r) \<Longrightarrow>
          ctype c = (if actionType r = AT_ON then CMD_ON else CMD_OFF)"
    unfolding cmds using valid by (auto simp: one list_all_iff)
qed

section \<open>Properties\<close>


definition text_rule :: Rule where
  "text_rule = \<lparr>enabled = True, raddress = ''E5'', exec_time = 36000, period = 64, actionType = 1,
     raction = '''', repeatTimes = 2, repeatPeriodMn = 60, nextExecTime = 0\<rparr>"




text \<open>Every command a rule stands for is one the queue manager accepts from its other clients:
  a house letter or the star, a unit from 0 to 16, and a level in range where it sets one. A rule
  that switches on or off gives one such command per address it names.\<close>

lemma rule_commands_are_requests:
  "(\<forall>c \<in> set (getCommands q now r). request_ok c) \<and>
   ((actionType r = AT_ON \<or> actionType r = AT_OFF) \<and> validateAddress q (raddress r) \<and>
      ''*'' \<notin> set (split_skip CHR '' '' (raddress r)) \<longrightarrow>
    map (\<lambda>c. (channel c, cunit c)) (getCommands q now r) =
      map (\<lambda>s. snd (sourceToAddress q s (CHR 0x00) 0)) (split_skip CHR '' '' (raddress r)))"
  using getCommands_ok getCommands_switch(1) by blast

end
