(* ===== verification/X10_Rules_Manager.thy ===== *)
theory X10_Rules_Manager
  imports X10_Rule_Time X10_Rule_Text
begin

text \<open>
  \<open>controller/service/rules-manager.h\<close> and \<open>rules-manager.cpp\<close>: the rules of the
  service, the set of rules that are due next and the single-shot timer that waits for them.
  The pointers of \<open>m_nextRuleSet\<close> into \<open>m_listRules\<close> are indices; the timer is the
  interval it was started with, or \<open>None\<close> when it is not running. Every call of \<open>time\<close> is
  visible: \<open>clk 0\<close> is the manager's own, \<open>clk (Suc i)\<close> the one \<open>GetExecutionTime\<close> makes
  for rule \<open>i\<close>.
\<close>

record RuleManager =
  listRules :: "Rule list"
  rtimer :: "int option"
  lowestTime :: int
  nextRuleSet :: "nat list"

definition PERIOD_MS :: int where "PERIOD_MS = 1800000"

definition RuleManager_new :: RuleManager where
  "RuleManager_new = \<lparr>listRules = [], rtimer = None, lowestTime = MAX_TIMET, nextRuleSet = []\<rparr>"

definition rm_Find :: "RuleManager \<Rightarrow> Rule \<Rightarrow> nat option" where
  "rm_Find m r =
     (case filter (\<lambda>i. Rule_eq (listRules m ! i) r) [0..<length (listRules m)] of
        [] \<Rightarrow> None | i # _ \<Rightarrow> Some i)"

definition rm_Exists :: "RuleManager \<Rightarrow> Rule \<Rightarrow> bool" where
  "rm_Exists m r \<longleftrightarrow> rm_Find m r \<noteq> None"

definition rm_Clear :: "RuleManager \<Rightarrow> RuleManager" where
  "rm_Clear m = m\<lparr>listRules := [], nextRuleSet := []\<rparr>"

text \<open>The loop of \<open>updateNextExecution\<close> over the rules from index \<open>i\<close> on.\<close>

fun scan_rules ::
    "(int \<Rightarrow> tm) \<Rightarrow> (nat \<Rightarrow> int) \<Rightarrow> nat \<Rightarrow> Rule list \<Rightarrow> int \<Rightarrow> nat list \<Rightarrow> int \<times> nat list" where
  "scan_rules lt clk i [] low next = (low, next)"
| "scan_rules lt clk i (r # rs) low next =
     (if \<not> enabled r then scan_rules lt clk (Suc i) rs low next
      else
        let ruleTime = GetExecutionTime lt (clk (Suc i)) r in
        if ruleTime > low then scan_rules lt clk (Suc i) rs low next
        else if ruleTime < low then scan_rules lt clk (Suc i) rs ruleTime [i]
        else scan_rules lt clk (Suc i) rs low (next @ [i]))"

definition updateNextExecution :: "(int \<Rightarrow> tm) \<Rightarrow> (nat \<Rightarrow> int) \<Rightarrow> RuleManager \<Rightarrow> RuleManager" where
  "updateNextExecution lt clk m =
     (let (low, next) = scan_rules lt clk 0 (listRules m) MAX_TIMET [];
          nbSecsNow = wrap32 (low - clk 0);
          timer = (if low \<noteq> MAX_TIMET
                   then if nbSecsNow < 0 then None
                        else if nbSecsNow > 0 then Some (min (wrap32 (nbSecsNow * 1000)) PERIOD_MS)
                        else None
                   else None)
      in m\<lparr>nextRuleSet := next, lowestTime := low, rtimer := timer\<rparr>)"

text \<open>
  The timeout of the timer at time \<open>now\<close>: the rules handed to \<open>RuleExecute\<close>, in order, and
  the new state. A single-shot timer that fired is no longer active.
\<close>

definition onEndTimerRuleNeedExec ::
    "(int \<Rightarrow> tm) \<Rightarrow> int \<Rightarrow> (nat \<Rightarrow> int) \<Rightarrow> RuleManager \<Rightarrow> Rule list \<times> RuleManager" where
  "onEndTimerRuleNeedExec lt now clk m0 =
     (let m = m0\<lparr>rtimer := None\<rparr>;
          nbSecsNow = wrap32 (lowestTime m - now)
      in if nbSecsNow > 1
         then ([], m\<lparr>rtimer := Some (min (wrap32 (nbSecsNow * 1000)) PERIOD_MS)\<rparr>)
         else (filter enabled (map (\<lambda>i. listRules m ! i) (nextRuleSet m)),
               updateNextExecution lt clk m))"

text \<open>
  \<open>Load\<close> on the lines of the rules file, \<open>None\<close> when it cannot be opened; \<open>Save\<close> gives the
  text it writes.
\<close>

definition rm_Load ::
    "qt_number \<Rightarrow> (int \<Rightarrow> tm) \<Rightarrow> (nat \<Rightarrow> int) \<Rightarrow> string list option \<Rightarrow> RuleManager \<Rightarrow> bool \<times> RuleManager" where
  "rm_Load q lt clk file m =
     (let m = rm_Clear m in
      case file of
        None \<Rightarrow> (False, m)
      | Some lines \<Rightarrow>
          (True, updateNextExecution lt clk
                   (m\<lparr>listRules := parse_rules q (Rule_new lt (clk 0)) lines\<rparr>)))"

definition rm_GetRules :: "RuleManager \<Rightarrow> string" where
  "rm_GetRules m = serializedRules (listRules m)"

definition rm_Deserialize ::
    "qt_number \<Rightarrow> (int \<Rightarrow> tm) \<Rightarrow> (nat \<Rightarrow> int) \<Rightarrow> string \<Rightarrow> RuleManager \<Rightarrow> RuleManager" where
  "rm_Deserialize q lt clk rulesConfig m =
     updateNextExecution lt clk
       ((rm_Clear m)\<lparr>listRules := deserializeRules q (Rule_new lt (clk 0)) rulesConfig\<rparr>)"

definition rm_Save :: "RuleManager \<Rightarrow> string" where
  "rm_Save m = concat (map (\<lambda>r. serialize r @ [CHR 0x0A]) (listRules m))"

definition split_seconds :: "int \<Rightarrow> int \<times> int \<times> int \<times> int" where
  "split_seconds psec =
     (let days = c_div psec (3600 * 24);
          rest = psec - days * (3600 * 24);
          hours = c_div rest 3600;
          rest = rest - hours * 3600;
          mins = c_div rest 60;
          secs = rest - mins * 60
      in (days, hours, mins, secs))"

definition SecondsToString :: "int \<Rightarrow> string" where
  "SecondsToString psec =
     (let (days, hours, mins, secs) = split_seconds psec in
      (if days \<noteq> 0 then dec_int days @ ''d'' else '''')
      @ (if days \<noteq> 0 \<or> hours \<noteq> 0 then dec_int hours @ ''h'' else '''')
      @ (if days \<noteq> 0 \<or> hours \<noteq> 0 \<or> mins \<noteq> 0 then dec_int mins @ ''mn'' else '''')
      @ dec_int secs @ ''s'')"

section \<open>The scan finds the earliest rules\<close>

text \<open>Execution times of the enabled rules, by index.\<close>

definition rule_times :: "(int \<Rightarrow> tm) \<Rightarrow> (nat \<Rightarrow> int) \<Rightarrow> nat \<Rightarrow> Rule list \<Rightarrow> (nat \<times> int) list" where
  "rule_times lt clk i rs =
     map (\<lambda>(j, r). (j, GetExecutionTime lt (clk (Suc j)) r))
       (filter (\<lambda>(j, r). enabled r) (enumerate i rs))"

lemma rule_times_Nil [simp]: "rule_times lt clk i [] = []"
  by (simp add: rule_times_def)

lemma rule_times_Cons:
  "rule_times lt clk i (r # rs) =
     (if enabled r then [(i, GetExecutionTime lt (clk (Suc i)) r)] else [])
     @ rule_times lt clk (Suc i) rs"
  by (simp add: rule_times_def)

definition earliest :: "int \<Rightarrow> (nat \<times> int) list \<Rightarrow> int" where
  "earliest low ts = fold min (map snd ts) low"

lemma earliest_Cons: "earliest low ((j, t) # ts) = earliest (min t low) ts"
  by (simp add: earliest_def)

lemma earliest_le: "earliest low ts \<le> low"
proof (induction ts arbitrary: low)
  case Nil
  then show ?case by (simp add: earliest_def)
next
  case (Cons p ts)
  have "earliest (min (snd p) low) ts \<le> min (snd p) low" by (rule Cons.IH)
  then show ?case by (cases p) (simp add: earliest_def)
qed

lemma earliest_min: "earliest low ts = Min (insert low (set (map snd ts)))"
proof (induction ts arbitrary: low)
  case Nil
  then show ?case by (simp add: earliest_def)
next
  case (Cons p ts)
  obtain j t where p: "p = (j, t)" by (cases p)
  have "Min (insert (min t low) (set (map snd ts))) = Min (insert low (insert t (set (map snd ts))))"
    by (cases "set (map snd ts) = {}") (auto simp: Min_insert ac_simps)
  with Cons show ?case by (simp add: p earliest_Cons)
qed

lemma scan_rules_eq:
  "scan_rules lt clk i rs low next =
     (let ts = rule_times lt clk i rs; e = earliest low ts
      in (e, (if e < low then [] else next) @ map fst (filter (\<lambda>(j, t). t = e) ts)))"
proof (induction rs arbitrary: i low "next")
  case Nil
  then show ?case by (simp add: earliest_def)
next
  case (Cons r rs)
  define t where "t = GetExecutionTime lt (clk (Suc i)) r"
  define ts where "ts = rule_times lt clk (Suc i) rs"
  show ?case
  proof (cases "enabled r")
    case False
    then show ?thesis by (simp add: Cons.IH rule_times_Cons)
  next
    case True
    have e: "earliest low ((i, t) # ts) = earliest (min t low) ts" by (rule earliest_Cons)
    have le: "earliest x ts \<le> x" for x by (rule earliest_le)
    consider "t > low" | "t < low" | "t = low" by linarith
    then show ?thesis
    proof cases
      case 1
      then have "min t low = low" and "earliest low ts \<noteq> t" using le [of low] by auto
      with 1 True show ?thesis
        by (simp add: Cons.IH rule_times_Cons Let_def e flip: t_def ts_def)
    next
      case 2
      then have "min t low = t" and "earliest t ts < low" using le [of t] by auto
      with 2 True le [of t] show ?thesis
        by (auto simp: Cons.IH rule_times_Cons Let_def e simp flip: t_def ts_def)
    next
      case 3
      with e have e3: "earliest low ((i, low) # ts) = earliest low ts" by simp
      from 3 True le [of low] show ?thesis
        by (auto simp: Cons.IH rule_times_Cons Let_def e3 simp flip: t_def ts_def)
    qed
  qed
qed

lemma updateNextExecution_sel:
  "listRules (updateNextExecution lt clk m) = listRules m"
  "lowestTime (updateNextExecution lt clk m)
     = earliest MAX_TIMET (rule_times lt clk 0 (listRules m))"
  "nextRuleSet (updateNextExecution lt clk m)
     = map fst (filter (\<lambda>(j, t). t = earliest MAX_TIMET (rule_times lt clk 0 (listRules m)))
                 (rule_times lt clk 0 (listRules m)))"
  by (simp_all add: updateNextExecution_def scan_rules_eq Let_def split: prod.splits)

lemma updateNextExecution_timer:
  "rtimer (updateNextExecution lt clk m) =
     (let low = earliest MAX_TIMET (rule_times lt clk 0 (listRules m));
          nbSecsNow = wrap32 (low - clk 0)
      in if low \<noteq> MAX_TIMET \<and> nbSecsNow > 0
         then Some (min (wrap32 (nbSecsNow * 1000)) PERIOD_MS) else None)"
  by (simp add: updateNextExecution_def scan_rules_eq Let_def split: prod.splits)

lemma set_rule_times:
  "(j, t) \<in> set (rule_times lt clk 0 rs) \<longleftrightarrow>
     j < length rs \<and> enabled (rs ! j) \<and> t = GetExecutionTime lt (clk (Suc j)) (rs ! j)"
  by (auto simp: rule_times_def in_set_enumerate_eq image_iff)

section \<open>The pointers stay inside the list\<close>

definition next_ok :: "RuleManager \<Rightarrow> bool" where
  "next_ok m \<longleftrightarrow> list_all (\<lambda>i. i < length (listRules m) \<and> enabled (listRules m ! i)) (nextRuleSet m)"

lemma next_ok_new [x10_inv]: "next_ok RuleManager_new"
  by (simp add: next_ok_def RuleManager_new_def)

lemma next_ok_update [x10_inv]: "next_ok (updateNextExecution lt clk m)"
  by (auto simp: next_ok_def updateNextExecution_sel list_all_iff set_rule_times)

lemma next_ok_clear [x10_inv]: "next_ok (rm_Clear m)"
  by (simp add: next_ok_def rm_Clear_def)

lemma next_ok_load [x10_inv]: "next_ok (snd (rm_Load q lt clk file m))"
  by (auto simp: rm_Load_def Let_def next_ok_update next_ok_clear split: option.splits)

lemma next_ok_deserialize [x10_inv]: "next_ok (rm_Deserialize q lt clk s m)"
  by (simp add: rm_Deserialize_def next_ok_update)

lemma next_ok_end [x10_inv]: "next_ok m \<Longrightarrow> next_ok (snd (onEndTimerRuleNeedExec lt now clk m))"
  by (auto simp: onEndTimerRuleNeedExec_def Let_def next_ok_update) (simp add: next_ok_def)

text \<open>With valid pointers, the test of \<open>enabled\<close> before \<open>RuleExecute\<close> always passes.\<close>

lemma executed_rules:
  assumes "next_ok m" and "wrap32 (lowestTime m - now) \<le> 1"
  shows "fst (onEndTimerRuleNeedExec lt now clk m) = map (\<lambda>i. listRules m ! i) (nextRuleSet m)"
  using assms
  by (auto simp: onEndTimerRuleNeedExec_def Let_def next_ok_def list_all_iff filter_id_conv)

lemma split_seconds_eq:
  assumes "0 \<le> p"
  shows "split_seconds p = (p div 86400, (p mod 86400) div 3600, (p mod 3600) div 60, p mod 60)"
proof -
  have 1: "c_div p 86400 = p div 86400" using assms by (simp add: c_div_nonneg)
  have 2: "p - p div 86400 * 86400 = p mod 86400" by (simp add: minus_div_mult_eq_mod)
  have 3: "c_div (p mod 86400) 3600 = p mod 86400 div 3600" by (simp add: c_div_nonneg)
  have 4: "p mod 86400 - p mod 86400 div 3600 * 3600 = p mod 3600"
    by (simp add: minus_div_mult_eq_mod mod_mod_cancel)
  have 5: "c_div (p mod 3600) 60 = p mod 3600 div 60" by (simp add: c_div_nonneg)
  have 6: "p mod 3600 - p mod 3600 div 60 * 60 = p mod 60"
    by (simp add: minus_div_mult_eq_mod mod_mod_cancel)
  show ?thesis
    unfolding split_seconds_def Let_def by (simp add: 1 2 3 4 5 6)
qed

lemma rule_times_sorted:
  "sorted_wrt (<) (map fst (rule_times lt clk i rs)) \<and> (\<forall>j \<in> fst ` set (rule_times lt clk i rs). i \<le> j)"
proof (induction rs arbitrary: i)
  case Nil
  then show ?case by simp
next
  case (Cons r rs)
  from Cons.IH [of "Suc i"] show ?case by (fastforce simp: rule_times_Cons)
qed

section \<open>Properties\<close>

text \<open>\<open>updateNextExecution\<close> records the earliest execution time of the enabled rules, with all
  the rules that have it and no other, in the order of the list; no pointer is invalid.\<close>

lemma scheduled_rules_are_earliest:
  "(let m' = updateNextExecution lt clk m;
        time = (\<lambda>i. GetExecutionTime lt (clk (Suc i)) (listRules m ! i));
        live = (\<lambda>i. i < length (listRules m) \<and> enabled (listRules m ! i))
    in listRules m' = listRules m
     \<and> lowestTime m' = Min (insert MAX_TIMET {time i | i. live i})
     \<and> set (nextRuleSet m') = {i. live i \<and> time i = lowestTime m'}
     \<and> sorted_wrt (<) (nextRuleSet m'))"
proof -
  let ?ts = "rule_times lt clk 0 (listRules m)"
  have t: "set (map snd ?ts) = {GetExecutionTime lt (clk (Suc i)) (listRules m ! i) | i.
      i < length (listRules m) \<and> enabled (listRules m ! i)}"
  proof -
    have "set (map snd ?ts) = {t. \<exists>j. (j, t) \<in> set ?ts}" by force
    then show ?thesis by (auto simp: set_rule_times)
  qed
  have "sorted_wrt (<) (map fst ?ts)" using rule_times_sorted by blast
  then have sorted: "sorted_wrt (<) (map fst (filter P ?ts))" for P
    by (simp add: sorted_wrt_map sorted_wrt_filter)
  have next_set: "set (map fst (filter (\<lambda>(j, t). t = e) ?ts)) =
      {i. (i < length (listRules m) \<and> enabled (listRules m ! i))
          \<and> GetExecutionTime lt (clk (Suc i)) (listRules m ! i) = e}" for e
  proof -
    have "set (map fst (filter (\<lambda>(j, t). t = e) ?ts)) = {i. (i, e) \<in> set ?ts}" by force
    then show ?thesis by (auto simp: set_rule_times)
  qed
  show ?thesis
    unfolding Let_def updateNextExecution_sel next_set
    by (intro conjI refl sorted) (simp only: earliest_min t)
qed

text \<open>The timer is started with an interval that is positive and at most half an hour, and it is
  started exactly when some rule is due later than now. (Times within the range of an \<open>int\<close> of
  seconds, of which the code keeps the milliseconds.)\<close>

lemma timer_interval_bounds:
  assumes "lowestTime (updateNextExecution lt clk m) \<noteq> MAX_TIMET"
    and "lowestTime (updateNextExecution lt clk m) - clk 0 \<le> 2000000"
    and "-2000000 \<le> lowestTime (updateNextExecution lt clk m) - clk 0"
  shows "(case rtimer (updateNextExecution lt clk m) of
            None \<Rightarrow> lowestTime (updateNextExecution lt clk m) \<le> clk 0
          | Some ms \<Rightarrow> 0 < ms \<and> ms \<le> PERIOD_MS \<and>
                      ms \<le> 1000 * (lowestTime (updateNextExecution lt clk m) - clk 0))"
proof -
  let ?d = "lowestTime (updateNextExecution lt clk m) - clk 0"
  have w: "wrap32 ?d = ?d" "wrap32 (?d * 1000) = ?d * 1000"
    using assms(2,3) by (auto intro!: wrap32_id simp: in_int_def INT_MIN_def INT_MAX_def)
  have "rtimer (updateNextExecution lt clk m) = (if ?d > 0 then Some (min (?d * 1000) PERIOD_MS) else None)"
    using assms(1) w by (simp add: updateNextExecution_timer updateNextExecution_sel Let_def)
  then show ?thesis by (auto simp: PERIOD_MS_def)
qed

definition one_rule :: "Rule \<Rightarrow> RuleManager" where
  "one_rule r = RuleManager_new\<lparr>listRules := [r]\<rparr>"

lemma one_rule_update:
  "enabled r \<Longrightarrow> GetExecutionTime lt (clk 1) r < MAX_TIMET \<Longrightarrow>
     lowestTime (updateNextExecution lt clk (one_rule r)) = GetExecutionTime lt (clk 1) r"
  by (simp add: updateNextExecution_sel one_rule_def RuleManager_new_def rule_times_Cons earliest_def)

text \<open>The epoch was a Thursday; the rule for Saturdays at 10:00 is due after 208800 seconds.\<close>

lemma saturday_times:
  "GetExecutionTime (civil 0) 0 saturday_rule = 208800"
  "GetExecutionTime (civil 0) 208799 saturday_rule = 208800"
  "GetExecutionTime (civil 0) 208800 saturday_rule = 208800"
  by (simp_all add: GetExecutionTime_def saturday_rule_def civil_def nbSecs_def day_due_def
      search_day.simps SECS_IN_DAY_def Let_def)


definition waiting_manager :: RuleManager where
  "waiting_manager = updateNextExecution (civil 0) (\<lambda>_. 0) (one_rule saturday_rule)"

lemma waiting_manager_sel:
  "listRules waiting_manager = [saturday_rule]" "lowestTime waiting_manager = 208800"
  "nextRuleSet waiting_manager = [0]" "next_ok waiting_manager"
proof -
  show "listRules waiting_manager = [saturday_rule]"
    by (simp add: waiting_manager_def updateNextExecution_sel one_rule_def)
  show "lowestTime waiting_manager = 208800"
    using one_rule_update [of saturday_rule "civil 0" "\<lambda>_. 0"] saturday_times(1)
    by (simp add: waiting_manager_def saturday_rule_def MAX_TIMET_def)
  show "nextRuleSet waiting_manager = [0]"
    using saturday_times(1)
    by (simp add: waiting_manager_def updateNextExecution_sel one_rule_def rule_times_Cons earliest_def
        MAX_TIMET_def) (simp add: saturday_rule_def)
  show "next_ok waiting_manager" unfolding waiting_manager_def by (rule next_ok_update)
qed

lemma saturday_due: "due 0 saturday_rule 208800"
  by (simp add: due_def saturday_rule_def day_due_def)


text \<open>A timer that ends one second early is "close enough" for the rule to be executed, and the
  rule is then scheduled again for the second that follows: it is executed twice.\<close>

lemma early_timer_schedules_again:
  assumes "\<forall>r \<in> set (listRules m). enabled r \<longrightarrow> rule_ok r \<and> repeatTimes r = 0"
    and "r \<in> set (listRules m)" and "enabled r" and "due off r (now + 1)"
    and "lowestTime m = now + 1" and "next_ok m" and "0 \<le> now" and "now + 1 < MAX_TIMET"
    and "\<forall>r \<in> set (listRules m). enabled r \<longrightarrow> \<not> due off r now"
  shows "(let (rs, m') = onEndTimerRuleNeedExec (civil off) now (\<lambda>_. now) m
     in rs = map ((!) (listRules m)) (nextRuleSet m) \<and> lowestTime m' = now + 1 \<and> rtimer m' = Some 1000
      \<and> (\<exists>i \<in> set (nextRuleSet m'). listRules m' ! i = r))"
proof -
  let ?ts = "rule_times (civil off) (\<lambda>_. now) 0 (listRules m)"
  have w0: "wrap32 (lowestTime m - now) = 1" using assms(5) by (simp add: wrap32_def)
  have time: "now + 1 \<le> GetExecutionTime (civil off) now x
      \<and> (due off x (now + 1) \<longrightarrow> GetExecutionTime (civil off) now x = now + 1)"
    if "x \<in> set (listRules m)" "enabled x" for x
    using first_due_after [of x off now] that assms(1,9) by (simp add: GetExecutionTime_cases no_repeat_zone)
  obtain i where i: "i < length (listRules m)" "listRules m ! i = r"
    using assms(2) by (auto simp: in_set_conv_nth)
  have mem: "(i, now + 1) \<in> set ?ts"
    using i assms(3) time [OF assms(2,3)] assms(4) by (simp add: set_rule_times)
  have "now + 1 \<in> set (map snd ?ts)" using mem by force
  moreover have "now + 1 \<le> x" if "x \<in> insert MAX_TIMET (set (map snd ?ts))" for x
    using that time assms(8) by (auto simp: set_rule_times)
  ultimately have low: "earliest MAX_TIMET ?ts = now + 1"
    unfolding earliest_min by (intro Min_eqI) auto
  have upd: "lowestTime (updateNextExecution (civil off) (\<lambda>_. now) (m\<lparr>rtimer := None\<rparr>)) = now + 1"
    "rtimer (updateNextExecution (civil off) (\<lambda>_. now) (m\<lparr>rtimer := None\<rparr>)) = Some 1000"
    "i \<in> set (nextRuleSet (updateNextExecution (civil off) (\<lambda>_. now) (m\<lparr>rtimer := None\<rparr>)))"
    using low mem assms(8)
    by (auto simp: updateNextExecution_sel updateNextExecution_timer Let_def wrap32_def PERIOD_MS_def
        image_iff intro!: bexI [of _ "(i, now + 1)"])
  have "listRules (updateNextExecution (civil off) (\<lambda>_. now) (m\<lparr>rtimer := None\<rparr>)) ! i = r"
    using i by (simp add: updateNextExecution_sel)
  with upd executed_rules [OF assms(6), of now "civil off" "\<lambda>_. now"] w0 show ?thesis
    by (auto simp: onEndTimerRuleNeedExec_def Let_def)
qed

end
