(* ===== verification/X10_Config.thy ===== *)
theory X10_Config
  imports X10_Command
begin

text \<open>
  \<open>common/config.h\<close>: the parameters of the service and of its clients. \<open>QSettings\<close> is a
  class of Qt: a settings store is a function from a file location and a key to the text of
  the value, \<open>None\<close> when the key is not in the file.
\<close>

type_synonym qsettings = "string \<Rightarrow> string \<Rightarrow> string option"

definition configLoc :: string where "configLoc = ''/etc/x10/x10.conf''"
definition defaultRulesLoc :: string where "defaultRulesLoc = ''/var/spool/x10/rules.conf''"
definition defaultDataConfLoc :: string where "defaultDataConfLoc = ''/var/spool/x10/data.conf''"

record Config =
  USE_LOCAL_SYSTEM_BUS :: bool
  DBUS_ADDRESS :: string
  CONTROLLER_HOST :: string
  CONTROLLER_PORT :: int
  MAX_ERRORS :: int
  RELOAD_ON_ERROR :: bool
  RULES_LOCATION :: string
  DATA_LOCATION :: string
  SMART_QUEUE :: bool

definition Config_eq :: "Config \<Rightarrow> Config \<Rightarrow> bool" where
  "Config_eq a b \<longleftrightarrow>
     USE_LOCAL_SYSTEM_BUS a = USE_LOCAL_SYSTEM_BUS b \<and>
     CONTROLLER_HOST a = CONTROLLER_HOST b \<and>
     CONTROLLER_PORT a = CONTROLLER_PORT b \<and>
     MAX_ERRORS a = MAX_ERRORS b \<and>
     RELOAD_ON_ERROR a = RELOAD_ON_ERROR b \<and>
     RULES_LOCATION a = RULES_LOCATION b \<and>
     DATA_LOCATION a = DATA_LOCATION b"

text \<open>
  \<open>QVariant::toBool\<close> on a text is false for the empty text, \<open>0\<close> and \<open>false\<close> in any case of
  letters; \<open>toInt\<close> is 0 when the text is no number.
\<close>

definition qv_toBool :: "string \<Rightarrow> bool" where
  "qv_toBool s \<longleftrightarrow> s \<noteq> '''' \<and> s \<noteq> ''0'' \<and> to_upper s \<noteq> ''FALSE''"

definition qv_toInt :: "qt_number \<Rightarrow> string \<Rightarrow> int" where
  "qv_toInt q s = (case toInt q s of None \<Rightarrow> 0 | Some i \<Rightarrow> i)"

definition setting :: "('v \<Rightarrow> 'a) \<Rightarrow> 'a \<Rightarrow> 'v option \<Rightarrow> 'a" where
  "setting f d v = (case v of None \<Rightarrow> d | Some s \<Rightarrow> f s)"

definition bus_address :: "string \<Rightarrow> int \<Rightarrow> string" where
  "bus_address host port = ''tcp:host='' @ host @ '',bind=*,port='' @ dec_int port"

definition Config_Load :: "qt_number \<Rightarrow> qsettings \<Rightarrow> Config" where
  "Config_Load q ini =
     (let etc = ini configLoc;
          host = setting id ''127.0.0.1'' (etc ''Clients/CONTROLLER_HOST'');
          port = wrapu32 (setting (qv_toInt q) 14500 (etc ''Clients/CONTROLLER_PORT''));
          loc = setting id defaultDataConfLoc (etc ''Service/DATA_LOCATION'')
      in \<lparr>USE_LOCAL_SYSTEM_BUS = setting qv_toBool True (etc ''Clients/USE_LOCAL_SYSTEM_BUS''),
          DBUS_ADDRESS = bus_address host port,
          CONTROLLER_HOST = host,
          CONTROLLER_PORT = port,
          MAX_ERRORS = wrapu32 (setting (qv_toInt q) 20 (etc ''Service/MAX_ERRORS'')),
          RELOAD_ON_ERROR = setting qv_toBool True (etc ''Service/RELOAD_ON_ERROR''),
          RULES_LOCATION = setting id defaultRulesLoc (etc ''Service/RULES_LOCATION''),
          DATA_LOCATION = loc,
          SMART_QUEUE = setting qv_toBool True (ini loc ''Data/SMART_QUEUE'')\<rparr>)"

text \<open>\<open>Save\<close> changes one key of the data file, when the file can be written.\<close>

definition Config_Save :: "bool \<Rightarrow> Config \<Rightarrow> qsettings \<Rightarrow> qsettings" where
  "Config_Save isWritable c ini =
     (if isWritable
      then ini(DATA_LOCATION c :=
                 (ini (DATA_LOCATION c))(''Data/SMART_QUEUE'' \<mapsto>
                    (if SMART_QUEUE c then ''true'' else ''false'')))
      else ini)"

text \<open>
  \<open>readAddressFromConfig\<close> on the lines of the address file; \<open>std::string::find\<close> is the
  first position of a text, and \<open>substr\<close> stops at the end of the line.
\<close>

fun find_text :: "string \<Rightarrow> string \<Rightarrow> nat option" where
  "find_text p [] = (if p = [] then Some 0 else None)"
| "find_text p (x # xs) =
     (if take (length p) (x # xs) = p then Some 0 else map_option Suc (find_text p xs))"

fun readAddressFromConfig :: "string list \<Rightarrow> Config \<Rightarrow> bool \<times> Config" where
  "readAddressFromConfig [] c = (False, c)"
| "readAddressFromConfig (line # ls) c =
     (case find_text ''<listen>'' line of
        None \<Rightarrow> readAddressFromConfig ls c
      | Some i \<Rightarrow>
          let index = i + length ''<listen>'';
              rest = drop index line;
              content = (case find_text ''</listen>'' line of
                           None \<Rightarrow> rest
                         | Some j \<Rightarrow> if index \<le> j then take (j - index) rest else rest)
          in (True, c\<lparr>DBUS_ADDRESS := content\<rparr>))"

section \<open>Lemmas\<close>

lemma qv_toBool_text [simp]: "qv_toBool ''true''" "\<not> qv_toBool ''false''"
  by (simp_all add: qv_toBool_def to_upper_def upper_char_def char_eq_of_char of_char_of
      del: of_char_eq_iff)

lemma Config_Load_ranges:
  "0 \<le> CONTROLLER_PORT (Config_Load q ini)" "0 \<le> MAX_ERRORS (Config_Load q ini)"
  by (simp_all add: Config_Load_def Let_def wrapu32_def)

lemma Config_Save_others:
  "loc \<noteq> DATA_LOCATION c \<or> key \<noteq> ''Data/SMART_QUEUE'' \<Longrightarrow> Config_Save w c ini loc key = ini loc key"
  by (auto simp: Config_Save_def)

text \<open>
  Saving leaves every other parameter as it was, and the saved flag is the one that is loaded,
  when the configuration is the one the settings describe.
\<close>

lemma Config_Load_Save:
  assumes "DATA_LOCATION c = DATA_LOCATION (Config_Load q ini)"
  shows "Config_Load q (Config_Save True c ini) = (Config_Load q ini)\<lparr>SMART_QUEUE := SMART_QUEUE c\<rparr>"
proof -
  define ini' where "ini' = Config_Save True c ini"
  have keep: "ini' configLoc key = ini configLoc key" if "key \<noteq> ''Data/SMART_QUEUE''" for key
    using that by (simp add: ini'_def Config_Save_others)
  have flag: "ini' (DATA_LOCATION c) ''Data/SMART_QUEUE''
                = Some (if SMART_QUEUE c then ''true'' else ''false'')"
    by (simp add: ini'_def Config_Save_def)
  have loc: "DATA_LOCATION c = setting id defaultDataConfLoc (ini configLoc ''Service/DATA_LOCATION'')"
    using assms by (simp add: Config_Load_def Let_def)
  show ?thesis
    unfolding ini'_def [symmetric]
    by (simp add: Config_Load_def Let_def keep flag loc [symmetric]) (simp add: setting_def)
qed

section \<open>Properties\<close>

text \<open>What \<open>Save\<close> writes is what \<open>Load\<close> reads back: the smart-queue flag, every other
  parameter being unchanged.\<close>

lemma config_save_load:
  assumes "DATA_LOCATION c = DATA_LOCATION (Config_Load q ini)"
  shows "Config_Load q (Config_Save True c ini) = (Config_Load q ini)\<lparr>SMART_QUEUE := SMART_QUEUE c\<rparr>"
  by (rule Config_Load_Save [OF assms])

end
