(* ===== verification/X10_Queue.thy ===== *)
theory X10_Queue
  imports X10_Container X10_Rules_Manager X10_Config
begin

text \<open>
  \<open>controller/service/queue-manager.h\<close> and \<open>queue-manager.cpp\<close>, without the thread's loop
  (\<open>X10_Worker\<close>): the state, the queue of commands with its reduction of redundant ones, the
  expansion of patterns over the known units, and the choice of the next elementary command
  towards a level. The head of the list is the front of \<open>m_queueCommands\<close>: commands enter
  there and leave at the end. The emitted signals are kept in \<open>qm_events\<close>, oldest first.
\<close>

datatype QueueManagerStatus =
  QM_STOPPING | QM_STOPPED | QM_STARTING | QM_LOADING | QM_STARTED | QM_NOCONTROLLER

record QueueManager =
  Containers :: "Container store"
  qm_config :: Config
  isRunning :: bool
  qm_status :: QueueManagerStatus
  hasController :: bool
  controllerLoaded :: bool
  ruleManager :: RuleManager
  queueCommands :: "COMMAND list"
  qm_events :: "qm_event list"

text \<open>
  The constructor; \<open>m_controllerLoaded\<close> is not in its list of initialisers, \<open>garbage\<close> is the
  value it starts with.
\<close>

definition QueueManager_new :: "qt_number \<Rightarrow> qsettings \<Rightarrow> bool \<Rightarrow> QueueManager" where
  "QueueManager_new q ini garbage =
     \<lparr>Containers = [], qm_config = Config_Load q ini, isRunning = False, qm_status = QM_STOPPED,
      hasController = False, controllerLoaded = garbage, ruleManager = RuleManager_new,
      queueCommands = [], qm_events = []\<rparr>"

definition qm_emit :: "qm_event list \<Rightarrow> QueueManager \<Rightarrow> QueueManager" where
  "qm_emit es s = s\<lparr>qm_events := qm_events s @ es\<rparr>"

section \<open>Status\<close>

fun StatusToStr :: "QueueManagerStatus \<Rightarrow> string" where
  "StatusToStr QM_STOPPING = ''Stopping''"
| "StatusToStr QM_STOPPED = ''Stopped''"
| "StatusToStr QM_STARTING = ''Starting''"
| "StatusToStr QM_STARTED = ''Started''"
| "StatusToStr QM_NOCONTROLLER = ''No Controller''"
| "StatusToStr QM_LOADING = ''Loading Driver''"

definition SetStatus :: "QueueManagerStatus \<Rightarrow> QueueManager \<Rightarrow> QueueManager" where
  "SetStatus st s =
     (if qm_status s = st then s
      else qm_emit [StatusUpdate (StatusToStr st)] (s\<lparr>qm_status := st\<rparr>))"

section \<open>Controller and configuration\<close>

text \<open>\<open>ok\<close> is what \<open>X10Controller::Load\<close> returns.\<close>

definition ControllerLoad :: "bool \<Rightarrow> QueueManager \<Rightarrow> QueueManager" where
  "ControllerLoad ok s =
     (let s = s\<lparr>hasController := True, controllerLoaded := ok\<rparr>
      in if qm_status s \<noteq> QM_STOPPING then SetStatus (if ok then QM_STARTED else QM_NOCONTROLLER) s
         else s)"

definition ControllerUnload :: "QueueManager \<Rightarrow> QueueManager" where
  "ControllerUnload s = s\<lparr>hasController := False, controllerLoaded := False\<rparr>"

text \<open>\<open>file\<close> is the content of the rules file, by location.\<close>

definition qm_Reload ::
    "qt_number \<Rightarrow> (int \<Rightarrow> tm) \<Rightarrow> (nat \<Rightarrow> int) \<Rightarrow> qsettings \<Rightarrow> (string \<Rightarrow> string list option)
       \<Rightarrow> QueueManager \<Rightarrow> QueueManager" where
  "qm_Reload q lt clk ini file s =
     (let configNew = Config_Load q ini;
          config = qm_config s;
          reloadDBUS = (USE_LOCAL_SYSTEM_BUS configNew \<noteq> USE_LOCAL_SYSTEM_BUS config \<or>
                        CONTROLLER_HOST configNew \<noteq> CONTROLLER_HOST config \<or>
                        CONTROLLER_PORT configNew \<noteq> CONTROLLER_PORT config);
          reloadParams = (MAX_ERRORS configNew \<noteq> MAX_ERRORS config \<or>
                          RELOAD_ON_ERROR configNew \<noteq> RELOAD_ON_ERROR config);
          reloadRules = (RULES_LOCATION configNew \<noteq> RULES_LOCATION config);
          reloadData = (DATA_LOCATION configNew \<noteq> DATA_LOCATION config)
      in if reloadDBUS \<or> reloadParams \<or> reloadRules \<or> reloadData
         then let s = s\<lparr>qm_config := Config_Load q ini\<rparr>;
                  s = (if reloadRules
                       then s\<lparr>ruleManager :=
                              snd (rm_Load q lt clk (file (RULES_LOCATION (qm_config s))) (ruleManager s))\<rparr>
                       else s)
              in if reloadDBUS then qm_emit [RestartDBUS] s else s
         else s)"

text \<open>
  \<open>Stop\<close> up to its wait for the thread: it returns at once when the thread is stopped or
  being stopped.
\<close>

definition qm_Stop :: "QueueManager \<Rightarrow> QueueManager" where
  "qm_Stop s =
     (if qm_status s = QM_STOPPED \<or> qm_status s = QM_STOPPING then s
      else (SetStatus QM_STOPPING s)\<lparr>isRunning := False, queueCommands := []\<rparr>)"

section \<open>The next elementary command\<close>

text \<open>
  The number of steps that are left, the command for the first of them (the output
  parameter, 0 or a new command) and the containers. \<open>now\<close> is the clock of the constructor.
\<close>

definition next_command :: "int \<Rightarrow> COMMAND \<Rightarrow> int \<Rightarrow> int \<times> COMMAND option" where
  "next_command now c curValue =
     (let ch = channel c; u = cunit c; v = cvalue c in
      if ctype c \<noteq> CMD_SET then (0, None)
      else if v = -1 then (1, Some (COMMAND_new now ch u CMD_OFF (-1)))
      else if curValue = v then (0, None)
      else if curValue = -1
      then if v = MAX_VALUE then (1, Some (COMMAND_new now ch u CMD_ON MAX_VALUE))
           else (1 + MAX_VALUE - v, Some (COMMAND_new now ch u CMD_DIM (MAX_VALUE - 1)))
      else if curValue > v then (curValue - v, Some (COMMAND_new now ch u CMD_DIM (curValue - 1)))
      else if v - curValue > 2 + MAX_VALUE - v
      then (2 + MAX_VALUE - v, Some (COMMAND_new now ch u CMD_OFF (-1)))
      else (v - curValue, Some (COMMAND_new now ch u CMD_BRIGHT (curValue + 1))))"

definition GetNextCommand ::
    "int \<Rightarrow> COMMAND \<Rightarrow> Container store \<Rightarrow> (int \<times> COMMAND option) \<times> Container store" where
  "GetNextCommand now c m =
     (let addr = address c in
      if addr = '''' then ((0, None), m)
      else let m' = CheckContainerExist addr m
           in (next_command now c (container_value m' addr), m'))"

section \<open>Adding to the queue\<close>

text \<open>
  The loop of the smart queue over the queued commands from the front: what is left of them,
  and whether the function returned without adding the new command.
\<close>

fun smart_filter :: "COMMAND \<Rightarrow> COMMAND list \<Rightarrow> COMMAND list \<times> bool" where
  "smart_filter cmd [] = ([], False)"
| "smart_filter cmd (it # its) =
     (let keep = (let (r, b) = smart_filter cmd its in (it # r, b)) in
      if channel cmd = channel it \<and> cunit cmd = cunit it
      then if ctype cmd = CMD_SET then smart_filter cmd its
           else if ctype cmd = CMD_OFF then smart_filter cmd its
           else if ctype cmd = CMD_BRIGHT \<or> ctype cmd = CMD_DIM
           then if ctype it \<noteq> ctype cmd then (its, True) else keep
           else keep
      else keep)"

definition enqueue :: "COMMAND \<Rightarrow> QueueManager \<Rightarrow> QueueManager" where
  "enqueue cmd s =
     (let (cmds, returned) = (if SMART_QUEUE (qm_config s) then smart_filter cmd (queueCommands s)
                              else (queueCommands s, False))
      in s\<lparr>queueCommands := (if returned then cmds else cmd # cmds)\<rparr>)"

definition NodesList :: "QueueManager \<Rightarrow> string" where
  "NodesList s = concat (map (\<lambda>k. k @ '' '') (st_keys (Containers s)))"

text \<open>
  \<open>QueueCommand\<close> calls itself on the units that match a pattern. The first argument bounds
  the depth of the calls; \<open>None\<close> is a stack that is exhausted. The locals \<open>nodeChannel\<close> and
  \<open>nodeUnit\<close> keep their last value where \<open>sourceToAddress\<close> fails, whose result is ignored.
\<close>

fun QueueCommand :: "nat \<Rightarrow> qt_number \<Rightarrow> int \<Rightarrow> COMMAND \<Rightarrow> QueueManager \<Rightarrow> QueueManager option" where
  "QueueCommand 0 q now cmd s = None"
| "QueueCommand (Suc depth) q now cmd s =
     (let nodes = split_skip CHR '' '' (NodesList s) in
      if channel cmd = CHR ''*'' \<or> cunit cmd = 0
      then map_option (\<lambda>(nodeChannel, nodeUnit, s). s)
             (fold_opt
               (\<lambda>node (ch0, u0, s).
                  let (_, nodeChannel, nodeUnit) = sourceToAddress q node ch0 u0 in
                  if (channel cmd = CHR ''*'' \<or> nodeChannel = channel cmd) \<and>
                     (cunit cmd = 0 \<or> nodeUnit = cunit cmd)
                  then map_option (\<lambda>s. (nodeChannel, nodeUnit, s))
                         (QueueCommand depth q now
                            (COMMAND_new now nodeChannel nodeUnit (ctype cmd) (cvalue cmd)) s)
                  else Some (nodeChannel, nodeUnit, s))
               nodes (CHR ''A'', 0, s))
      else Some (enqueue cmd s))"

declare QueueCommand.simps(2) [simp del]

text \<open>The overload that builds the command.\<close>

definition QueueCommand_new ::
    "nat \<Rightarrow> qt_number \<Rightarrow> int \<Rightarrow> COMMAND_TYPE \<Rightarrow> Channel \<Rightarrow> Unit \<Rightarrow> int \<Rightarrow> QueueManager
       \<Rightarrow> QueueManager option" where
  "QueueCommand_new depth q now t ch u v s = QueueCommand depth q now (COMMAND_new now ch u t v) s"

definition SetAllTo :: "nat \<Rightarrow> qt_number \<Rightarrow> int \<Rightarrow> bool \<Rightarrow> QueueManager \<Rightarrow> QueueManager option" where
  "SetAllTo depth q now on s =
     map_option (\<lambda>(ch, u, s). s)
       (fold_opt
         (\<lambda>node (ch0, u0, s).
            case sourceToAddress q node ch0 u0 of
              (True, ch, u) \<Rightarrow>
                map_option (\<lambda>s. (ch, u, s))
                  (QueueCommand_new depth q now (if on then CMD_ON else CMD_OFF) ch u
                     (if on then -2 else -1) s)
            | (False, ch, u) \<Rightarrow> Some (ch, u, s))
         (st_keys (Containers s)) (CHR 0x00, 0, s))"

section \<open>Properties, values and rules\<close>

definition RulesList :: "QueueManager \<Rightarrow> string" where
  "RulesList s = rm_GetRules (ruleManager s)"

definition StatusStr :: "QueueManager \<Rightarrow> string" where
  "StatusStr s = StatusToStr (qm_status s)"

definition PROPERTY_STATUS :: string where "PROPERTY_STATUS = ''Status''"
definition PROPERTY_SMARTQUEUE :: string where "PROPERTY_SMARTQUEUE = ''SmartQueue''"
definition PROPERTY_NODES :: string where "PROPERTY_NODES = ''Nodes''"
definition PROPERTY_RULES :: string where "PROPERTY_RULES = ''Rules''"

text \<open>
  \<open>canConvert(QVariant::Bool)\<close> holds of the texts and numbers a variant carries here and not
  of the invalid variant; a number is converted to its truth value.
\<close>

fun qv_bool :: "QVariant \<Rightarrow> bool option" where
  "qv_bool QV_Invalid = None"
| "qv_bool (QV_String s) = Some (qv_toBool s)"
| "qv_bool (QV_Int i) = Some (i \<noteq> 0)"
| "qv_bool (QV_UInt i) = Some (i \<noteq> 0)"
| "qv_bool (QV_Bool b) = Some b"

text \<open>
  The files that change are returned, the settings and the rules file by location;
  \<open>isWritable loc\<close> says whether the file can be written. \<open>Save\<close>'s own result is not looked at.
\<close>

definition qm_SetProperty ::
    "qt_number \<Rightarrow> (int \<Rightarrow> tm) \<Rightarrow> (nat \<Rightarrow> int) \<Rightarrow> (string \<Rightarrow> bool) \<Rightarrow> string \<Rightarrow> QVariant \<Rightarrow> qsettings
       \<Rightarrow> (string \<Rightarrow> string option) \<Rightarrow> QueueManager
       \<Rightarrow> bool \<times> qsettings \<times> (string \<Rightarrow> string option) \<times> QueueManager" where
  "qm_SetProperty q lt clk isWritable property v ini files s =
     (if property = PROPERTY_SMARTQUEUE
      then case qv_bool v of
             None \<Rightarrow> (False, ini, files, s)
           | Some b \<Rightarrow>
               let c = (qm_config s)\<lparr>SMART_QUEUE := b\<rparr>
               in (True, Config_Save (isWritable (DATA_LOCATION c)) c ini, files, s\<lparr>qm_config := c\<rparr>)
      else if property = PROPERTY_RULES
      then case qv_string v of
             None \<Rightarrow> (False, ini, files, s)
           | Some text \<Rightarrow>
               let rm = rm_Deserialize q lt clk text (ruleManager s);
                   loc = RULES_LOCATION (qm_config s)
               in (True, ini, if isWritable loc then files(loc \<mapsto> rm_Save rm) else files,
                   s\<lparr>ruleManager := rm\<rparr>)
      else (False, ini, files, s))"

definition qm_GetValue :: "qt_number \<Rightarrow> string \<Rightarrow> QueueManager \<Rightarrow> int \<times> QueueManager" where
  "qm_GetValue q source s =
     (if isValidAddress q source
      then let m = CheckContainerExist source (Containers s)
           in (container_value m source, s\<lparr>Containers := m\<rparr>)
      else (-1, s))"

definition on_RuleExecute ::
    "nat \<Rightarrow> qt_number \<Rightarrow> int \<Rightarrow> Rule \<Rightarrow> QueueManager \<Rightarrow> QueueManager option" where
  "on_RuleExecute depth q now r s = fold_opt (QueueCommand depth q now) (getCommands q now r) s"

end
