(* ===== verification/X10_Worker.thy ===== *)
theory X10_Worker
  imports X10_Queue
begin

text \<open>
  The thread of the queue manager, \<open>QueueManager::run\<close> of
  \<open>controller/service/queue-manager.cpp\<close>: one definition per part of its loop, and a step
  relation in which the thread is interleaved with the calls of its clients. The controller is
  seen through its results: what \<open>Load\<close> and \<open>x10_recv\<close> returned are inputs, the commands
  handed to \<open>x10_send\<close> an output (its result is not looked at).
\<close>

section \<open>The parts of the loop\<close>

definition worker_enter ::
    "qt_number \<Rightarrow> (int \<Rightarrow> tm) \<Rightarrow> (nat \<Rightarrow> int) \<Rightarrow> (string \<Rightarrow> string list option) \<Rightarrow> bool
       \<Rightarrow> QueueManager \<Rightarrow> QueueManager" where
  "worker_enter q lt clk file ok s =
     (let s = (SetStatus QM_STARTING s)\<lparr>isRunning := True\<rparr>;
          s = s\<lparr>ruleManager :=
                  snd (rm_Load q lt clk (file (RULES_LOCATION (qm_config s))) (ruleManager s))\<rparr>;
          s = SetStatus QM_LOADING s
      in ControllerLoad ok s)"

text \<open>What a received command does to the container of its unit.\<close>

definition receive_op :: "CmdCode \<Rightarrow> Container \<Rightarrow> Container \<times> qm_event list" where
  "receive_op code =
     (if code = X10CMD_ON then SetOn True
      else if code = X10CMD_OFF then SetOn False
      else if code = X10CMD_BRIGHT then PushDirection True
      else if code = X10CMD_DIM then PushDirection False
      else (\<lambda>c. (c, [])))"

definition received_address :: "x10_ha_command \<Rightarrow> string" where
  "received_address x =
     to_upper (house_code_to_char (ha_house x) # dec_int (unit_code_to_int (ha_unit x)))"

text \<open>
  One turn of the inner loop, with the result and the output of \<open>x10_recv\<close>: whether the loop
  is left, the number of errors in a row and the state.
\<close>

definition worker_receive ::
    "int \<Rightarrow> x10_ha_command \<Rightarrow> int \<Rightarrow> QueueManager \<Rightarrow> bool \<times> int \<times> QueueManager" where
  "worker_receive res x nbErrors s =
     (if \<not> controllerLoaded s then (False, nbErrors, s)
      else if res > 0
      then let addr = received_address x;
               (m, evs) = on_container addr (receive_op (ha_cmd x)) (CheckContainerExist addr (Containers s))
           in (False, 0, qm_emit (evs @ [CommandReceived]) (s\<lparr>Containers := m\<rparr>))
      else if res \<noteq> 0 \<and> res \<noteq> -110
      then let n = wrapu32 (nbErrors + 1) in (n > MAX_ERRORS (qm_config s), n, s)
      else (False, nbErrors, s))"

text \<open>
  After the inner loop: with too many errors the controller is unloaded, and loaded again
  where the configuration says so; the flag tells whether the thread leaves its loop.
\<close>

definition worker_reload :: "bool \<Rightarrow> QueueManager \<Rightarrow> bool \<times> QueueManager" where
  "worker_reload ok s =
     (let s = ControllerUnload s in
      if \<not> RELOAD_ON_ERROR (qm_config s) then (True, s) else (False, ControllerLoad ok s))"

text \<open>The command to execute, \<open>None\<close> for none. A \<open>CMD_SET\<close> stays queued until its last step.\<close>

definition worker_fetch :: "int \<Rightarrow> QueueManager \<Rightarrow> COMMAND option \<times> QueueManager" where
  "worker_fetch now s =
     (if isRunning s \<and> queueCommands s \<noteq> []
      then let cmd = last (queueCommands s); others = butlast (queueCommands s) in
           if ctype cmd = CMD_SET
           then let ((nbSteps, intermCmd), m) = GetNextCommand now cmd (Containers s);
                    s = s\<lparr>Containers := m\<rparr>;
                    rest = (\<lambda>cmd. if nbSteps \<le> 1 then others else others @ [cmd])
                in if nbSteps \<noteq> 0
                   then (map_option (\<lambda>c. c\<lparr>notified := True\<rparr>) intermCmd,
                         qm_emit (if notified cmd then [] else [CommandCompleted cmd])
                           (s\<lparr>queueCommands := rest (cmd\<lparr>notified := True\<rparr>)\<rparr>))
                   else (intermCmd, s\<lparr>queueCommands := rest cmd\<rparr>)
           else (Some cmd, s\<lparr>queueCommands := others\<rparr>)
      else (None, s))"

text \<open>The value a command leaves in the container of its unit, \<open>None\<close> when it stores none.\<close>

definition exec_value :: "COMMAND \<Rightarrow> int \<Rightarrow> int option" where
  "exec_value cmd currentValue =
     (case ctype cmd of
        CMD_SET \<Rightarrow> Some (cvalue cmd)
      | CMD_ON \<Rightarrow> Some (if currentValue < 0 then MAX_VALUE else currentValue)
      | CMD_OFF \<Rightarrow> Some (-1)
      | CMD_DIM \<Rightarrow> (let v = (if currentValue = -1 then MAX_VALUE else currentValue)
                    in Some (if v \<noteq> 0 then v - 1 else 0))
      | CMD_BRIGHT \<Rightarrow> (let v = (if currentValue = -1 then MAX_VALUE else currentValue)
                       in Some (if v \<ge> MAX_VALUE then MAX_VALUE else v + 1))
      | _ \<Rightarrow> None)"

definition exec_op :: "COMMAND \<Rightarrow> Container \<Rightarrow> Container \<times> qm_event list" where
  "exec_op cmd c = (case exec_value cmd (clevel c) of None \<Rightarrow> (c, []) | Some v \<Rightarrow> SetValue v c)"

text \<open>The execution of a command: what is handed to \<open>x10_send\<close>, if anything, and the state.\<close>

definition worker_exec :: "COMMAND \<Rightarrow> QueueManager \<Rightarrow> x10_ha_command option \<times> QueueManager" where
  "worker_exec cmd s =
     (case new_x10_ha_command (parse_cmd_code (cmd_char (ctype cmd))) (channel cmd) (cunit cmd) of
        None \<Rightarrow> (None, s)
      | Some x10cmd \<Rightarrow>
          let addr = address cmd;
              (m, evs) = on_container addr (exec_op cmd) (CheckContainerExist addr (Containers s));
              s = qm_emit evs (s\<lparr>Containers := m\<rparr>)
          in if controllerLoaded s
             then (Some x10cmd, qm_emit (if notified cmd then [] else [CommandCompleted cmd]) s)
             else (None, s))"

text \<open>One command of the queue: fetched and executed.\<close>

definition worker_round :: "int \<Rightarrow> QueueManager \<Rightarrow> x10_ha_command list \<times> QueueManager" where
  "worker_round now s =
     (case worker_fetch now s of
        (None, s') \<Rightarrow> ([], s')
      | (Some cmd, s') \<Rightarrow> (let (x, s'') = worker_exec cmd s' in (case x of None \<Rightarrow> [] | Some c \<Rightarrow> [c], s'')))"

definition worker_leave :: "QueueManager \<Rightarrow> QueueManager" where
  "worker_leave s = SetStatus QM_STOPPED (ControllerUnload s)"

section \<open>The thread among its clients\<close>

text \<open>
  Where the thread is: not running, at the head of its loop, in the inner loop, behind the
  inner loop, before the execution of a command. The second number is \<open>nbErrors\<close>.
\<close>

datatype place = W_Off | W_Head | W_Inner int | W_After int | W_Exec COMMAND

record world =
  wq :: QueueManager
  wplace :: place
  wsent :: "x10_ha_command list"

definition world_start :: "qt_number \<Rightarrow> qsettings \<Rightarrow> bool \<Rightarrow> world" where
  "world_start q ini garbage = \<lparr>wq = QueueManager_new q ini garbage, wplace = W_Off, wsent = []\<rparr>"

text \<open>
  The queue's mutex is held from the inner loop to the end of the fetch, except while the
  inner loop waits, so a client adds commands in every place but \<open>W_After\<close>. The other calls
  do not take that mutex. What \<open>x10_recv\<close> leaves in its output is arbitrary.
\<close>

definition unlocked :: "place \<Rightarrow> bool" where
  "unlocked p \<longleftrightarrow> (case p of W_After n \<Rightarrow> False | _ \<Rightarrow> True)"

inductive wstep :: "qt_number \<Rightarrow> (int \<Rightarrow> tm) \<Rightarrow> world \<Rightarrow> world \<Rightarrow> bool"
  for q lt where
  enter: "wplace w = W_Off \<Longrightarrow>
    wstep q lt w (w\<lparr>wq := worker_enter q lt clk file ok (wq w), wplace := W_Head\<rparr>)"
| head: "wplace w = W_Head \<Longrightarrow> isRunning (wq w) \<Longrightarrow> wstep q lt w (w\<lparr>wplace := W_Inner 0\<rparr>)"
| leave: "wplace w = W_Head \<Longrightarrow> \<not> isRunning (wq w) \<Longrightarrow>
    wstep q lt w (w\<lparr>wq := worker_leave (wq w), wplace := W_Off\<rparr>)"
| receive: "wplace w = W_Inner n \<Longrightarrow> isRunning (wq w) \<Longrightarrow> queueCommands (wq w) = [] \<Longrightarrow>
    worker_receive res x n (wq w) = (brk, n', s) \<Longrightarrow>
    wstep q lt w (w\<lparr>wq := s, wplace := (if brk then W_After n' else W_Inner n')\<rparr>)"
| ready: "wplace w = W_Inner n \<Longrightarrow> \<not> isRunning (wq w) \<or> queueCommands (wq w) \<noteq> [] \<Longrightarrow>
    wstep q lt w (w\<lparr>wplace := W_After n\<rparr>)"
| reload: "wplace w = W_After n \<Longrightarrow> n > MAX_ERRORS (qm_config (wq w)) \<Longrightarrow>
    worker_reload ok (wq w) = (False, s) \<Longrightarrow> wstep q lt w (w\<lparr>wq := s, wplace := W_Head\<rparr>)"
| give_up: "wplace w = W_After n \<Longrightarrow> n > MAX_ERRORS (qm_config (wq w)) \<Longrightarrow>
    worker_reload ok (wq w) = (True, s) \<Longrightarrow>
    wstep q lt w (w\<lparr>wq := worker_leave s, wplace := W_Off\<rparr>)"
| fetch: "wplace w = W_After n \<Longrightarrow> n \<le> MAX_ERRORS (qm_config (wq w)) \<Longrightarrow>
    worker_fetch now (wq w) = (c, s) \<Longrightarrow>
    wstep q lt w (w\<lparr>wq := s, wplace := (case c of None \<Rightarrow> W_Head | Some cmd \<Rightarrow> W_Exec cmd)\<rparr>)"
| exec: "wplace w = W_Exec cmd \<Longrightarrow> worker_exec cmd (wq w) = (x, s) \<Longrightarrow>
    wstep q lt w (w\<lparr>wq := s, wplace := W_Head,
                    wsent := wsent w @ (case x of None \<Rightarrow> [] | Some c \<Rightarrow> [c])\<rparr>)"
| queue_command: "unlocked (wplace w) \<Longrightarrow> request_ok cmd \<Longrightarrow>
    QueueCommand depth q now cmd (wq w) = Some s \<Longrightarrow> wstep q lt w (w\<lparr>wq := s\<rparr>)"
| set_all: "unlocked (wplace w) \<Longrightarrow> SetAllTo depth q now on (wq w) = Some s \<Longrightarrow>
    wstep q lt w (w\<lparr>wq := s\<rparr>)"
| get_value: "CHR '' '' \<notin> set source \<Longrightarrow> qm_GetValue q source (wq w) = (v, s) \<Longrightarrow>
    wstep q lt w (w\<lparr>wq := s\<rparr>)"
| set_property: "qm_SetProperty q lt clk wr prop v ini files (wq w) = (ok, ini', files', s) \<Longrightarrow>
    wstep q lt w (w\<lparr>wq := s\<rparr>)"
| reload_config: "wstep q lt w (w\<lparr>wq := qm_Reload q lt clk ini file (wq w)\<rparr>)"
| stop: "wstep q lt w (w\<lparr>wq := qm_Stop (wq w)\<rparr>)"
| rule_timer: "onEndTimerRuleNeedExec lt now clk (ruleManager (wq w)) = (rs, rm) \<Longrightarrow>
    wstep q lt w (w\<lparr>wq := (wq w)\<lparr>ruleManager := rm\<rparr>\<rparr>)"
| rule_execute: "unlocked (wplace w) \<Longrightarrow> on_RuleExecute depth q now r (wq w) = Some s \<Longrightarrow>
    wstep q lt w (w\<lparr>wq := s\<rparr>)"

inductive reachable :: "qt_number \<Rightarrow> (int \<Rightarrow> tm) \<Rightarrow> qsettings \<Rightarrow> bool \<Rightarrow> world \<Rightarrow> bool"
  for q lt ini garbage where
  init: "reachable q lt ini garbage (world_start q ini garbage)"
| step: "reachable q lt ini garbage w \<Longrightarrow> wstep q lt w w' \<Longrightarrow> reachable q lt ini garbage w'"

end
