(* ===== verification/X10_Queue_Laws.thy ===== *)
theory X10_Queue_Laws
  imports X10_Queue
begin

text \<open>
  What the queue manager's operations on its queue guarantee: the effect of the smart queue per
  kind of command, the shape it keeps the queue in, and the expansion of patterns.
\<close>

section \<open>The smart queue\<close>

definition same_unit :: "COMMAND \<Rightarrow> COMMAND \<Rightarrow> bool" where
  "same_unit a b \<longleftrightarrow> channel a = channel b \<and> cunit a = cunit b"

lemma smart_filter_erase:
  "ctype cmd = CMD_SET \<or> ctype cmd = CMD_OFF \<Longrightarrow>
     smart_filter cmd its = (filter (\<lambda>it. \<not> same_unit cmd it) its, False)"
  by (induction its) (auto simp: same_unit_def Let_def)

lemma smart_filter_keep:
  "ctype cmd \<notin> {CMD_SET, CMD_OFF, CMD_DIM, CMD_BRIGHT} \<Longrightarrow> smart_filter cmd its = (its, False)"
  by (induction its) (auto simp: Let_def)

lemma smart_filter_move_same:
  "ctype cmd = CMD_DIM \<or> ctype cmd = CMD_BRIGHT \<Longrightarrow>
     \<forall>it \<in> set its. same_unit cmd it \<longrightarrow> ctype it = ctype cmd \<Longrightarrow>
     smart_filter cmd its = (its, False)"
  by (induction its) (auto simp: same_unit_def Let_def)

lemma smart_filter_move_other:
  "ctype cmd = CMD_DIM \<or> ctype cmd = CMD_BRIGHT \<Longrightarrow>
     \<forall>it \<in> set pre. same_unit cmd it \<longrightarrow> ctype it = ctype cmd \<Longrightarrow>
     same_unit cmd it \<Longrightarrow> ctype it \<noteq> ctype cmd \<Longrightarrow>
     smart_filter cmd (pre @ it # post) = (pre @ post, True)"
  by (induction pre) (auto simp: same_unit_def Let_def)

text \<open>Every result is one of these: no command is invented, reordered or altered.\<close>

lemma smart_filter_move_cases:
  assumes "ctype cmd = CMD_DIM \<or> ctype cmd = CMD_BRIGHT"
  obtains "\<forall>it \<in> set its. same_unit cmd it \<longrightarrow> ctype it = ctype cmd"
    and "smart_filter cmd its = (its, False)"
  | pre it post where "its = pre @ it # post" and "same_unit cmd it" and "ctype it \<noteq> ctype cmd"
    and "\<forall>it \<in> set pre. same_unit cmd it \<longrightarrow> ctype it = ctype cmd"
    and "smart_filter cmd its = (pre @ post, True)"
proof (cases "\<forall>it \<in> set its. same_unit cmd it \<longrightarrow> ctype it = ctype cmd")
  case True
  then show ?thesis using that(1) smart_filter_move_same [OF assms] by blast
next
  case False
  then have "\<exists>it \<in> set its. same_unit cmd it \<and> ctype it \<noteq> ctype cmd" by blast
  then obtain pre it post where its: "its = pre @ it # post"
    and it: "same_unit cmd it \<and> ctype it \<noteq> ctype cmd"
    and "\<forall>x \<in> set pre. \<not> (same_unit cmd x \<and> ctype x \<noteq> ctype cmd)"
    by (rule split_list_first_propE)
  then show ?thesis
    using that(2) [OF its] smart_filter_move_other [OF assms, of pre it post] by blast
qed

lemma smart_filter_sub: "set (fst (smart_filter cmd its)) \<subseteq> set its"
  by (induction its) (auto simp: Let_def split: prod.splits if_splits)

lemma smart_filter_frame:
  assumes "\<not> same_unit cmd c"
  shows "filter (same_unit c) (fst (smart_filter cmd its)) = filter (same_unit c) its"
proof (induction its)
  case Nil
  then show ?case by simp
next
  case (Cons it its)
  have "fst (smart_filter cmd (it # its)) = it # fst (smart_filter cmd its) \<or>
        same_unit cmd it \<and> fst (smart_filter cmd (it # its)) \<in> {its, fst (smart_filter cmd its)}"
    by (simp add: same_unit_def Let_def split: prod.splits)
  moreover have "\<not> same_unit c it" if "same_unit cmd it"
    using that assms by (auto simp: same_unit_def)
  ultimately show ?case using Cons.IH by auto
qed

section \<open>The shape of the queue\<close>

text \<open>
  The commands of one unit, youngest first, as the smart queue keeps them: a \<open>CMD_SET\<close> or a
  \<open>CMD_OFF\<close> only as the oldest, and below a \<open>CMD_DIM\<close> or \<open>CMD_BRIGHT\<close> only moves in the same
  direction.
\<close>

fun unit_calm :: "COMMAND list \<Rightarrow> bool" where
  "unit_calm [] = True"
| "unit_calm (c # cs) =
     (unit_calm cs \<and>
      (if ctype c = CMD_SET \<or> ctype c = CMD_OFF then cs = []
       else if ctype c = CMD_DIM \<or> ctype c = CMD_BRIGHT then list_all (\<lambda>d. ctype d = ctype c) cs
       else True))"

definition queue_calm :: "COMMAND list \<Rightarrow> bool" where
  "queue_calm cs \<longleftrightarrow> (\<forall>c \<in> set cs. unit_calm (filter (same_unit c) cs))"

lemma unit_calm_remove: "unit_calm (pre @ c # post) \<Longrightarrow> unit_calm (pre @ post)"
  by (induction pre) (auto split: if_splits)

lemma unit_calm_filter: "unit_calm cs \<Longrightarrow> unit_calm (filter P cs)"
  by (induction cs) (auto simp: list_all_iff split: if_splits)

lemma same_unit_sym: "same_unit a b \<longleftrightarrow> same_unit b a"
  by (auto simp: same_unit_def)

lemma same_unit_filter: "same_unit a b \<Longrightarrow> filter (same_unit a) = filter (same_unit b)"
  by (auto simp: same_unit_def fun_eq_iff intro!: filter_cong)

lemma queue_calm_alt: "queue_calm cs \<longleftrightarrow> (\<forall>c. unit_calm (filter (same_unit c) cs))"
proof
  assume q: "queue_calm cs"
  show "\<forall>c. unit_calm (filter (same_unit c) cs)"
  proof
    fix c
    show "unit_calm (filter (same_unit c) cs)"
    proof (cases "\<exists>d \<in> set cs. same_unit c d")
      case True
      then obtain d where d: "d \<in> set cs" "same_unit c d" ..
      with q show ?thesis by (simp add: queue_calm_def same_unit_filter [OF d(2)])
    next
      case False
      then have "filter (same_unit c) cs = []" by (auto simp: filter_empty_conv)
      then show ?thesis by simp
    qed
  qed
qed (simp add: queue_calm_def)

lemma filter_comm: "filter P (filter Q xs) = filter Q (filter P xs)"
  by (induction xs) simp_all

lemma queue_calm_filter: "queue_calm cs \<Longrightarrow> queue_calm (filter P cs)"
  unfolding queue_calm_alt by (simp only: filter_comm [of _ P] unit_calm_filter simp_thms)

lemma queue_calm_remove: "queue_calm (pre @ c # post) \<Longrightarrow> queue_calm (pre @ post)"
  by (auto simp: queue_calm_alt) (metis unit_calm_remove)

lemma queue_calm_butlast: "queue_calm cs \<Longrightarrow> queue_calm (butlast cs)"
  using queue_calm_remove [of "butlast cs" "last cs" "[]"] by (cases "cs = []") simp_all

lemma queue_calm_push:
  assumes "queue_calm cs" and "unit_calm (cmd # filter (same_unit cmd) cs)"
  shows "queue_calm (cmd # cs)"
  unfolding queue_calm_alt
proof
  fix c
  show "unit_calm (filter (same_unit c) (cmd # cs))"
  proof (cases "same_unit c cmd")
    case True
    with assms(2) show ?thesis by (simp add: same_unit_filter [OF True])
  next
    case False
    with assms(1) show ?thesis by (simp add: queue_calm_alt)
  qed
qed

lemma enqueue_calm:
  assumes "SMART_QUEUE (qm_config s)" and calm: "queue_calm (queueCommands s)"
  shows "queue_calm (queueCommands (enqueue cmd s))"
proof -
  let ?cs = "queueCommands s"
  consider "ctype cmd = CMD_SET \<or> ctype cmd = CMD_OFF"
    | "ctype cmd = CMD_DIM \<or> ctype cmd = CMD_BRIGHT"
    | "ctype cmd \<notin> {CMD_SET, CMD_OFF, CMD_DIM, CMD_BRIGHT}" by auto
  then show ?thesis
  proof cases
    case 1
    let ?f = "filter (\<lambda>it. \<not> same_unit cmd it) ?cs"
    have "queue_calm (cmd # ?f)"
      by (rule queue_calm_push [OF queue_calm_filter [OF calm]]) (simp add: filter_filter)
    with assms(1) smart_filter_erase [OF 1, of ?cs] show ?thesis by (simp add: enqueue_def)
  next
    case 2
    show ?thesis
    proof (rule smart_filter_move_cases [OF 2, of ?cs])
      assume same: "\<forall>it \<in> set ?cs. same_unit cmd it \<longrightarrow> ctype it = ctype cmd"
        and "smart_filter cmd ?cs = (?cs, False)"
      moreover have "queue_calm (cmd # ?cs)"
        using same calm 2 by (intro queue_calm_push) (auto simp: queue_calm_alt list_all_iff)
      ultimately show ?thesis using assms(1) by (simp add: enqueue_def)
    next
      fix pre it post
      assume "?cs = pre @ it # post" and "smart_filter cmd ?cs = (pre @ post, True)"
      with assms show ?thesis by (simp add: enqueue_def) (metis queue_calm_remove)
    qed
  next
    case 3
    have "queue_calm (cmd # ?cs)"
      using 3 calm by (intro queue_calm_push) (auto simp: queue_calm_alt)
    with assms(1) smart_filter_keep [OF 3, of ?cs] show ?thesis by (simp add: enqueue_def)
  qed
qed

section \<open>Frame\<close>

lemma enqueue_frame:
  "Containers (enqueue cmd s) = Containers s" "qm_config (enqueue cmd s) = qm_config s"
  "isRunning (enqueue cmd s) = isRunning s" "qm_status (enqueue cmd s) = qm_status s"
  "hasController (enqueue cmd s) = hasController s"
  "controllerLoaded (enqueue cmd s) = controllerLoaded s"
  "ruleManager (enqueue cmd s) = ruleManager s" "qm_events (enqueue cmd s) = qm_events s"
  by (simp_all add: enqueue_def split: prod.splits)

lemma enqueue_set: "set (queueCommands (enqueue cmd s)) \<subseteq> insert cmd (set (queueCommands s))"
  using smart_filter_sub [of cmd "queueCommands s"]
  by (auto simp: enqueue_def split: prod.splits if_splits)

lemma enqueue_other_units:
  "\<not> same_unit cmd c \<Longrightarrow>
     filter (same_unit c) (queueCommands (enqueue cmd s)) = filter (same_unit c) (queueCommands s)"
  using smart_filter_frame [of cmd c "queueCommands s"]
  by (auto simp: enqueue_def same_unit_sym [of c cmd] split: prod.splits)

section \<open>The nodes\<close>

lemma split_on_append: "split_on c (a @ c # b) = split_on c a @ split_on c b"
  by (induction a) (auto split: list.splits simp: Cons_eq_append_conv)

lemma split_skip_append: "split_skip c (a @ c # b) = split_skip c a @ split_skip c b"
  by (simp add: split_skip_def split_on_append)

lemma nodes_of_keys:
  "split_skip c (concat (map (\<lambda>k. k @ [c]) ks)) = concat (map (split_skip c) ks)"
  by (induction ks) (simp_all add: split_skip_append)

definition nodes :: "QueueManager \<Rightarrow> string list" where
  "nodes s = split_skip CHR '' '' (NodesList s)"

lemma nodes_eq: "nodes s = concat (map (split_skip CHR '' '') (st_keys (Containers s)))"
  by (simp add: nodes_def NodesList_def nodes_of_keys)

lemma nodes_keys:
  assumes "\<And>k. k \<in> set (st_keys (Containers s)) \<Longrightarrow> CHR '' '' \<notin> set k \<and> k \<noteq> ''''"
  shows "nodes s = st_keys (Containers s)"
proof -
  have "map (split_skip CHR '' '') (st_keys (Containers s)) = map (\<lambda>k. [k]) (st_keys (Containers s))"
    using assms by (intro map_cong refl split_skip_single) simp_all
  then show ?thesis unfolding nodes_eq by (simp only: concat_map_singleton map_ident)
qed

lemma node_in_nodes:
  assumes "k \<in> set (st_keys (Containers s))" and "CHR '' '' \<notin> set k" and "k \<noteq> ''''"
  shows "k \<in> set (nodes s)"
proof -
  have "k \<in> set (split_skip CHR '' '' k)" using assms(2,3) by (simp add: split_skip_single)
  with assms(1) show ?thesis by (auto simp: nodes_eq)
qed

section \<open>Expansion of patterns\<close>

definition is_pattern :: "COMMAND \<Rightarrow> bool" where
  "is_pattern cmd \<longleftrightarrow> channel cmd = CHR ''*'' \<or> cunit cmd = 0"

definition matches :: "COMMAND \<Rightarrow> Channel \<times> Unit \<Rightarrow> bool" where
  "matches cmd p \<longleftrightarrow> (channel cmd = CHR ''*'' \<or> fst p = channel cmd) \<and> (cunit cmd = 0 \<or> snd p = cunit cmd)"

text \<open>One turn of the loop over the nodes.\<close>

definition expand_body where
  "expand_body depth q now cmd = (\<lambda>node (ch0, u0, s).
     let (_, nodeChannel, nodeUnit) = sourceToAddress q node ch0 u0 in
     if matches cmd (nodeChannel, nodeUnit)
     then map_option (\<lambda>s. (nodeChannel, nodeUnit, s))
            (QueueCommand depth q now
               (COMMAND_new now nodeChannel nodeUnit (ctype cmd) (cvalue cmd)) s)
     else Some (nodeChannel, nodeUnit, s))"

lemma QueueCommand_Suc:
  "QueueCommand (Suc depth) q now cmd s =
     (if is_pattern cmd
      then map_option (\<lambda>(nodeChannel, nodeUnit, s). s)
             (fold_opt (expand_body depth q now cmd) (nodes s) (CHR ''A'', 0, s))
      else Some (enqueue cmd s))"
  by (simp add: is_pattern_def expand_body_def matches_def nodes_def QueueCommand.simps(2))

text \<open>
  An invariant of the states that one \<open>enqueue\<close> of a real command keeps is an invariant of
  \<open>QueueCommand\<close>, whatever the nodes are.
\<close>

lemma fold_opt_inv:
  assumes "fold_opt f xs s = Some s'" and "P s"
    and "\<And>x s s'. x \<in> set xs \<Longrightarrow> P s \<Longrightarrow> f x s = Some s' \<Longrightarrow> P s'"
  shows "P s'"
  using assms
proof (induction xs arbitrary: s)
  case Nil
  then show ?case by simp
next
  case (Cons x xs)
  then obtain t where t: "f x s = Some t" "fold_opt f xs t = Some s'"
    by (auto split: option.splits)
  show ?case
    by (rule Cons.IH [OF t(2)])
       (use Cons.prems(2) Cons.prems(3) [OF _ Cons.prems(2) t(1)] Cons.prems(3) in auto)
qed

lemma QueueCommand_inv:
  assumes "QueueCommand depth q now cmd s = Some s'" and "P s"
    and "\<And>c s. P s \<Longrightarrow> \<not> is_pattern c \<Longrightarrow> P (enqueue c s)"
  shows "P s'"
  using assms(1,2)
proof (induction depth arbitrary: cmd s s')
  case 0
  then show ?case by simp
next
  case (Suc depth)
  show ?case
  proof (cases "is_pattern cmd")
    case False
    with Suc.prems assms(3) show ?thesis by (auto simp: QueueCommand_Suc)
  next
    case True
    with Suc.prems obtain r where
      r: "fold_opt (expand_body depth q now cmd) (nodes s) (CHR ''A'', 0, s) = Some r"
      and s': "s' = snd (snd r)"
      by (auto simp: QueueCommand_Suc split: prod.splits)
    have "P (snd (snd r))"
    proof (rule fold_opt_inv [OF r, where P = "\<lambda>r. P (snd (snd r))"])
      fix node t t'
      assume "P (snd (snd t))" and "expand_body depth q now cmd node t = Some t'"
      then show "P (snd (snd t'))"
        by (auto simp: expand_body_def split: prod.splits if_splits dest: Suc.IH)
    qed (use Suc.prems in simp)
    with s' show ?thesis by simp
  qed
qed

lemma QueueCommand_Containers:
  assumes "QueueCommand depth q now cmd s = Some s'"
  shows "Containers s' = Containers s"
  by (rule QueueCommand_inv [OF assms, where P = "\<lambda>t. Containers t = Containers s"])
     (simp_all add: enqueue_frame)

lemma nodes_cong: "Containers s = Containers s' \<Longrightarrow> nodes s = nodes s'"
  by (simp add: nodes_eq)

text \<open>
  A node that is a real unit: its address is read completely, without the locals of the loop.
\<close>

definition real_node :: "qt_number \<Rightarrow> string \<Rightarrow> bool" where
  "real_node q k \<longleftrightarrow>
     CHR '' '' \<notin> set k \<and>
     (let (ok, ch, u) = sourceToAddress q k (CHR 0x00) 0 in ok \<and> ch \<noteq> CHR ''*'' \<and> u \<noteq> 0)"

definition node_addr :: "qt_number \<Rightarrow> string \<Rightarrow> Channel \<times> Unit" where
  "node_addr q k = snd (sourceToAddress q k (CHR 0x00) 0)"

lemma sourceToAddress_indep:
  "fst (sourceToAddress q k ch0 u0) \<longleftrightarrow> fst (sourceToAddress q k ch1 u1)"
  "fst (sourceToAddress q k ch0 u0) \<Longrightarrow> sourceToAddress q k ch0 u0 = sourceToAddress q k ch1 u1"
  by (auto simp: sourceToAddress_def Let_def split: option.splits)

lemma real_nodeD:
  assumes "real_node q k"
  shows "sourceToAddress q k ch0 u0 = (True, node_addr q k)"
    and "fst (node_addr q k) \<noteq> CHR ''*''" and "snd (node_addr q k) \<noteq> 0"
    and "house_letter (fst (node_addr q k))" and "concrete (fst (node_addr q k)) (snd (node_addr q k))"
    and "CHR '' '' \<notin> set k" and "k \<noteq> ''''"
proof -
  obtain ch u where a: "sourceToAddress q k (CHR 0x00) 0 = (True, ch, u)"
    and ne: "ch \<noteq> CHR ''*''" "u \<noteq> 0"
    using assms by (auto simp: real_node_def split: prod.splits)
  show "sourceToAddress q k ch0 u0 = (True, node_addr q k)"
  proof -
    have "sourceToAddress q k (CHR 0x00) 0 = sourceToAddress q k ch0 u0"
      by (rule sourceToAddress_indep(2)) (simp add: a)
    with a have "sourceToAddress q k ch0 u0 = (True, ch, u)" by simp
    then show ?thesis by (simp add: node_addr_def a)
  qed
  show "fst (node_addr q k) \<noteq> CHR ''*''" and "snd (node_addr q k) \<noteq> 0"
    using a ne by (simp_all add: node_addr_def)
  show "house_letter (fst (node_addr q k))"
    and "concrete (fst (node_addr q k)) (snd (node_addr q k))"
    using sourceToAddress_range [OF a] a ne by (auto simp: node_addr_def concrete_def)
  show "CHR '' '' \<notin> set k" using assms by (simp add: real_node_def)
  show "k \<noteq> ''''" using a by (auto simp: sourceToAddress_def)
qed

text \<open>The commands a pattern stands for, in the order of the containers.\<close>

definition expansion :: "qt_number \<Rightarrow> int \<Rightarrow> COMMAND \<Rightarrow> QueueManager \<Rightarrow> COMMAND list" where
  "expansion q now cmd s =
     (if is_pattern cmd
      then map (\<lambda>(ch, u). COMMAND_new now ch u (ctype cmd) (cvalue cmd))
             (filter (matches cmd) (map (node_addr q) (st_keys (Containers s))))
      else [cmd])"

lemma expand_loop:
  assumes "\<forall>k \<in> set ks. real_node q k"
  shows "map_option (\<lambda>(ch, u, s). s) (fold_opt (expand_body (Suc depth) q now cmd) ks (ch0, u0, s)) =
     Some (fold enqueue
       (map (\<lambda>(ch, u). COMMAND_new now ch u (ctype cmd) (cvalue cmd))
         (filter (matches cmd) (map (node_addr q) ks))) s)"
  using assms
proof (induction ks arbitrary: ch0 u0 s)
  case Nil
  then show ?case by simp
next
  case (Cons k ks)
  obtain ch u where a: "node_addr q k = (ch, u)" by (cases "node_addr q k")
  have k: "real_node q k" using Cons.prems by simp
  have nopat: "\<not> is_pattern (COMMAND_new now ch u (ctype cmd) (cvalue cmd))"
    using real_nodeD(2,3) [OF k] a by (simp add: is_pattern_def)
  have step: "expand_body (Suc depth) q now cmd k (ch0, u0, s) =
      Some (ch, u, if matches cmd (ch, u)
                   then enqueue (COMMAND_new now ch u (ctype cmd) (cvalue cmd)) s else s)"
    using nopat by (simp add: expand_body_def real_nodeD(1) [OF k] a QueueCommand_Suc)
  show ?case using Cons.prems by (simp add: step Cons.IH a)
qed

lemma QueueCommand_real_nodes:
  assumes "\<forall>k \<in> set (st_keys (Containers s)). real_node q k"
  shows "QueueCommand (Suc (Suc depth)) q now cmd s = Some (fold enqueue (expansion q now cmd s) s)"
proof (cases "is_pattern cmd")
  case True
  have "nodes s = st_keys (Containers s)"
    by (rule nodes_keys) (use assms real_nodeD(6,7) in blast)
  with True show ?thesis
    using expand_loop [OF assms] by (simp add: QueueCommand_Suc expansion_def)
qed (simp add: QueueCommand_Suc expansion_def)

section \<open>A container named by a pattern\<close>

lemma fold_opt_hits:
  assumes "x \<in> set xs" and "I s"
    and "\<And>y s s'. y \<in> set xs \<Longrightarrow> I s \<Longrightarrow> f y s = Some s' \<Longrightarrow> I s'"
    and "\<And>s. I s \<Longrightarrow> f x s = None"
  shows "fold_opt f xs s = None"
  using assms
proof (induction xs arbitrary: s)
  case Nil
  then show ?case by simp
next
  case (Cons y ys)
  show ?case
  proof (cases "f y s")
    case None
    then show ?thesis by simp
  next
    case (Some t)
    then have "y \<noteq> x" using Cons.prems(2,4) by auto
    then have "x \<in> set ys" using Cons.prems(1) by auto
    moreover have "I t" using Cons.prems(3) [OF _ Cons.prems(2) Some] by simp
    ultimately have "fold_opt f ys t = None"
      by (rule Cons.IH) (use Cons.prems(3,4) in \<open>meson list.set_intros(2)\<close>)+
    with Some show ?thesis by simp
  qed
qed

lemma sourceToAddress_star:
  "sourceToAddress q ''*'' ch0 u0 = (True, CHR ''*'', 0)"
  "house_letter h \<Longrightarrow> sourceToAddress q [h, CHR ''*''] ch0 u0 = (True, h, 0)"
  by (simp_all add: sourceToAddress_def house_letter_upper)

text \<open>
  When a node is the pattern \<open>h*\<close>, the loop for any command that matches it calls itself with
  the same pattern, at every depth.
\<close>

lemma QueueCommand_loops:
  assumes "node \<in> set (nodes s)" and "\<And>ch0 u0. sourceToAddress q node ch0 u0 = (True, h, 0)"
    and "is_pattern cmd" and "channel cmd = CHR ''*'' \<or> channel cmd = h" and "cunit cmd = 0"
  shows "QueueCommand depth q now cmd s = None"
  using assms(1,3,4,5)
proof (induction depth arbitrary: cmd s)
  case 0
  then show ?case by simp
next
  case (Suc depth)
  have "fold_opt (expand_body depth q now cmd) (nodes s) (CHR ''A'', 0, s) = None"
  proof (rule fold_opt_hits [OF Suc.prems(1), where I = "\<lambda>t. nodes (snd (snd t)) = nodes s"])
    fix y t t'
    assume "nodes (snd (snd t)) = nodes s" and "expand_body depth q now cmd y t = Some t'"
    then show "nodes (snd (snd t')) = nodes s"
      by (auto simp: expand_body_def split: prod.splits if_splits
          dest!: QueueCommand_Containers nodes_cong)
  next
    fix t :: "Channel \<times> Unit \<times> QueueManager"
    assume t: "nodes (snd (snd t)) = nodes s"
    have "QueueCommand depth q now (COMMAND_new now h 0 (ctype cmd) (cvalue cmd)) (snd (snd t)) = None"
      by (rule Suc.IH) (use Suc.prems t in \<open>simp_all add: is_pattern_def\<close>)
    with Suc.prems show "expand_body depth q now cmd node t = None"
      by (cases t) (auto simp: expand_body_def assms(2) matches_def)
  qed simp
  with Suc.prems show ?case by (simp add: QueueCommand_Suc)
qed

section \<open>Properties\<close>

text \<open>With the smart queue, a \<open>CMD_SET\<close> or \<open>CMD_OFF\<close> replaces everything queued for its
  unit and leaves the commands of the other units, and their order, alone.\<close>

lemma smart_queue_replaces:
  assumes "SMART_QUEUE (qm_config s)" and "ctype cmd = CMD_SET \<or> ctype cmd = CMD_OFF"
  shows "filter (same_unit cmd) (queueCommands (enqueue cmd s)) = [cmd]
    \<and> (\<forall>c. \<not> same_unit cmd c \<longrightarrow>
         filter (same_unit c) (queueCommands (enqueue cmd s)) = filter (same_unit c) (queueCommands s))"
  using assms enqueue_other_units [of cmd _ s] smart_filter_erase [OF assms(2)]
  by (auto simp: enqueue_def same_unit_def filter_empty_conv)

definition sample_manager :: QueueManager where
  "sample_manager = QueueManager_new std_number (\<lambda>_ _. None) False"

definition e5 :: "COMMAND_TYPE \<Rightarrow> int \<Rightarrow> COMMAND" where
  "e5 t v = COMMAND_new 0 CHR ''E'' 5 t v"

lemma sample_smart: "SMART_QUEUE (qm_config sample_manager)"
  by (simp add: sample_manager_def QueueManager_new_def Config_Load_def setting_def Let_def)

text \<open>A \<open>CMD_DIM\<close> or \<open>CMD_BRIGHT\<close> that meets a command of another kind queued for its unit
  removes that command, the youngest such one, and is itself dropped. The command it cancels need
  not be a move in the other direction: it can be a \<open>CMD_SET\<close>, a \<open>CMD_ON\<close> or a \<open>CMD_OFF\<close>.\<close>

lemma smart_queue_move_cancels:
  assumes "SMART_QUEUE (qm_config s)" and "ctype cmd = CMD_DIM \<or> ctype cmd = CMD_BRIGHT"
    and "queueCommands s = pre @ it # post" and "same_unit cmd it" and "ctype it \<noteq> ctype cmd"
    and "\<forall>c \<in> set pre. same_unit cmd c \<longrightarrow> ctype c = ctype cmd"
  shows "queueCommands (enqueue cmd s) = pre @ post"
  using assms smart_filter_move_other [OF assms(2,6,4,5)] by (simp add: enqueue_def)

text \<open>C11: the smart queue never holds opposite moves for one unit, and a \<open>CMD_SET\<close> or \<open>CMD_OFF\<close> is
  always the oldest command of its unit: adding a command and taking the oldest one keep this.\<close>

theorem smart_queue_stays_calm:
  assumes "SMART_QUEUE (qm_config s)" and "queue_calm (queueCommands s)"
  shows "queue_calm (queueCommands (enqueue cmd s)) \<and> queue_calm (butlast (queueCommands s))"
  using enqueue_calm [OF assms] queue_calm_butlast [OF assms(2)] by simp

theorem smart_queue_stays_calm_witness:
  "queue_calm (queueCommands (enqueue (e5 CMD_ON (-1))
     (sample_manager\<lparr>queueCommands := [e5 CMD_DIM (-1), e5 CMD_DIM (-1)]\<rparr>)))"
  using smart_queue_stays_calm [of
      "sample_manager\<lparr>queueCommands := [e5 CMD_DIM (-1), e5 CMD_DIM (-1)]\<rparr>" "e5 CMD_ON (-1)"]
    sample_smart by (simp add: queue_calm_def same_unit_def e5_def)

text \<open>When every container is a real unit, a pattern becomes one command for each unit that
  matches it, added in the order of the containers, and \<open>QueueCommand\<close> calls itself once.\<close>

lemma pattern_expands_over_units:
  assumes "\<forall>k \<in> set (st_keys (Containers s)). real_node q k"
  shows "QueueCommand (Suc (Suc depth)) q now cmd s = Some (fold enqueue (expansion q now cmd s) s)"
  by (rule QueueCommand_real_nodes [OF assms])

lemma real_e5: "real_node std_number ''E5'' \<and> node_addr std_number ''E5'' = (CHR ''E'', 5)"
proof -
  have "sourceToAddress std_number ''E5'' ch0 u0 = (True, CHR ''E'', 5)" for ch0 u0
    using sourceToAddress_addr_str [OF std_number_ok, of "CHR ''E''" 5 ch0 u0]
    by (simp add: concrete_def house_letter_range addr_str_def dec_int_five)
  then show ?thesis by (simp add: real_node_def node_addr_def)
qed

text \<open>C8: asking for the value of a house pattern such as \<open>E*\<close> creates a container of that name,
  and from then on a command to the whole house never returns: \<open>QueueCommand\<close> calls itself with
  the same pattern at every depth, whatever the size of the stack.\<close>

theorem house_pattern_container_loops:
  assumes "house_letter h" and "st_inv (Containers s)"
  shows "QueueCommand depth q now (COMMAND_new now h 0 t v)
           (snd (qm_GetValue q [h, CHR ''*''] s)) = None"
proof -
  let ?s = "snd (qm_GetValue q [h, CHR ''*''] s)"
  have "isValidAddress q [h, CHR ''*'']"
    using assms(1) by (simp add: isValidAddress_def sourceToAddress_star)
  then have "Containers ?s = CheckContainerExist [h, CHR ''*''] (Containers s)"
    by (simp add: qm_GetValue_def Let_def)
  then have "[h, CHR ''*''] \<in> set (st_keys (Containers ?s))"
    using CheckContainerExist_keys [OF assms(2)] by simp
  then have "[h, CHR ''*''] \<in> set (nodes ?s)"
    by (rule node_in_nodes) (use house_letter_not_space [OF assms(1)] in auto)
  then show ?thesis
    by (rule QueueCommand_loops [where h = h]) (simp_all add: sourceToAddress_star assms(1) is_pattern_def)
qed

theorem house_pattern_container_loops_witness:
  "\<forall>depth. QueueCommand depth std_number 0 (COMMAND_new 0 CHR ''E'' 0 CMD_OFF (-1))
     (snd (qm_GetValue std_number ''E*'' sample_manager)) = None"
  using house_pattern_container_loops [of "CHR ''E''" sample_manager]
  by (simp add: house_letter_range sample_manager_def QueueManager_new_def st_inv_def)

end
