(* ===== verification/X10_Worker_Laws.thy ===== *)
theory X10_Worker_Laws
  imports X10_Worker X10_Queue_Laws
begin

text \<open>
  The invariant of the service over all interleavings of its thread and its clients, and the
  way a \<open>CMD_SET\<close> reaches its level.
\<close>

section \<open>Container operations of the thread\<close>

text \<open>
  A received house code that is in no table is printed as a question mark, and so names a
  container, which the expansion of patterns turns into commands.
\<close>

definition chan_ok :: "Channel \<Rightarrow> bool" where
  "chan_ok ch \<longleftrightarrow> house_letter ch \<or> ch = CHR ''?''"

definition cmd_ok :: "COMMAND \<Rightarrow> bool" where
  "cmd_ok c \<longleftrightarrow> chan_ok (channel c) \<and> 1 \<le> cunit c \<and> cunit c \<le> 16 \<and>
     (ctype c = CMD_SET \<longrightarrow> level_ok (cvalue c))"

interpretation receive: container_op "receive_op code"
proof
  fix c
  show "csource (fst (receive_op code c)) = csource c"
    by (simp add: receive_op_def set_on.keeps_source push.keeps_source)
  show "level_ok (clevel c) \<Longrightarrow> level_ok (clevel (fst (receive_op code c)))"
    by (simp add: receive_op_def set_on.keeps_level push.keeps_level)
  show "receive_op code c = (c, []) \<or>
        snd (receive_op code c) = [SourceUpdated (csource c) (clevel (fst (receive_op code c)))]"
    unfolding receive_op_def
    using set_on.reports [of True c] set_on.reports [of False c] push.reports [of True c]
      push.reports [of False c] by simp
qed

lemma exec_value_ok:
  assumes "cmd_ok cmd" and "level_ok cur" and "exec_value cmd cur = Some v"
  shows "level_ok v"
  using assms
  by (cases "ctype cmd") (auto simp: exec_value_def cmd_ok_def level_ok_def MAX_VALUE_def Let_def)

lemma exec_op_container: "cmd_ok cmd \<Longrightarrow> container_op (exec_op cmd)"
  by unfold_locales
     (auto simp: exec_op_def SetValue_def UpdateSource_def split: option.splits dest: exec_value_ok)

section \<open>The invariant\<close>

text \<open>What the expansion of patterns reads from the name of a container.\<close>

definition node_ok :: "qt_number \<Rightarrow> string \<Rightarrow> bool" where
  "node_ok q k \<longleftrightarrow> CHR '' '' \<notin> set k \<and> k \<noteq> [] \<and>
     (\<forall>ch0 u0. let (_, ch, u) = sourceToAddress q k ch0 u0
              in (ch = CHR ''*'' \<or> chan_ok ch) \<and> 0 \<le> u \<and> u \<le> 16)"

definition keys_ok :: "qt_number \<Rightarrow> Container store \<Rightarrow> bool" where
  "keys_ok q m \<longleftrightarrow> (\<forall>k \<in> set (st_keys m). node_ok q k)"

definition events_ok :: "qm_event list \<Rightarrow> bool" where
  "events_ok es \<longleftrightarrow> (\<forall>k v. SourceUpdated k v \<in> set es \<longrightarrow> level_ok v)"

definition qm_ok :: "qt_number \<Rightarrow> QueueManager \<Rightarrow> bool" where
  "qm_ok q s \<longleftrightarrow>
     containers_ok (Containers s) \<and> keys_ok q (Containers s) \<and>
     (\<forall>c \<in> set (queueCommands s). cmd_ok c) \<and>
     next_ok (ruleManager s) \<and> events_ok (qm_events s)"

lemma qm_okD:
  assumes "qm_ok q s"
  shows "containers_ok (Containers s)" and "keys_ok q (Containers s)"
    and "c \<in> set (queueCommands s) \<Longrightarrow> cmd_ok c"
    and "next_ok (ruleManager s)" and "events_ok (qm_events s)"
  using assms by (auto simp: qm_ok_def)

text \<open>Only a \<open>SourceUpdated\<close> matters to \<open>events_ok\<close>.\<close>

lemma events_ok_simps [simp]:
  "events_ok []" "events_ok (CommandCompleted c # es) = events_ok es"
  "events_ok (CommandReceived # es) = events_ok es" "events_ok (StatusUpdate t # es) = events_ok es"
  "events_ok (RestartDBUS # es) = events_ok es"
  "events_ok (SourceUpdated k v # es) \<longleftrightarrow> level_ok v \<and> events_ok es"
  "events_ok (es @ fs) \<longleftrightarrow> events_ok es \<and> events_ok fs"
  by (auto simp: events_ok_def)

lemma qm_ok_update [simp]:
  "qm_ok q (s\<lparr>isRunning := b\<rparr>) = qm_ok q s" "qm_ok q (s\<lparr>qm_status := st\<rparr>) = qm_ok q s"
  "qm_ok q (s\<lparr>hasController := b\<rparr>) = qm_ok q s" "qm_ok q (s\<lparr>controllerLoaded := b\<rparr>) = qm_ok q s"
  "qm_ok q (s\<lparr>qm_config := c\<rparr>) = qm_ok q s"
  by (simp_all add: qm_ok_def)

lemma qm_ok_emit: "qm_ok q (qm_emit es s) \<longleftrightarrow> qm_ok q s \<and> events_ok es"
  by (auto simp: qm_ok_def qm_emit_def)

lemma qm_ok_status [simp]: "qm_ok q (SetStatus st s) = qm_ok q s"
  by (simp add: SetStatus_def qm_ok_emit)

lemma qm_ok_load [simp]: "qm_ok q (ControllerLoad ok s) = qm_ok q s"
  by (simp add: ControllerLoad_def Let_def)

lemma qm_ok_unload [simp]: "qm_ok q (ControllerUnload s) = qm_ok q s"
  by (simp add: ControllerUnload_def)

lemma qm_ok_new: "qm_ok q (QueueManager_new q ini garbage)"
  by (simp add: qm_ok_def QueueManager_new_def containers_ok_empty keys_ok_def st_keys_def next_ok_new)

lemma valid_node:
  assumes "isValidAddress q k" and "CHR '' '' \<notin> set k"
  shows "node_ok q k"
  unfolding node_ok_def
proof (intro conjI allI)
  show "CHR '' '' \<notin> set k" by (rule assms(2))
  show "k \<noteq> []" using assms(1) by (auto simp: isValidAddress_iff)
  fix ch0 u0
  obtain b ch u where a: "sourceToAddress q k ch0 u0 = (b, ch, u)"
    by (cases "sourceToAddress q k ch0 u0")
  have "fst (sourceToAddress q k ch0 u0)"
    using assms(1) sourceToAddress_indep(1) [of q k ch0 u0 "CHR 0x00" 0] by (simp add: isValidAddress_def)
  with a have "sourceToAddress q k ch0 u0 = (True, ch, u)" by simp
  from sourceToAddress_range [OF this] a
  show "let (_, ch, u) = sourceToAddress q k ch0 u0
        in (ch = CHR ''*'' \<or> chan_ok ch) \<and> 0 \<le> u \<and> u \<le> 16"
    by (auto simp: chan_ok_def)
qed

lemma addr_str_plain: "chan_ok ch \<Longrightarrow> u \<noteq> 0 \<Longrightarrow> addr_str ch u = ch # dec_int u"
  by (auto simp: addr_str_def chan_ok_def dest: house_letter_not_star)

lemma question_address:
  assumes "qt_number_ok q" and "1 \<le> u" and "u \<le> 16"
  shows "sourceToAddress q (CHR ''?'' # dec_int u) ch0 u0 = (False, CHR ''?'', u)"
proof -
  have "in_int u" using assms(2,3) by (simp add: in_int_def INT_MIN_def INT_MAX_def)
  with assms(1) have "toInt q (dec_int u) = Some u" by (rule qt_number_okD)
  moreover have "length (dec_int u) = 1 \<or> length (dec_int u) = 2"
    using dec_unit_length [of u] assms(2,3) by auto
  ultimately show ?thesis
    by (auto simp: sourceToAddress_def dec_int_not_star upper_char_def house_letter_range)
qed

lemma addr_str_node:
  assumes "qt_number_ok q" and "chan_ok ch" and "1 \<le> u" and "u \<le> 16"
  shows "node_ok q (addr_str ch u)"
proof (cases "house_letter ch")
  case True
  then have c: "concrete ch u" using assms by (simp add: concrete_def)
  have "CHR '' '' \<notin> set (addr_str ch u)"
    using c dec_int_avoids [of "CHR '' ''" u]
    by (auto simp: addr_str_concrete concrete_def dest: house_letter_not_space)
  with isValidAddress_addr_str [OF assms(1) c] show ?thesis by (rule valid_node)
next
  case False
  then have "ch = CHR ''?''" using assms(2) by (simp add: chan_ok_def)
  then show ?thesis
    using assms question_address [OF assms(1,3,4)] dec_int_avoids [of "CHR '' ''" u]
    by (simp add: node_ok_def addr_str_plain chan_ok_def)
qed

lemma keys_ok_check:
  "st_inv m \<Longrightarrow> keys_ok q m \<Longrightarrow> node_ok q a \<Longrightarrow>
     keys_ok q (CheckContainerExist a m)"
  by (auto simp: keys_ok_def CheckContainerExist_keys)

text \<open>An operation on the container of a valid address keeps the invariant.\<close>

lemma qm_ok_on_container:
  assumes f: "container_op f" and s: "qm_ok q s" and a: "node_ok q a"
    and r: "on_container a f (CheckContainerExist a (Containers s)) = (m, evs)"
  shows "qm_ok q (qm_emit evs (s\<lparr>Containers := m\<rparr>))"
proof -
  let ?m = "CheckContainerExist a (Containers s)"
  have c: "containers_ok ?m" using s by (simp add: qm_okD CheckContainerExist_ok)
  then have inv: "st_inv ?m" by (rule containers_okD)
  have "containers_ok m" using container_op.store_ok [OF f c, of a] r by simp
  moreover have "keys_ok q ?m"
    by (rule keys_ok_check [OF _ _ a]) (use s in \<open>simp_all add: qm_okD containers_okD(1)\<close>)
  then have "keys_ok q m"
    using container_op.store_keys [OF f inv, of a] r by (simp add: keys_ok_def)
  moreover have "events_ok evs"
    unfolding events_ok_def
  proof (intro allI impI)
    fix k v
    assume "SourceUpdated k v \<in> set evs"
    then have "container_value m a = v"
      using container_op.store_reports [OF f c, of k v a] r by simp
    with container_value_ok [OF \<open>containers_ok m\<close>, of a] show "level_ok v" by simp
  qed
  ultimately show ?thesis using s by (auto simp: qm_ok_def qm_emit_def)
qed

section \<open>Preservation by the thread\<close>

lemma bit_of_power: "bit (2 ^ k :: 32 word) n \<longleftrightarrow> n = k \<and> k < 32"
  by (auto simp: bit_exp_iff)

lemma unit_code_to_int_range: "1 \<le> unit_code_to_int c \<and> unit_code_to_int c \<le> 16"
proof -
  define w :: "32 word" where
    "w = (push_bit 1 c AND 2 ^ 3) OR (drop_bit 4 c AND 2 ^ 2) OR (drop_bit 2 c AND 2 ^ 1)
          OR (drop_bit 4 c AND 2 ^ 0)"
  have "w AND mask 4 = w"
    unfolding w_def
    by (rule bit_word_eqI) (auto simp only: bit_and_iff bit_or_iff bit_mask_iff bit_of_power, simp_all)
  then have "uint w = take_bit 4 (uint w)" by (metis take_bit_eq_mask and.commute unsigned_take_bit_eq)
  then have "uint w < 2 ^ 4" by (metis take_bit_int_less_exp)
  moreover have "unit_code_to_int c = uint w + 1"
    by (simp add: unit_code_to_int_def w_def Let_def or.assoc)
  ultimately show ?thesis by simp
qed

lemma house_char_lut: "house_code_to_char c = CHR ''?'' \<or> c \<in> set HouseCodeLut"
  by (simp add: house_code_to_char_def HouseCodeLut_def)

lemma received_address_ok:
  assumes "qt_number_ok q"
  shows "node_ok q (received_address x)"
proof -
  define h where "h = upper_char (house_code_to_char (ha_house x))"
  define u where "u = unit_code_to_int (ha_unit x)"
  have h: "chan_ok h"
    using house_char_lut [of "ha_house x"]
  proof
    assume "house_code_to_char (ha_house x) = CHR ''?''"
    then show ?thesis by (simp add: h_def chan_ok_def upper_char_def)
  next
    assume "ha_house x \<in> set HouseCodeLut"
    then obtain i where i: "i < 16" "ha_house x = HouseCodeLut ! i"
      by (auto simp: in_set_conv_nth)
    have "house_letter h"
      using house_of_lut [OF i(1)] i by (simp add: h_def house_letter_range of_char_upper)
    then show ?thesis by (simp add: chan_ok_def)
  qed
  have u: "1 \<le> u \<and> u \<le> 16" unfolding u_def by (rule unit_code_to_int_range)
  have "upper_char d = d" if "d \<in> set (dec_int u)" for d
    using dec_int_chars [OF that] by (subst char_eq_of_char) (auto simp: of_char_upper is_digit_def)
  then have "to_upper (dec_int u) = dec_int u" by (simp add: to_upper_def map_idI)
  then have "received_address x = addr_str h u"
    using addr_str_plain [OF h] u by (simp add: received_address_def h_def u_def to_upper_def)
  with addr_str_node [OF assms h] u show ?thesis by simp
qed

lemma worker_receive_ok:
  assumes "qt_number_ok q" and "qm_ok q s"
    and "worker_receive res x n s = (brk, n', s')"
  shows "qm_ok q s'"
proof (cases "controllerLoaded s \<and> res > 0")
  case True
  obtain m evs where r: "on_container (received_address x) (receive_op (ha_cmd x))
      (CheckContainerExist (received_address x) (Containers s)) = (m, evs)" by fastforce
  have "qm_ok q (qm_emit evs (s\<lparr>Containers := m\<rparr>))"
    by (rule qm_ok_on_container [OF receive.container_op_axioms assms(2) received_address_ok [OF assms(1)] r])
  with True r assms(3) show ?thesis by (auto simp: worker_receive_def Let_def qm_ok_emit)
next
  case False
  with assms show ?thesis by (auto simp: worker_receive_def Let_def split: if_splits)
qed

lemma worker_exec_ok:
  assumes "qt_number_ok q" and "qm_ok q s" and "cmd_ok cmd" and "worker_exec cmd s = (x, s')"
  shows "qm_ok q s'"
proof -
  have a: "node_ok q (address cmd)"
    using assms(3) addr_str_node [OF assms(1)] by (simp add: cmd_ok_def address_def)
  obtain m evs where r: "on_container (address cmd) (exec_op cmd)
      (CheckContainerExist (address cmd) (Containers s)) = (m, evs)" by fastforce
  have "qm_ok q (qm_emit evs (s\<lparr>Containers := m\<rparr>))"
    by (rule qm_ok_on_container [OF exec_op_container [OF assms(3)] assms(2) a r])
  with r assms(2,4) show ?thesis
    by (auto simp: worker_exec_def Let_def qm_ok_emit split: option.splits if_splits)
qed

lemma next_command_ctype:
  "next_command now c cur = (n, Some i) \<Longrightarrow>
     channel i = channel c \<and> cunit i = cunit c \<and> ctype i \<in> {CMD_ON, CMD_OFF, CMD_DIM, CMD_BRIGHT}
     \<and> notified i = False"
  by (auto simp: next_command_def Let_def split: if_splits)

lemma address_nonempty: "address c \<noteq> ''''"
  by (simp add: address_def addr_str_def)

lemma worker_fetch_ok:
  assumes q: "qt_number_ok q" and s: "qm_ok q s" and f: "worker_fetch now s = (c, s')"
  shows "qm_ok q s'" and "c = Some cmd \<Longrightarrow> cmd_ok cmd \<and> ctype cmd \<noteq> CMD_SET"
proof -
  have "qm_ok q s' \<and> (\<forall>cmd. c = Some cmd \<longrightarrow> cmd_ok cmd \<and> ctype cmd \<noteq> CMD_SET)"
  proof (cases "isRunning s \<and> queueCommands s \<noteq> []")
    case False
    with f s show ?thesis by (auto simp: worker_fetch_def)
  next
    case True
    let ?l = "last (queueCommands s)"
    have l: "cmd_ok ?l" and others: "\<And>c. c \<in> set (butlast (queueCommands s)) \<Longrightarrow> cmd_ok c"
      using True s by (auto simp: qm_okD(3) dest: in_set_butlastD)
    show ?thesis
    proof (cases "ctype ?l = CMD_SET")
      case False
      with True f l others s show ?thesis by (auto simp: worker_fetch_def Let_def qm_ok_def)
    next
      case set: True
      obtain n i where n: "next_command now ?l
          (container_value (CheckContainerExist (address ?l) (Containers s)) (address ?l)) = (n, i)"
        by fastforce
      have a: "node_ok q (address ?l)"
        using addr_str_node [OF q, of "channel ?l" "cunit ?l"] l by (simp add: address_def cmd_ok_def)
      have i: "cmd_ok c \<and> ctype c \<noteq> CMD_SET \<and> cmd_ok (c\<lparr>notified := True\<rparr>)" if "i = Some c" for c
        using next_command_ctype [OF n [unfolded that]] l by (auto simp: cmd_ok_def)
      have m: "containers_ok (CheckContainerExist (address ?l) (Containers s))"
        "keys_ok q (CheckContainerExist (address ?l) (Containers s))"
        using s a by (auto simp: qm_okD CheckContainerExist_ok containers_okD(1)
            intro!: keys_ok_check)
      have "cmd_ok (?l\<lparr>notified := True\<rparr>)" using l by (simp add: cmd_ok_def)
      with True set f n i m l others s show ?thesis
        by (auto simp: worker_fetch_def GetNextCommand_def address_nonempty Let_def qm_ok_def
            qm_emit_def split: if_splits)
    qed
  qed
  then show "qm_ok q s'" and "c = Some cmd \<Longrightarrow> cmd_ok cmd \<and> ctype cmd \<noteq> CMD_SET" by auto
qed

section \<open>Preservation by the clients\<close>

lemma enqueue_ok: "qm_ok q s \<Longrightarrow> cmd_ok cmd \<Longrightarrow> qm_ok q (enqueue cmd s)"
  using enqueue_set [of cmd s] by (auto simp: qm_ok_def enqueue_frame)

text \<open>What the calls of \<open>QueueCommand\<close> on a node pass on.\<close>

definition pattern_ok :: "COMMAND \<Rightarrow> bool" where
  "pattern_ok c \<longleftrightarrow> (channel c = CHR ''*'' \<or> chan_ok (channel c)) \<and> 0 \<le> cunit c \<and> cunit c \<le> 16 \<and>
     (ctype c = CMD_SET \<longrightarrow> level_ok (cvalue c))"

lemma request_pattern: "request_ok c \<Longrightarrow> pattern_ok c"
  by (auto simp: request_ok_def pattern_ok_def chan_ok_def)

lemma pattern_concrete: "pattern_ok c \<Longrightarrow> \<not> is_pattern c \<Longrightarrow> cmd_ok c"
  by (auto simp: pattern_ok_def is_pattern_def cmd_ok_def)

lemma keys_ok_nodes: "keys_ok q (Containers s) \<Longrightarrow> nodes s = st_keys (Containers s)"
  by (rule nodes_keys) (auto simp: keys_ok_def node_ok_def)

lemma node_range:
  assumes "node_ok q k" and "sourceToAddress q k ch0 u0 = (b, ch, u)"
  shows "(ch = CHR ''*'' \<or> chan_ok ch) \<and> 0 \<le> u \<and> u \<le> 16"
proof -
  have "let (_, ch, u) = sourceToAddress q k ch0 u0
        in (ch = CHR ''*'' \<or> chan_ok ch) \<and> 0 \<le> u \<and> u \<le> 16"
    using assms(1) by (simp add: node_ok_def)
  then show ?thesis by (simp add: assms(2))
qed

lemma QueueCommand_ok:
  assumes "QueueCommand depth q now cmd s = Some s'" and "qm_ok q s" and "pattern_ok cmd"
  shows "qm_ok q s' \<and> Containers s' = Containers s"
  using assms
proof (induction depth arbitrary: cmd s s')
  case 0
  then show ?case by simp
next
  case (Suc depth)
  show ?case
  proof (cases "is_pattern cmd")
    case False
    with Suc.prems show ?thesis
      by (auto simp: QueueCommand_Suc enqueue_frame intro: enqueue_ok pattern_concrete)
  next
    case True
    let ?P = "\<lambda>r :: Channel \<times> Unit \<times> QueueManager. qm_ok q (snd (snd r)) \<and> Containers (snd (snd r)) = Containers s"
    from True Suc.prems obtain r where
      r: "fold_opt (expand_body depth q now cmd) (nodes s) (CHR ''A'', 0, s) = Some r"
      and s': "s' = snd (snd r)"
      by (auto simp: QueueCommand_Suc split: prod.splits)
    have "?P r"
    proof (rule fold_opt_inv [OF r, where P = ?P])
      show "?P (CHR ''A'', 0, s)" using Suc.prems by simp
      fix node t t'
      assume node: "node \<in> set (nodes s)" and t: "?P t"
        and step: "expand_body depth q now cmd node t = Some t'"
      obtain ch0 u0 s0 where t0: "t = (ch0, u0, s0)" by (cases t)
      obtain b ch u where a: "sourceToAddress q node ch0 u0 = (b, ch, u)" by (cases "sourceToAddress q node ch0 u0")
      have "node_ok q node"
        using node keys_ok_nodes [OF qm_okD(2) [OF Suc.prems(2)]] qm_okD(2) [OF Suc.prems(2)]
        by (simp add: keys_ok_def)
      from node_range [OF this a] have
        "pattern_ok (COMMAND_new now ch u (ctype cmd) (cvalue cmd))"
        using Suc.prems(3) by (simp add: pattern_ok_def)
      with step t t0 a show "?P t'"
        by (auto simp: expand_body_def split: if_splits dest: Suc.IH)
    qed
    with s' show ?thesis by simp
  qed
qed

lemma SetAllTo_ok:
  assumes "SetAllTo depth q now on s = Some s'" and "qm_ok q s"
  shows "qm_ok q s'"
proof -
  let ?f = "\<lambda>node (ch0, u0, s). case sourceToAddress q node ch0 u0 of
              (True, ch, u) \<Rightarrow>
                map_option (\<lambda>s. (ch, u, s))
                  (QueueCommand_new depth q now (if on then CMD_ON else CMD_OFF) ch u
                     (if on then -2 else -1) s)
            | (False, ch, u) \<Rightarrow> Some (ch, u, s)"
  from assms(1) obtain r where r: "fold_opt ?f (st_keys (Containers s)) (CHR 0x00, 0, s) = Some r"
    and s': "s' = snd (snd r)" by (auto simp: SetAllTo_def)
  have "qm_ok q (snd (snd r))"
  proof (rule fold_opt_inv [OF r, where P = "\<lambda>r. qm_ok q (snd (snd r))"])
    fix node t t'
    assume node: "node \<in> set (st_keys (Containers s))" and t: "qm_ok q (snd (snd t))"
      and step: "?f node t = Some t'"
    obtain ch0 u0 s0 where t0: "t = (ch0, u0, s0)" by (cases t)
    obtain b ch u where a: "sourceToAddress q node ch0 u0 = (b, ch, u)"
      by (cases "sourceToAddress q node ch0 u0")
    have "node_ok q node" using node assms(2) by (simp add: qm_ok_def keys_ok_def)
    from node_range [OF this a] have "pattern_ok (COMMAND_new now ch u (if on then CMD_ON else CMD_OFF) v)" for v
      by (simp add: pattern_ok_def)
    with step t t0 a show "qm_ok q (snd (snd t'))"
      by (auto simp: QueueCommand_new_def split: bool.splits dest!: QueueCommand_ok)
  qed (use assms in simp)
  with s' show ?thesis by simp
qed

lemma on_RuleExecute_ok:
  assumes "on_RuleExecute depth q now r s = Some s'" and "qm_ok q s"
  shows "qm_ok q s'"
  using assms(1) unfolding on_RuleExecute_def
  by (rule fold_opt_inv [where P = "qm_ok q"]) (use assms(2) in \<open>auto dest!: QueueCommand_ok intro: request_pattern getCommands_ok\<close>)

lemma GetValue_ok:
  "qm_GetValue q source s = (v, s') \<Longrightarrow> qm_ok q s \<Longrightarrow> CHR '' '' \<notin> set source \<Longrightarrow> qm_ok q s'"
  by (auto simp: qm_GetValue_def Let_def qm_ok_def CheckContainerExist_ok containers_okD(1)
      intro!: keys_ok_check valid_node split: if_splits)

lemma qm_ok_rules: "qm_ok q s \<Longrightarrow> next_ok rm \<Longrightarrow> qm_ok q (s\<lparr>ruleManager := rm\<rparr>)"
  by (simp add: qm_ok_def)

lemma SetProperty_ok:
  "qm_SetProperty q lt clk wr prop v ini files s = (ok, ini', files', s') \<Longrightarrow> qm_ok q s \<Longrightarrow> qm_ok q s'"
  by (auto simp: qm_SetProperty_def Let_def split: if_splits option.splits
      intro!: qm_ok_rules next_ok_deserialize)

lemma Reload_ok: "qm_ok q s \<Longrightarrow> qm_ok q (qm_Reload q lt clk ini file s)"
  by (auto simp: qm_Reload_def Let_def qm_ok_emit intro!: qm_ok_rules next_ok_load)

lemma Stop_ok: "qm_ok q s \<Longrightarrow> qm_ok q (qm_Stop s)"
  using qm_ok_status [of q QM_STOPPING s] by (simp add: qm_Stop_def qm_ok_def)

lemma enter_ok: "qm_ok q s \<Longrightarrow> qm_ok q (worker_enter q lt clk file ok s)"
  by (simp add: worker_enter_def Let_def qm_ok_rules next_ok_load)

lemma leave_ok: "qm_ok q s \<Longrightarrow> qm_ok q (worker_leave s)"
  by (simp add: worker_leave_def)

lemma reload_ok: "worker_reload ok s = (b, s') \<Longrightarrow> qm_ok q s \<Longrightarrow> qm_ok q s'"
  by (auto simp: worker_reload_def Let_def split: if_splits)

section \<open>The thread's own fields\<close>

text \<open>What no client call but \<open>Stop\<close> touches: the controller and the status.\<close>

definition ctl :: "QueueManager \<Rightarrow> bool \<times> bool \<times> QueueManagerStatus" where
  "ctl s = (controllerLoaded s, hasController s, qm_status s)"

lemma QueueCommand_ctl: "QueueCommand depth q now cmd s = Some s' \<Longrightarrow> ctl s' = ctl s"
  by (rule QueueCommand_inv [where P = "\<lambda>t. ctl t = ctl s"]) (auto simp: ctl_def enqueue_frame)

lemma SetAllTo_ctl:
  assumes "SetAllTo depth q now on s = Some s'"
  shows "ctl s' = ctl s"
proof -
  from assms obtain r where r: "fold_opt (\<lambda>node (ch0, u0, s). case sourceToAddress q node ch0 u0 of
              (True, ch, u) \<Rightarrow>
                map_option (\<lambda>s. (ch, u, s))
                  (QueueCommand_new depth q now (if on then CMD_ON else CMD_OFF) ch u
                     (if on then -2 else -1) s)
            | (False, ch, u) \<Rightarrow> Some (ch, u, s)) (st_keys (Containers s)) (CHR 0x00, 0, s) = Some r"
    and s': "s' = snd (snd r)" by (auto simp: SetAllTo_def)
  have "ctl (snd (snd r)) = ctl s"
    by (rule fold_opt_inv [OF r, where P = "\<lambda>r. ctl (snd (snd r)) = ctl s"])
       (auto simp: QueueCommand_new_def split: bool.splits prod.splits dest: QueueCommand_ctl)
  with s' show ?thesis by simp
qed

lemma on_RuleExecute_ctl:
  assumes "on_RuleExecute depth q now r s = Some s'"
  shows "ctl s' = ctl s"
  using assms unfolding on_RuleExecute_def
  by (rule fold_opt_inv [where P = "\<lambda>t. ctl t = ctl s"]) (auto dest: QueueCommand_ctl)

lemma client_ctl:
  "qm_GetValue q source s = (v, s') \<Longrightarrow> ctl s' = ctl s"
  "qm_SetProperty q lt clk wr prop v' ini files s = (ok, ini', files', s') \<Longrightarrow> ctl s' = ctl s"
  "ctl (qm_Reload q lt clk ini file s) = ctl s"
  "ctl (s\<lparr>ruleManager := rm\<rparr>) = ctl s"
  by (auto simp: ctl_def qm_GetValue_def qm_SetProperty_def qm_Reload_def qm_emit_def Let_def
      split: if_splits option.splits)

lemma worker_ctl:
  "worker_receive res x n s = (brk, n', s') \<Longrightarrow> ctl s' = ctl s"
  "worker_fetch now s = (c, s') \<Longrightarrow> ctl s' = ctl s"
  "worker_exec cmd s = (y, s') \<Longrightarrow> ctl s' = ctl s"
  by (auto simp: ctl_def worker_receive_def worker_fetch_def worker_exec_def qm_emit_def Let_def
      split: if_splits option.splits prod.splits)

lemmas ctl_frames = QueueCommand_ctl SetAllTo_ctl on_RuleExecute_ctl client_ctl worker_ctl

lemma ControllerLoad_ctl:
  "hasController (ControllerLoad ok s)" "controllerLoaded (ControllerLoad ok s) = ok"
  "qm_status (ControllerLoad ok s) = (if qm_status s = QM_STOPPING then QM_STOPPING
     else if ok then QM_STARTED else QM_NOCONTROLLER)"
  by (auto simp: ControllerLoad_def SetStatus_def qm_emit_def Let_def)

lemma ControllerUnload_ctl:
  "\<not> hasController (ControllerUnload s)" "\<not> controllerLoaded (ControllerUnload s)"
  "qm_status (ControllerUnload s) = qm_status s"
  by (simp_all add: ControllerUnload_def)

lemma SetStatus_ctl:
  "hasController (SetStatus st s) = hasController s"
  "controllerLoaded (SetStatus st s) = controllerLoaded s" "qm_status (SetStatus st s) = st"
  by (auto simp: SetStatus_def qm_emit_def)

section \<open>The invariant of the service\<close>

definition sent_ok :: "x10_ha_command \<Rightarrow> bool" where
  "sent_ok x \<longleftrightarrow> ha_house x \<in> set HouseCodeLut \<and> ha_unit x \<in> set UnitCodeLut \<and>
     ha_cmd x \<in> set (X10CMD_INVALID # valid_cmd_codes)"

lemma worker_exec_sent: "worker_exec cmd s = (Some x, s') \<Longrightarrow> sent_ok x"
  by (auto simp: worker_exec_def new_x10_ha_command_eq sent_ok_def parse_cmd_code_def
      valid_cmd_codes_def Let_def house_index_less split: option.splits if_splits prod.splits)

text \<open>
  The controller is there whenever the thread uses it, and the status is \<open>QM_STOPPED\<close> exactly
  while the thread is not in its loop, which is what \<open>Stop\<close> waits for.
\<close>

definition ctl_ok :: "place \<Rightarrow> bool \<times> bool \<times> QueueManagerStatus \<Rightarrow> bool" where
  "ctl_ok p = (\<lambda>(loaded, present, st).
     (p \<noteq> W_Off \<longrightarrow> loaded \<longrightarrow> present) \<and> (p = W_Off \<longleftrightarrow> st = QM_STOPPED))"

definition place_ok :: "place \<Rightarrow> bool" where
  "place_ok p \<longleftrightarrow> (case p of W_Exec c \<Rightarrow> cmd_ok c \<and> ctype c \<noteq> CMD_SET | _ \<Rightarrow> True)"

definition world_ok :: "qt_number \<Rightarrow> world \<Rightarrow> bool" where
  "world_ok q w \<longleftrightarrow> qm_ok q (wq w) \<and> place_ok (wplace w) \<and> ctl_ok (wplace w) (ctl (wq w)) \<and>
     (\<forall>x \<in> set (wsent w). sent_ok x)"

lemma world_ok_start: "world_ok q (world_start q ini garbage)"
  using qm_ok_new
  by (simp add: world_ok_def world_start_def place_ok_def ctl_ok_def ctl_def)
     (simp add: QueueManager_new_def)

lemma ctl_ok_moves:
  "p \<noteq> W_Off \<Longrightarrow> p' \<noteq> W_Off \<Longrightarrow> ctl_ok p c \<Longrightarrow> ctl_ok p' c"
  by (auto simp: ctl_ok_def)

lemma ctl_ok_enter:
  "ctl_ok W_Head (ctl (worker_enter q lt clk file ok s))"
  by (auto simp: ctl_ok_def ctl_def worker_enter_def ControllerLoad_ctl Let_def SetStatus_ctl)

lemma ctl_ok_leave: "ctl_ok W_Off (ctl (worker_leave s))"
  by (simp add: ctl_ok_def ctl_def worker_leave_def SetStatus_ctl)

lemma ctl_ok_reload:
  "worker_reload ok s = (False, s') \<Longrightarrow> qm_status s \<noteq> QM_STOPPED \<Longrightarrow> ctl_ok W_Head (ctl s')"
  by (auto simp: ctl_ok_def ctl_def worker_reload_def ControllerLoad_ctl ControllerUnload_ctl Let_def
      split: if_splits)

lemma ctl_ok_stop: "ctl_ok p (ctl s) \<Longrightarrow> ctl_ok p (ctl (qm_Stop s))"
  by (auto simp: ctl_ok_def ctl_def qm_Stop_def SetStatus_ctl)

lemma world_okI:
  assumes "world_ok q w" and "qm_ok q s" and "place_ok p" and "ctl_ok p (ctl s)"
  shows "world_ok q (w\<lparr>wq := s, wplace := p\<rparr>)"
  using assms by (simp add: world_ok_def)

lemma world_okI_client:
  assumes "world_ok q w" and "qm_ok q s" and "ctl s = ctl (wq w)"
  shows "world_ok q (w\<lparr>wq := s\<rparr>)"
  using assms by (simp add: world_ok_def)

lemma wstep_ok:
  assumes "wstep q lt w w'" and q: "qt_number_ok q" and w: "world_ok q w"
  shows "world_ok q w'"
proof -
  from w have s: "qm_ok q (wq w)" and c: "ctl_ok (wplace w) (ctl (wq w))"
    by (simp_all add: world_ok_def)
  from assms(1) show ?thesis
  proof cases
    case (enter clk fl ok)
    then show ?thesis
      using world_okI [OF w enter_ok [OF s], of W_Head] ctl_ok_enter by (simp add: place_ok_def)
  next
    case head
    then show ?thesis using w ctl_ok_moves [of "wplace w" "W_Inner 0"] by (simp add: world_ok_def place_ok_def)
  next
    case leave
    then show ?thesis
      using world_okI [OF w leave_ok [OF s], of W_Off] ctl_ok_leave by (simp add: place_ok_def)
  next
    case (receive n x res brk n' t)
    then have "ctl t = ctl (wq w)" and "qm_ok q t"
      using s q by (auto dest: worker_ctl(1) intro: worker_receive_ok)
    with receive c show ?thesis
      using world_okI [OF w, of t "if brk then W_After n' else W_Inner n'"]
        ctl_ok_moves [of "wplace w" "if brk then W_After n' else W_Inner n'"]
      by (simp add: place_ok_def)
  next
    case (ready n)
    then show ?thesis using w ctl_ok_moves [of "wplace w" "W_After n"] by (simp add: world_ok_def place_ok_def)
  next
    case (reload n ok t)
    then have "qm_status (wq w) \<noteq> QM_STOPPED" using c by (simp add: ctl_ok_def ctl_def)
    with reload show ?thesis
      using world_okI [OF w reload_ok [OF _ s], of ok False t W_Head] ctl_ok_reload
      by (simp add: place_ok_def)
  next
    case (give_up n ok t)
    then show ?thesis
      using world_okI [OF w leave_ok [OF reload_ok [OF _ s]], of ok True t W_Off] ctl_ok_leave
      by (simp add: place_ok_def)
  next
    case (fetch n now cc t)
    let ?p = "case cc of None \<Rightarrow> W_Head | Some cmd \<Rightarrow> W_Exec cmd"
    have t: "qm_ok q t" "ctl t = ctl (wq w)" and "place_ok ?p"
      using worker_fetch_ok [OF q s fetch(4)] worker_ctl(2) [OF fetch(4)]
      by (auto simp: place_ok_def split: option.splits)
    moreover have "ctl_ok ?p (ctl t)"
      using ctl_ok_moves [of "wplace w" ?p "ctl t"] t c fetch by (simp split: option.splits)
    ultimately show ?thesis using world_okI [OF w] fetch by blast
  next
    case (exec cmd x t)
    have "cmd_ok cmd" using w exec by (simp add: world_ok_def place_ok_def)
    then have t: "qm_ok q t" "ctl t = ctl (wq w)"
      using worker_exec_ok [OF q s _ exec(3)] worker_ctl(3) [OF exec(3)] by auto
    moreover have "ctl_ok W_Head (ctl t)"
      using ctl_ok_moves [of "wplace w" W_Head "ctl t"] t c exec by simp
    moreover have "\<forall>y \<in> set (case x of None \<Rightarrow> [] | Some y \<Rightarrow> [y]). sent_ok y"
      using worker_exec_sent exec(3) by (auto split: option.splits)
    ultimately show ?thesis using w exec by (auto simp: world_ok_def place_ok_def)
  next
    case (stop)
    then show ?thesis using w Stop_ok [OF s] ctl_ok_stop [OF c] by (simp add: world_ok_def)
  next
    case (rule_timer now clk rs rm)
    have "next_ok rm"
      using next_ok_end [OF qm_okD(4) [OF s], of lt now clk] rule_timer by simp
    with rule_timer show ?thesis
      using world_okI_client [OF w qm_ok_rules [OF s]] client_ctl(4) by blast
  next
    case (queue_command cmd depth now t)
    then show ?thesis
      using world_okI_client [OF w, of t] QueueCommand_ok [OF _ s] request_pattern QueueCommand_ctl by blast
  next
    case (set_all depth now on t)
    then show ?thesis
      using world_okI_client [OF w, of t] SetAllTo_ok [OF _ s] SetAllTo_ctl by blast
  next
    case (get_value source v t)
    then show ?thesis
      using world_okI_client [OF w, of t] GetValue_ok [OF _ s] client_ctl(1) by blast
  next
    case (set_property clk wr pr v ini fls ok ini' fls' t)
    then show ?thesis
      using world_okI_client [OF w SetProperty_ok [OF set_property(2) s]] client_ctl(2) [OF set_property(2)]
      by simp
  next
    case (reload_config clk ini fl)
    then show ?thesis
      using world_okI_client [OF w Reload_ok [OF s]] client_ctl(3) by blast
  next
    case (rule_execute depth now r t)
    then show ?thesis
      using world_okI_client [OF w, of t] on_RuleExecute_ok [OF _ s] on_RuleExecute_ctl by blast
  qed
qed

lemma reachable_ok:
  assumes "reachable q lt ini garbage w" and "qt_number_ok q"
  shows "world_ok q w"
  using assms by (induction rule: reachable.induct) (auto intro: world_ok_start wstep_ok)

section \<open>Properties\<close>

text \<open>C2: in every state the service can reach, by any interleaving of the thread with the calls of
  its clients, the timer and received commands, every unit's level is between -1 and 7, every
  level reported to the clients is, the queued commands have a unit between 1 and 16 and a level
  in range where they set one, and what was sent is a command of the tables.\<close>

theorem reachable_states_are_sound:
  assumes "reachable q lt ini garbage w" and "qt_number_ok q"
  shows "(\<forall>k. level_ok (container_value (Containers (wq w)) k))
    \<and> (\<forall>k v. SourceUpdated k v \<in> set (qm_events (wq w)) \<longrightarrow> level_ok v)
    \<and> (\<forall>c \<in> set (queueCommands (wq w)). 1 \<le> cunit c \<and> cunit c \<le> 16
         \<and> (ctype c = CMD_SET \<longrightarrow> level_ok (cvalue c)))
    \<and> (\<forall>x \<in> set (wsent w). ha_house x \<in> set HouseCodeLut \<and> ha_unit x \<in> set UnitCodeLut)"
proof -
  have w: "qm_ok q (wq w)" "\<forall>x \<in> set (wsent w). sent_ok x"
    using reachable_ok [OF assms] by (simp_all add: world_ok_def)
  then show ?thesis
    using qm_okD(5) [OF w(1)] qm_okD(3) [OF w(1)] container_value_ok [OF qm_okD(1) [OF w(1)]]
    by (auto simp: events_ok_def cmd_ok_def sent_ok_def)
qed

definition first_world :: world where
  "first_world = world_start std_number (\<lambda>_ _. None) False"

definition second_world :: world where
  "second_world = first_world\<lparr>wq := worker_enter std_number (civil 0) (\<lambda>_. 0) (\<lambda>_. None) True (wq first_world),
                              wplace := W_Head\<rparr>"

lemma second_reachable: "reachable std_number (civil 0) (\<lambda>_ _. None) False second_world"
  unfolding second_world_def first_world_def
  by (rule reachable.step [OF reachable.init wstep.enter]) (simp add: world_start_def)

theorem reachable_states_are_sound_witness:
  "level_ok (container_value (Containers (wq second_world)) ''E5'')"
  using reachable_states_are_sound [OF second_reachable std_number_ok] by simp

text \<open>C13: in every reachable state the status is \<open>QM_STOPPED\<close> exactly when the thread is not
  running, so the wait in \<open>Stop\<close> ends when the thread has left its loop and not before; while the
  thread runs it uses a controller only if there is one; and the command it is about to execute is
  never a \<open>CMD_SET\<close>.\<close>

theorem status_tracks_the_thread:
  assumes "reachable q lt ini garbage w" and "qt_number_ok q"
  shows "(wplace w = W_Off \<longleftrightarrow> qm_status (wq w) = QM_STOPPED)
    \<and> (wplace w \<noteq> W_Off \<and> controllerLoaded (wq w) \<longrightarrow> hasController (wq w))
    \<and> (\<forall>c. wplace w = W_Exec c \<longrightarrow> ctype c \<noteq> CMD_SET)"
  using reachable_ok [OF assms] by (auto simp: world_ok_def ctl_ok_def ctl_def place_ok_def)

theorem status_tracks_the_thread_witness:
  "qm_status (wq second_world) \<noteq> QM_STOPPED"
  using status_tracks_the_thread [OF second_reachable std_number_ok] by (simp add: second_world_def)

end
