(* ===== verification/X10_Rounds.thy ===== *)
theory X10_Rounds
  imports X10_Worker_Laws
begin

text \<open>
  The thread left to itself on a queue: how many rounds of fetch and execute it takes, in which
  order the commands go out, and where a \<open>CMD_SET\<close> leaves the level of its unit.
\<close>

section \<open>One round\<close>

lemma worker_fetch_plain:
  assumes "isRunning s" and "queueCommands s = others @ [cmd]" and "ctype cmd \<noteq> CMD_SET"
  shows "worker_fetch now s = (Some cmd, s\<lparr>queueCommands := others\<rparr>)"
  using assms by (simp add: worker_fetch_def Let_def)

text \<open>
  The plan of a \<open>CMD_SET\<close> with value \<open>v\<close> at level \<open>cur\<close>: whether it leaves the queue, and the
  level after its elementary command.
\<close>

definition set_next :: "int \<Rightarrow> int \<Rightarrow> bool \<times> int" where
  "set_next v cur =
     (let (n, c) = next_command 0 (COMMAND_new 0 CHR ''A'' 1 CMD_SET v) cur
      in (n \<le> 1, case c of None \<Rightarrow> cur
                | Some cmd \<Rightarrow> (case exec_value cmd cur of None \<Rightarrow> cur | Some l \<Rightarrow> l)))"

lemma next_command_shape:
  assumes "ctype cmd = CMD_SET"
  shows "next_command now cmd cur =
     (let (n, c) = next_command 0 (COMMAND_new 0 CHR ''A'' 1 CMD_SET (cvalue cmd)) cur
      in (n, map_option (\<lambda>c. COMMAND_new now (channel cmd) (cunit cmd) (ctype c) (cvalue c)) c))"
  using assms by (simp add: next_command_def Let_def)

lemma exec_value_shape: "ctype c = ctype d \<Longrightarrow> cvalue c = cvalue d \<Longrightarrow> exec_value c cur = exec_value d cur"
  by (cases "ctype d") (simp_all add: exec_value_def)

lemma worker_exec_value:
  assumes ok: "containers_ok (Containers s)" and cmd: "concrete (channel cmd) (cunit cmd)"
  shows "container_value (Containers (snd (worker_exec cmd s))) (address cmd) =
     (let cur = container_value (Containers s) (address cmd)
      in case exec_value cmd cur of None \<Rightarrow> cur | Some v \<Rightarrow> v)"
    and "isRunning (snd (worker_exec cmd s)) = isRunning s"
    and "queueCommands (snd (worker_exec cmd s)) = queueCommands s"
    and "controllerLoaded (snd (worker_exec cmd s)) = controllerLoaded s"
    and "fst (worker_exec cmd s) =
      (if controllerLoaded s
       then new_x10_ha_command (parse_cmd_code (cmd_char (ctype cmd))) (channel cmd) (cunit cmd)
       else None)"
proof -
  let ?m = "CheckContainerExist (address cmd) (Containers s)"
  have inv: "st_inv ?m" and "st_inv (Containers s)"
    using containers_okD(1) [OF CheckContainerExist_ok [OF ok]] containers_okD(1) [OF ok] by auto
  obtain c where c: "st_find ?m (address cmd) = Some c"
    using find_CheckContainerExist(1) [OF \<open>st_inv (Containers s)\<close>] by fastforce
  obtain x where x: "new_x10_ha_command (parse_cmd_code (cmd_char (ctype cmd))) (channel cmd) (cunit cmd) = Some x"
    using concrete_new_cmd [OF cmd] by blast
  have cur: "container_value (Containers s) (address cmd) = clevel c"
    using CheckContainerExist_value [OF \<open>st_inv (Containers s)\<close>, of "address cmd" "address cmd"] c
    by (simp add: container_value_def)
  show "container_value (Containers (snd (worker_exec cmd s))) (address cmd) =
     (let cur = container_value (Containers s) (address cmd)
      in case exec_value cmd cur of None \<Rightarrow> cur | Some v \<Rightarrow> v)"
    unfolding cur
    by (simp add: worker_exec_def x on_container_def c exec_op_def SetValue_def Let_def qm_emit_def
        container_value_def cmap.find_put [OF inv] split: option.splits)
  show "isRunning (snd (worker_exec cmd s)) = isRunning s"
    and "queueCommands (snd (worker_exec cmd s)) = queueCommands s"
    and "controllerLoaded (snd (worker_exec cmd s)) = controllerLoaded s"
    and "fst (worker_exec cmd s) =
      (if controllerLoaded s
       then new_x10_ha_command (parse_cmd_code (cmd_char (ctype cmd))) (channel cmd) (cunit cmd)
       else None)"
    by (auto simp: worker_exec_def x Let_def qm_emit_def split: prod.splits)
qed

lemma round_plain:
  assumes s: "qm_ok q s" and run: "isRunning s" and "queueCommands s = others @ [cmd]"
    and "ctype cmd \<noteq> CMD_SET" and c: "concrete (channel cmd) (cunit cmd)"
  shows "queueCommands (snd (worker_round now s)) = others"
    and "isRunning (snd (worker_round now s))"
    and "controllerLoaded (snd (worker_round now s)) = controllerLoaded s"
    and "fst (worker_round now s) =
      (if controllerLoaded s
       then [the (new_x10_ha_command (parse_cmd_code (cmd_char (ctype cmd))) (channel cmd) (cunit cmd))]
       else [])"
proof -
  note w = worker_exec_value [of "s\<lparr>queueCommands := others\<rparr>", OF _ c, simplified, OF qm_okD(1) [OF s]]
  note f = worker_fetch_plain [OF run assms(3,4)]
  show "queueCommands (snd (worker_round now s)) = others"
    and "isRunning (snd (worker_round now s))"
    and "controllerLoaded (snd (worker_round now s)) = controllerLoaded s"
    and "fst (worker_round now s) =
      (if controllerLoaded s
       then [the (new_x10_ha_command (parse_cmd_code (cmd_char (ctype cmd))) (channel cmd) (cunit cmd))]
       else [])"
    using w(2-5) run concrete_new_cmd [OF c, of "parse_cmd_code (cmd_char (ctype cmd))"]
    by (auto simp: worker_round_def f split: prod.splits option.splits)
qed

lemma notified_ex: "\<exists>b. c = c\<lparr>notified := b\<rparr>" for c :: COMMAND
  by (rule exI [of _ "notified c"]) simp

text \<open>The fetch of a \<open>CMD_SET\<close>: its elementary command \<open>i\<close> with the number of steps \<open>n\<close>.\<close>

lemma set_fetched:
  fixes now :: int
  assumes "isRunning s" and "queueCommands s = others @ [cmd]" and set: "ctype cmd = CMD_SET"
    and inv: "st_inv (Containers s)"
    and n: "next_command 0 (COMMAND_new 0 CHR ''A'' 1 CMD_SET (cvalue cmd))
              (container_value (Containers s) (address cmd)) = (n, i)"
  defines "m \<equiv> CheckContainerExist (address cmd) (Containers s)" and "left \<equiv> if n \<le> 1 then [] else [cmd]"
    and "step \<equiv> \<lambda>c. COMMAND_new now (channel cmd) (cunit cmd) (ctype c) (cvalue c)"
  shows "worker_fetch now s =
    (if n \<noteq> 0
     then (map_option (\<lambda>c. (step c)\<lparr>notified := True\<rparr>) i,
           qm_emit (if notified cmd then [] else [CommandCompleted cmd])
             (s\<lparr>Containers := m, queueCommands := others @ map (\<lambda>c. c\<lparr>notified := True\<rparr>) left\<rparr>))
     else (map_option step i, s\<lparr>Containers := m, queueCommands := others @ left\<rparr>))"
proof -
  have "next_command now cmd (container_value m (address cmd)) = (n, map_option step i)"
    using next_command_shape [OF set, of now "container_value m (address cmd)"] n
    by (simp add: m_def step_def CheckContainerExist_value [OF inv])
  then show ?thesis
    using assms(1-3)
    by (simp add: worker_fetch_def GetNextCommand_def address_nonempty m_def [symmetric] left_def
        option.map_comp comp_def)
qed

lemma round_set:
  assumes s: "qm_ok q s" and run: "isRunning s" and last: "queueCommands s = others @ [cmd]"
    and set: "ctype cmd = CMD_SET" and con: "concrete (channel cmd) (cunit cmd)"
    and plan: "set_next (cvalue cmd) (container_value (Containers s) (address cmd)) = (fin, lvl)"
  shows "container_value (Containers (snd (worker_round now s))) (address cmd) = lvl"
    and "isRunning (snd (worker_round now s))"
    and "\<exists>b. queueCommands (snd (worker_round now s)) = others @ (if fin then [] else [cmd\<lparr>notified := b\<rparr>])"
proof -
  let ?a = "address cmd"
  let ?m = "CheckContainerExist ?a (Containers s)"
  have inv: "st_inv (Containers s)" using s by (simp add: qm_okD(1) containers_okD(1))
  have ok: "containers_ok ?m" using s by (simp add: qm_okD(1) CheckContainerExist_ok)
  define cur where "cur = container_value (Containers s) ?a"
  have cur: "container_value ?m ?a = cur"
    using CheckContainerExist_value [OF inv] by (simp add: cur_def)
  obtain n i where n: "next_command 0 (COMMAND_new 0 CHR ''A'' 1 CMD_SET (cvalue cmd)) cur = (n, i)"
    by fastforce
  have fin: "fin = (n \<le> 1)"
    and lvl: "lvl = (case i of None \<Rightarrow> cur | Some c \<Rightarrow> (case exec_value c cur of None \<Rightarrow> cur | Some l \<Rightarrow> l))"
    using plan unfolding cur_def [symmetric] by (simp_all add: set_next_def n)
  obtain s1 c1 where f: "worker_fetch now s = (c1, s1)"
    and c1: "(case i of None \<Rightarrow> c1 = None
             | Some c \<Rightarrow> \<exists>d. c1 = Some d \<and> channel d = channel cmd \<and> cunit d = cunit cmd \<and>
                          ctype d = ctype c \<and> cvalue d = cvalue c)"
    and m1: "Containers s1 = ?m" and r1: "isRunning s1"
    and q1: "\<exists>b. queueCommands s1 = others @ (if fin then [] else [cmd\<lparr>notified := b\<rparr>])"
  proof -
    let ?r = "worker_fetch now s"
    note r = set_fetched [OF run last set inv n [unfolded cur_def], of now]
    show ?thesis
      by (rule that [of "fst ?r" "snd ?r"])
         (use run in \<open>auto simp: r fin qm_emit_def notified_ex split: option.splits\<close>)
  qed
  show "container_value (Containers (snd (worker_round now s))) ?a = lvl"
    and "isRunning (snd (worker_round now s))"
    and "\<exists>b. queueCommands (snd (worker_round now s)) = others @ (if fin then [] else [cmd\<lparr>notified := b\<rparr>])"
  proof -
    have "container_value (Containers (snd (worker_round now s))) ?a = lvl \<and>
      isRunning (snd (worker_round now s)) \<and>
      queueCommands (snd (worker_round now s)) = queueCommands s1"
    proof (cases i)
      case None
      with f c1 m1 r1 lvl cur show ?thesis by (simp add: worker_round_def)
    next
      case (Some c)
      with c1 obtain d where d: "c1 = Some d" "channel d = channel cmd" "cunit d = cunit cmd"
        "ctype d = ctype c" "cvalue d = cvalue c" by auto
      have ad: "address d = ?a" using d by (simp add: address_def)
      have "containers_ok (Containers s1)" using ok m1 by simp
      note w = worker_exec_value [OF this, of d, unfolded d(2,3), OF con, unfolded ad]
      have "exec_value d cur = exec_value c cur"
        by (rule exec_value_shape) (use d in simp_all)
      with w(1-3) m1 r1 cur lvl Some show ?thesis
        by (simp add: worker_round_def f d(1) Let_def case_prod_beta)
    qed
    with q1 show "container_value (Containers (snd (worker_round now s))) ?a = lvl"
      and "isRunning (snd (worker_round now s))"
      and "\<exists>b. queueCommands (snd (worker_round now s)) = others @ (if fin then [] else [cmd\<lparr>notified := b\<rparr>])"
      by auto
  qed
qed

section \<open>Rounds in a row\<close>

fun rounds :: "nat \<Rightarrow> int \<Rightarrow> QueueManager \<Rightarrow> x10_ha_command list \<times> QueueManager" where
  "rounds 0 now s = ([], s)"
| "rounds (Suc k) now s =
     (let (xs, s') = worker_round now s; (ys, s'') = rounds k now s' in (xs @ ys, s''))"

lemma rounds_Suc:
  "fst (rounds (Suc k) now s) =
     fst (worker_round now s) @ fst (rounds k now (snd (worker_round now s)))"
  "snd (rounds (Suc k) now s) = snd (rounds k now (snd (worker_round now s)))"
  by (simp_all add: case_prod_beta Let_def)

declare rounds.simps(2) [simp del]
declare rounds_Suc [simp]

lemma worker_round_ok:
  assumes "qt_number_ok q" and "qm_ok q s"
  shows "qm_ok q (snd (worker_round now s))"
proof -
  obtain c s1 where f: "worker_fetch now s = (c, s1)" by fastforce
  note ok = worker_fetch_ok [OF assms f]
  show ?thesis
  proof (cases c)
    case None
    with ok(1) f show ?thesis by (simp add: worker_round_def)
  next
    case (Some cmd)
    obtain x s2 where e: "worker_exec cmd s1 = (x, s2)" by fastforce
    have "cmd_ok cmd" using ok(2) Some by simp
    with worker_exec_ok [OF assms(1) ok(1) _ e] f e Some show ?thesis by (simp add: worker_round_def)
  qed
qed

lemma rounds_add: "snd (rounds (j + k) now s) = snd (rounds k now (snd (rounds j now s)))"
  by (induction j arbitrary: s) simp_all

text \<open>The levels a \<open>CMD_SET\<close> goes through, and after how many rounds it leaves the queue.\<close>

fun set_rounds :: "nat \<Rightarrow> int \<Rightarrow> int \<Rightarrow> (nat \<times> int) option" where
  "set_rounds 0 v cur = None"
| "set_rounds (Suc k) v cur =
     (let (fin, l) = set_next v cur
      in if fin then Some (1, l) else map_option (\<lambda>(n, m). (Suc n, m)) (set_rounds k v l))"

lemma levels: "level_ok v \<longleftrightarrow> v \<in> set [-1, 0, 1, 2, 3, 4, 5, 6, 7]"
  by (auto simp: level_ok_def MAX_VALUE_def)

lemma set_next_eq:
  "set_next v cur =
     (if v = -1 then (True, -1)
      else if cur = v then (True, cur)
      else if cur = -1 then if v = 7 then (True, 7) else (8 - v \<le> 1, 6)
      else if cur > v then (cur - v \<le> 1, if cur \<noteq> 0 then cur - 1 else 0)
      else if v - cur > 9 - v then (9 - v \<le> 1, -1)
      else (v - cur \<le> 1, if cur \<ge> 7 then 7 else cur + 1))"
  by (simp add: set_next_def next_command_def exec_value_def MAX_VALUE_def Let_def)



lemma set_rounds_table:
  "list_all (\<lambda>v. list_all (\<lambda>cur. case set_rounds 8 v cur of None \<Rightarrow> False | Some (n, l) \<Rightarrow> n \<le> 8 \<and> l = v)
     [-1, 0, 1, 2, 3, 4, 5, 6, 7]) [-1, 0, 1, 2, 3, 4, 5, 6, 7]"
  by (simp add: eval_nat_numeral set_next_eq)

lemma set_rounds_reach:
  assumes "level_ok v" and "level_ok cur"
  shows "\<exists>n \<le> 8. set_rounds 8 v cur = Some (n, v)"
  using set_rounds_table assms unfolding levels list_all_iff
  by (fastforce split: option.splits prod.splits)

lemma rounds_set:
  assumes "qt_number_ok q" and "qm_ok q s" and "isRunning s" and "queueCommands s = others @ [cmd]"
    and "ctype cmd = CMD_SET" and "concrete (channel cmd) (cunit cmd)"
    and "set_rounds k (cvalue cmd) (container_value (Containers s) (address cmd)) = Some (n, l)"
  shows "queueCommands (snd (rounds n now s)) = others
    \<and> container_value (Containers (snd (rounds n now s))) (address cmd) = l
    \<and> isRunning (snd (rounds n now s)) \<and> qm_ok q (snd (rounds n now s))"
  using assms(2-)
proof (induction k arbitrary: s cmd n)
  case 0
  then show ?case by simp
next
  case (Suc k)
  let ?s = "snd (worker_round now s)"
  obtain fin lvl where plan:
    "set_next (cvalue cmd) (container_value (Containers s) (address cmd)) = (fin, lvl)" by fastforce
  note r = round_set [OF Suc.prems(1-5) plan, of now]
  have ok: "qm_ok q ?s" by (rule worker_round_ok [OF assms(1) Suc.prems(1)])
  show ?case
  proof (cases fin)
    case True
    then have "n = 1" and "l = lvl" using Suc.prems(6) plan by simp_all
    then have "snd (rounds n now s) = ?s" by simp
    with True r ok \<open>l = lvl\<close> show ?thesis by auto
  next
    case False
    then obtain m where m: "set_rounds k (cvalue cmd) lvl = Some (m, l)" "n = Suc m"
      using Suc.prems(6) plan by auto
    obtain b where b: "queueCommands ?s = others @ [cmd\<lparr>notified := b\<rparr>]" using r(3) False by auto
    have ad: "address (cmd\<lparr>notified := b\<rparr>) = address cmd" by (simp add: address_def)
    have "queueCommands (snd (rounds m now ?s)) = others
      \<and> container_value (Containers (snd (rounds m now ?s))) (address (cmd\<lparr>notified := b\<rparr>)) = l
      \<and> isRunning (snd (rounds m now ?s)) \<and> qm_ok q (snd (rounds m now ?s))"
      by (rule Suc.IH [OF ok r(2) b]) (use Suc.prems(4,5) m(1) r(1) ad in simp_all)
    then show ?thesis unfolding m(2) rounds_Suc(2) ad .
  qed
qed

lemma rounds_drain:
  assumes "qt_number_ok q" and "qm_ok q s" and "isRunning s"
    and "\<forall>c \<in> set (queueCommands s). concrete (channel c) (cunit c)"
  shows "\<exists>k \<le> 8 * length (queueCommands s). queueCommands (snd (rounds k now s)) = []"
  using assms(2-)
proof (induction "queueCommands s" arbitrary: s rule: rev_induct)
  case Nil
  then show ?case by (intro exI [of _ 0]) simp
next
  case (snoc cmd others)
  have cs: "queueCommands s = others @ [cmd]" using snoc.hyps(2) by simp
  have con: "concrete (channel cmd) (cunit cmd)" and rest: "\<forall>c \<in> set others. concrete (channel c) (cunit c)"
    using snoc.prems(3) cs by simp_all
  have "\<exists>n \<le> 8. queueCommands (snd (rounds n now s)) = others \<and> isRunning (snd (rounds n now s))
          \<and> qm_ok q (snd (rounds n now s))"
  proof (cases "ctype cmd = CMD_SET")
    case True
    have "level_ok (cvalue cmd)" using qm_okD(3) [OF snoc.prems(1), of cmd] cs True by (simp add: cmd_ok_def)
    moreover have "level_ok (container_value (Containers s) (address cmd))"
      by (rule container_value_ok [OF qm_okD(1) [OF snoc.prems(1)]])
    ultimately obtain n where "n \<le> 8"
      "set_rounds 8 (cvalue cmd) (container_value (Containers s) (address cmd)) = Some (n, cvalue cmd)"
      using set_rounds_reach by blast
    with rounds_set [OF assms(1) snoc.prems(1,2) cs True con] show ?thesis by blast
  next
    case False
    have "snd (rounds 1 now s) = snd (worker_round now s)" by simp
    with round_plain(1,2) [OF snoc.prems(1,2) cs False con] worker_round_ok [OF assms(1) snoc.prems(1)]
    show ?thesis by (intro exI [of _ 1]) simp
  qed
  then obtain n where n: "n \<le> 8" and t: "queueCommands (snd (rounds n now s)) = others"
    "isRunning (snd (rounds n now s))" "qm_ok q (snd (rounds n now s))" by blast
  from snoc.hyps(1) [OF t(1) [symmetric] t(3,2)] rest obtain k where
    k: "k \<le> 8 * length others" "queueCommands (snd (rounds k now (snd (rounds n now s)))) = []"
    using t(1) by auto
  show ?case by (rule exI [of _ "n + k"]) (use n k cs in \<open>simp add: rounds_add\<close>)
qed

lemma rounds_fifo:
  assumes "qt_number_ok q" and "qm_ok q s" and "isRunning s" and "controllerLoaded s"
    and "\<forall>c \<in> set (queueCommands s). ctype c \<noteq> CMD_SET \<and> concrete (channel c) (cunit c)"
  shows "fst (rounds (length (queueCommands s)) now s) =
     map (\<lambda>c. the (new_x10_ha_command (parse_cmd_code (cmd_char (ctype c))) (channel c) (cunit c)))
       (rev (queueCommands s))"
  using assms(2-)
proof (induction "queueCommands s" arbitrary: s rule: rev_induct)
  case Nil
  then show ?case by simp
next
  case (snoc cmd others)
  have cs: "queueCommands s = others @ [cmd]" using snoc.hyps(2) by simp
  then have "ctype cmd \<noteq> CMD_SET" and "concrete (channel cmd) (cunit cmd)" using snoc.prems(4) by auto
  note r = round_plain [OF snoc.prems(1,2) cs this, of now]
  have "fst (rounds (length (queueCommands (snd (worker_round now s)))) now (snd (worker_round now s))) =
     map (\<lambda>c. the (new_x10_ha_command (parse_cmd_code (cmd_char (ctype c))) (channel c) (cunit c)))
       (rev (queueCommands (snd (worker_round now s))))"
    by (rule snoc.hyps(1)) (use r snoc.prems cs worker_round_ok [OF assms(1) snoc.prems(1)] in simp_all)
  with r(1,4) snoc.prems(3) show ?case by (simp add: cs)
qed

section \<open>A command that blocks the queue\<close>

text \<open>
  A \<open>CMD_SET\<close> for a house that is no letter is never executed, so the level it waits for never
  comes and it stays the next command for ever.
\<close>

lemma round_blocked:
  assumes run: "isRunning s" and last: "queueCommands s = others @ [cmd]"
    and set: "ctype cmd = CMD_SET" and bad: "\<not> is_house (channel cmd)"
    and v: "0 \<le> cvalue cmd" "cvalue cmd < MAX_VALUE - 1"
    and inv: "st_inv (Containers s)" and off: "container_value (Containers s) (address cmd) = -1"
  shows "fst (worker_round now s) = []"
    and "isRunning (snd (worker_round now s))"
    and "queueCommands (snd (worker_round now s)) = others @ [cmd\<lparr>notified := True\<rparr>]"
    and "st_inv (Containers (snd (worker_round now s)))"
    and "container_value (Containers (snd (worker_round now s))) (address cmd) = -1"
proof -
  let ?m = "CheckContainerExist (address cmd) (Containers s)"
  have cur: "container_value ?m (address cmd) = -1"
    using CheckContainerExist_value [OF inv] off by simp
  have n: "next_command now cmd (-1) =
      (1 + MAX_VALUE - cvalue cmd, Some (COMMAND_new now (channel cmd) (cunit cmd) CMD_DIM (MAX_VALUE - 1)))"
    using v set by (simp add: next_command_def MAX_VALUE_def Let_def)
  have e: "worker_exec c t = (None, t)" if "channel c = channel cmd" for c t
    using bad that by (simp add: worker_exec_def new_x10_ha_command_eq)
  have f: "worker_fetch now s =
     (Some ((COMMAND_new now (channel cmd) (cunit cmd) CMD_DIM (MAX_VALUE - 1))\<lparr>notified := True\<rparr>),
      qm_emit (if notified cmd then [] else [CommandCompleted cmd])
        (s\<lparr>Containers := ?m, queueCommands := others @ [cmd\<lparr>notified := True\<rparr>]\<rparr>))"
    using run last set v
    by (simp add: worker_fetch_def GetNextCommand_def address_nonempty cur n MAX_VALUE_def)
  show "fst (worker_round now s) = []"
    and "isRunning (snd (worker_round now s))"
    and "queueCommands (snd (worker_round now s)) = others @ [cmd\<lparr>notified := True\<rparr>]"
    and "st_inv (Containers (snd (worker_round now s)))"
    and "container_value (Containers (snd (worker_round now s))) (address cmd) = -1"
    using run cur CheckContainerExist_inv [OF inv]
    by (simp_all add: worker_round_def f e qm_emit_def)
qed

lemma rounds_blocked:
  assumes "isRunning s" and "queueCommands s = others @ [cmd]"
    and "ctype cmd = CMD_SET" and "\<not> is_house (channel cmd)"
    and "0 \<le> cvalue cmd" and "cvalue cmd < MAX_VALUE - 1"
    and "st_inv (Containers s)" and "container_value (Containers s) (address cmd) = -1"
  shows "fst (rounds k now s) = [] \<and> (\<exists>b. queueCommands (snd (rounds k now s)) = others @ [cmd\<lparr>notified := b\<rparr>])"
  using assms
proof (induction k arbitrary: s cmd)
  case 0
  then show ?case by (simp add: notified_ex)
next
  case (Suc k)
  note r = round_blocked [OF Suc.prems, of now]
  have ad: "address (cmd\<lparr>notified := True\<rparr>) = address cmd" by (simp add: address_def)
  have "fst (rounds k now (snd (worker_round now s))) = [] \<and>
     (\<exists>b. queueCommands (snd (rounds k now (snd (worker_round now s)))) =
       others @ [(cmd\<lparr>notified := True\<rparr>)\<lparr>notified := b\<rparr>])"
    by (rule Suc.IH [OF r(2,3)]) (use Suc.prems r(4,5) ad in simp_all)
  with r(1) show ?case by simp
qed

section \<open>Properties\<close>

text \<open>A \<open>CMD_SET\<close> that is the next command reaches its level: after at most eight rounds of the
  thread the unit's container holds the value that was asked for, the command has left the queue
  and the commands behind it are untouched.\<close>

lemma set_reaches_its_level:
  assumes "qt_number_ok q" and "qm_ok q s" and "isRunning s" and "queueCommands s = others @ [cmd]"
    and "ctype cmd = CMD_SET" and "concrete (channel cmd) (cunit cmd)"
  shows "\<exists>n \<le> 8. queueCommands (snd (rounds n now s)) = others
    \<and> container_value (Containers (snd (rounds n now s))) (address cmd) = cvalue cmd"
proof -
  have "level_ok (cvalue cmd)" using qm_okD(3) [OF assms(2), of cmd] assms(4,5) by (simp add: cmd_ok_def)
  moreover have "level_ok (container_value (Containers s) (address cmd))"
    by (rule container_value_ok [OF qm_okD(1) [OF assms(2)]])
  ultimately obtain n where "n \<le> 8"
    "set_rounds 8 (cvalue cmd) (container_value (Containers s) (address cmd)) = Some (n, cvalue cmd)"
    using set_rounds_reach by blast
  with rounds_set [OF assms] show ?thesis by blast
qed

definition busy_manager :: "COMMAND list \<Rightarrow> QueueManager" where
  "busy_manager cs = sample_manager\<lparr>isRunning := True, controllerLoaded := True, queueCommands := cs\<rparr>"

lemma busy_ok: "list_all cmd_ok cs \<Longrightarrow> qm_ok std_number (busy_manager cs)"
  using qm_ok_new [of std_number "\<lambda>_ _. None" False]
  by (auto simp: qm_ok_def busy_manager_def sample_manager_def list_all_iff)

lemma e5_concrete: "concrete (channel (e5 t v)) (cunit (e5 t v))"
  by (simp add: e5_def concrete_def house_letter_range)

lemma e5_ok: "level_ok v \<Longrightarrow> cmd_ok (e5 t v)"
  by (simp add: e5_def cmd_ok_def chan_ok_def house_letter_range)

text \<open>When every queued command is for a real unit, the thread empties the queue, in at most
  eight rounds per command.\<close>

lemma queue_drains:
  assumes "qt_number_ok q" and "qm_ok q s" and "isRunning s"
    and "\<forall>c \<in> set (queueCommands s). concrete (channel c) (cunit c)"
  shows "\<exists>k \<le> 8 * length (queueCommands s). queueCommands (snd (rounds k now s)) = []"
  by (rule rounds_drain [OF assms])

text \<open>Commands other than \<open>CMD_SET\<close> are sent to the controller once each, in the order in which
  they were queued.\<close>

lemma queue_is_first_in_first_out:
  assumes "qt_number_ok q" and "qm_ok q s" and "isRunning s" and "controllerLoaded s"
    and "\<forall>c \<in> set (queueCommands s). ctype c \<noteq> CMD_SET \<and> concrete (channel c) (cunit c)"
  shows "fst (rounds (length (queueCommands s)) now s) =
     map (\<lambda>c. the (new_x10_ha_command (parse_cmd_code (cmd_char (ctype c))) (channel c) (cunit c)))
       (rev (queueCommands s))"
  by (rule rounds_fifo [OF assms])

text \<open>A \<open>CMD_SET\<close> for a unit whose house is no letter, which a pattern yields once a command with
  an unknown house code was received, stops the service: it is never executed and never leaves
  the queue, and nothing behind it is ever sent.\<close>

lemma unknown_house_blocks_the_queue:
  assumes "isRunning s" and "queueCommands s = others @ [cmd]" and "ctype cmd = CMD_SET"
    and "\<not> is_house (channel cmd)" and "0 \<le> cvalue cmd" and "cvalue cmd < MAX_VALUE - 1"
    and "st_inv (Containers s)" and "container_value (Containers s) (address cmd) = -1"
  shows "fst (rounds k now s) = [] \<and> length (queueCommands (snd (rounds k now s))) = length (queueCommands s)"
  using rounds_blocked [OF assms, of k now] assms(2) by auto

text \<open>The command that \<open>*\<close> gives for a container named after an unknown house code.\<close>

definition stray :: COMMAND where
  "stray = COMMAND_new 0 CHR ''?'' 1 CMD_SET 3"

end
