(* ===== verification/X10_Service.thy ===== *)
theory X10_Service
  imports X10_Rounds
begin

text \<open>
  \<open>controller/service/x10dbusservice.hpp\<close> and \<open>.cpp\<close>: the object on the bus. Its slots check
  their arguments and call the queue manager, its signals repeat the queue manager's. The bus
  itself (\<open>QDBusConnection\<close>) is the environment: what each call on it answered is an argument.
\<close>

section \<open>Slots\<close>

definition svc_Send ::
    "nat \<Rightarrow> qt_number \<Rightarrow> int \<Rightarrow> string \<Rightarrow> int \<Rightarrow> string \<Rightarrow> QueueManager \<Rightarrow> QueueManager option" where
  "svc_Send depth q now ch u command s =
     (if isValidChannel (QV_String ch) \<and> isValidUnit q (QV_UInt u) \<and> isValidCommand (QV_String command)
      then (case cmd_of_char (command ! 0) of
              Some t \<Rightarrow> QueueCommand_new depth q now t (to_upper ch ! 0) (wrap32 u) (-1) s
            | None \<Rightarrow> Some s)
      else Some s)"

definition svc_Set ::
    "nat \<Rightarrow> qt_number \<Rightarrow> int \<Rightarrow> string \<Rightarrow> int \<Rightarrow> int \<Rightarrow> QueueManager \<Rightarrow> QueueManager option" where
  "svc_Set depth q now ch u v s =
     (if isValidChannel (QV_String ch) \<and> isValidUnit q (QV_UInt u) \<and> isValidValue q (QV_Int v)
      then QueueCommand_new depth q now CMD_SET (to_upper ch ! 0) (wrap32 u) v s
      else Some s)"

definition svc_AllOn :: "nat \<Rightarrow> qt_number \<Rightarrow> int \<Rightarrow> QueueManager \<Rightarrow> QueueManager option" where
  "svc_AllOn depth q now s = SetAllTo depth q now True s"

definition svc_AllOff :: "nat \<Rightarrow> qt_number \<Rightarrow> int \<Rightarrow> QueueManager \<Rightarrow> QueueManager option" where
  "svc_AllOff depth q now s = SetAllTo depth q now False s"

definition svc_GetValue :: "qt_number \<Rightarrow> string \<Rightarrow> QueueManager \<Rightarrow> int \<times> QueueManager" where
  "svc_GetValue q source s = qm_GetValue q (to_upper source) s"

definition svc_GetProperty :: "string \<Rightarrow> QueueManager \<Rightarrow> string" where
  "svc_GetProperty name s =
     (if name = PROPERTY_STATUS then StatusStr s
      else if name = PROPERTY_SMARTQUEUE then (if SMART_QUEUE (qm_config s) then ''1'' else ''0'')
      else if name = PROPERTY_NODES then NodesList s
      else if name = PROPERTY_RULES then RulesList s
      else '''')"

text \<open>The signals of the object.\<close>

datatype svc_event =
  SvcCommandCompleted string int string int
| PropertyUpdated string string
| SvcSourceUpdated string int
| RestartedDBUS

definition svc_SetProperty ::
    "qt_number \<Rightarrow> (int \<Rightarrow> tm) \<Rightarrow> (nat \<Rightarrow> int) \<Rightarrow> (string \<Rightarrow> bool) \<Rightarrow> string \<Rightarrow> string \<Rightarrow> qsettings
       \<Rightarrow> (string \<Rightarrow> string option) \<Rightarrow> QueueManager
       \<Rightarrow> svc_event list \<times> qsettings \<times> (string \<Rightarrow> string option) \<times> QueueManager" where
  "svc_SetProperty q lt clk isWritable name v ini files s =
     (let (_, ini', files', s') = qm_SetProperty q lt clk isWritable name (QV_String v) ini files s
      in ([PropertyUpdated name v], ini', files', s'))"

text \<open>
  What the object does for a signal of the queue manager: \<open>OnQM_CommandCompleted\<close>,
  \<open>OnQM_StatusUpdate\<close>, \<open>OnQM_RestartDBUS\<close> and the connection of \<open>SourceUpdated\<close>;
  \<open>CommandReceived\<close> is not connected. The number of a unit goes out as an unsigned int.
\<close>

fun svc_on_event :: "qm_event \<Rightarrow> svc_event list" where
  "svc_on_event (CommandCompleted c) =
     [SvcCommandCompleted [channel c] (wrapu32 (cunit c)) [cmd_char (ctype c)] (cvalue c)]"
| "svc_on_event (StatusUpdate st) = [PropertyUpdated PROPERTY_STATUS st]"
| "svc_on_event (SourceUpdated k v) = [SvcSourceUpdated k v]"
| "svc_on_event RestartDBUS = [RestartedDBUS]"
| "svc_on_event CommandReceived = []"

section \<open>Registration on the bus\<close>

record Bus =
  bus_connected :: bool
  bus_name :: string
  bus_index :: nat
  bus_location :: string

definition bus_at :: "Config \<Rightarrow> string" where
  "bus_at c = (if USE_LOCAL_SYSTEM_BUS c then ''System DBUS''
               else CONTROLLER_HOST c @ '':'' @ dec_int (CONTROLLER_PORT c))"

text \<open>
  The answers: can the port be reached, is the connection made, is the name free, is the object
  registered. A connection object stays even when a later step fails.
\<close>

record bus_answers =
  port_open :: bool
  connects :: bool
  registers_service :: bool
  registers_object :: bool

definition RegisterDBusService :: "bus_answers \<Rightarrow> Config \<Rightarrow> Bus \<Rightarrow> bool \<times> Bus" where
  "RegisterDBusService a config b0 =
     (let b = b0\<lparr>bus_location := bus_at config\<rparr> in
      if \<not> USE_LOCAL_SYSTEM_BUS config \<and> \<not> port_open a then (False, b)
      else let b = b\<lparr>bus_name := ''x10bus'' @ dec_nat (bus_index b), bus_index := Suc (bus_index b),
                     bus_connected := True\<rparr>
           in (connects a \<and> registers_service a \<and> registers_object a, b))"

definition DeregisterDBusService :: "Bus \<Rightarrow> Bus" where
  "DeregisterDBusService b = b\<lparr>bus_connected := False\<rparr>"

definition ReregisterDBusService :: "bus_answers \<Rightarrow> Config \<Rightarrow> Bus \<Rightarrow> bool \<times> Bus" where
  "ReregisterDBusService a config b = RegisterDBusService a config (DeregisterDBusService b)"

section \<open>Command line of the daemon\<close>

text \<open>
  The loop over the arguments behind the program's name. The log file named after \<open>--log\<close> is
  looked at again as an option by the next turn.
\<close>

definition strcaseeq :: "string \<Rightarrow> string \<Rightarrow> bool" where
  "strcaseeq s t \<longleftrightarrow> to_upper s = to_upper t"

datatype daemon_args = DaemonHelp | DaemonArgs bool "string list"

fun parse_daemon_args :: "string list \<Rightarrow> bool \<Rightarrow> string list \<Rightarrow> daemon_args" where
  "parse_daemon_args [] demonize logs = DaemonArgs demonize logs"
| "parse_daemon_args (a # as) demonize logs =
     (if strcaseeq a ''--help'' \<or> strcaseeq a ''-h'' then DaemonHelp
      else if strcaseeq a ''--log'' \<or> strcaseeq a ''-l''
      then parse_daemon_args as demonize (logs @ (case as of [] \<Rightarrow> [] | f # _ \<Rightarrow> [f]))
      else if strcaseeq a ''--daemon'' \<or> strcaseeq a ''-d'' then parse_daemon_args as True logs
      else parse_daemon_args as demonize logs)"

section \<open>The slots are steps of the model\<close>

lemma valid_channel:
  assumes "isValidChannel (QV_String ch)"
  shows "to_upper ch ! 0 = CHR ''*'' \<or> house_letter (to_upper ch ! 0)"
proof -
  from assms obtain c where c: "ch = [c]" by (cases ch) (auto simp: isValidChannel_def)
  have "upper_char CHR ''*'' = CHR ''*''" by (simp add: upper_char_def)
  with assms c show ?thesis by (auto simp: isValidChannel_def to_upper_def)
qed

lemma valid_unit: "isValidUnit q (QV_UInt u) \<Longrightarrow> 0 \<le> wrap32 u \<and> wrap32 u \<le> 16"
  by (simp add: isValidUnit_def)

lemma send_request:
  assumes "svc_Send depth q now ch u command s = Some s'" and "s' \<noteq> s"
  shows "\<exists>c. request_ok c \<and> QueueCommand depth q now c s = Some s'"
proof -
  from assms obtain t where v: "isValidChannel (QV_String ch)" "isValidUnit q (QV_UInt u)"
    and c: "QueueCommand depth q now (COMMAND_new now (to_upper ch ! 0) (wrap32 u) t (-1)) s = Some s'"
    by (auto simp: svc_Send_def QueueCommand_new_def split: if_splits option.splits)
  have "request_ok (COMMAND_new now (to_upper ch ! 0) (wrap32 u) t (-1))"
    using valid_channel [OF v(1)] valid_unit [OF v(2)] by (simp add: request_ok_def level_ok_def MAX_VALUE_def)
  with c show ?thesis by blast
qed

lemma set_request:
  assumes "svc_Set depth q now ch u v s = Some s'" and "s' \<noteq> s"
  shows "\<exists>c. request_ok c \<and> QueueCommand depth q now c s = Some s'"
proof -
  from assms have v: "isValidChannel (QV_String ch)" "isValidUnit q (QV_UInt u)" "isValidValue q (QV_Int v)"
    and c: "QueueCommand depth q now (COMMAND_new now (to_upper ch ! 0) (wrap32 u) CMD_SET v) s = Some s'"
    by (auto simp: svc_Set_def QueueCommand_new_def split: if_splits)
  have "request_ok (COMMAND_new now (to_upper ch ! 0) (wrap32 u) CMD_SET v)"
    using valid_channel [OF v(1)] valid_unit [OF v(2)] v(3)
    by (simp add: request_ok_def level_ok_def isValidValue_def)
  with c show ?thesis by blast
qed

section \<open>Properties\<close>

text \<open>The calls of the bus are steps of the service: where \<open>Send\<close> and \<open>Set\<close> change the state,
  the state that results is reachable, so that the invariant of the service holds for it; where
  an argument is not valid, nothing changes.\<close>

lemma bus_calls_stay_reachable:
  assumes "reachable q lt ini garbage w" and "unlocked (wplace w)"
    and "svc_Send depth q now ch u command (wq w) = Some s \<or> svc_Set depth q now ch u v (wq w) = Some s"
  shows "reachable q lt ini garbage (w\<lparr>wq := s\<rparr>)"
proof (cases "s = wq w")
  case True
  then show ?thesis using assms(1) by simp
next
  case False
  with assms(3) obtain c where "request_ok c" and "QueueCommand depth q now c (wq w) = Some s"
    using send_request set_request by metis
  then have "wstep q lt w (w\<lparr>wq := s\<rparr>)" by (intro wstep.queue_command [OF assms(2)])
  with assms(1) show ?thesis by (rule reachable.step)
qed

text \<open>Every property a client tries to set is announced to all clients with the value it asked for,
  also where the property cannot be set and nothing changed.\<close>

lemma rejected_properties_are_announced:
  assumes "name \<noteq> PROPERTY_SMARTQUEUE" and "name \<noteq> PROPERTY_RULES"
  shows "svc_SetProperty q lt clk isWritable name v ini files s = ([PropertyUpdated name v], ini, files, s)"
  using assms by (simp add: svc_SetProperty_def qm_SetProperty_def)

text \<open>The rules and the smart-queue flag that a client sets are what it reads back: the flag
  as 1 or 0, the rules rule by rule with addresses in upper case.\<close>

lemma properties_read_back:
  assumes "qt_number_ok q" and "list_all rule_text_ok rs"
    and "svc_SetProperty q lt clk isWritable PROPERTY_RULES (serializedRules rs) ini files s = (evs, ini', files', s')"
  shows "svc_GetProperty PROPERTY_RULES s' =
      serializedRules (map (normalise q (Rule_new lt (clk 0))) rs)
    \<and> svc_GetProperty PROPERTY_SMARTQUEUE s' = svc_GetProperty PROPERTY_SMARTQUEUE s"
proof -
  have "s' = s\<lparr>ruleManager := rm_Deserialize q lt clk (serializedRules rs) (ruleManager s)\<rparr>"
    using assms(3)
    by (simp add: svc_SetProperty_def qm_SetProperty_def PROPERTY_RULES_def PROPERTY_SMARTQUEUE_def Let_def)
  then show ?thesis
    using deserializeRules_serializedRules [OF assms(1,2)]
    by (simp add: svc_GetProperty_def RulesList_def rm_GetRules_def rm_Deserialize_def updateNextExecution_sel
        PROPERTY_RULES_def PROPERTY_SMARTQUEUE_def PROPERTY_STATUS_def PROPERTY_NODES_def)
qed

end
