(* ===== verification/X10_Interface.thy ===== *)
theory X10_Interface
  imports X10_Service "HOL-Library.Monad_Syntax"
begin

text \<open>
  \<open>common/interfacehandler.h\<close> and \<open>.cpp\<close>: the connection to the bus that the data engine and
  the command line share, with its reconnection, and the calls the clients make on it. The bus
  is the environment: \<open>bus n c\<close> is what the \<open>n\<close>-th call of this process, which is \<open>c\<close>, is
  answered. The calls made so far are kept in the state.
\<close>

datatype bus_call =
  B_Start | B_Stop | B_Restart | B_Reload | B_Quit | B_AllOn | B_AllOff
| B_Send string int string
| B_Set string int int
| B_GetValue string
| B_GetProperty string
| B_SetProperty string string

datatype bus_reply = NoReply | Reply | Reply_int int | Reply_string string

type_synonym bus = "nat \<Rightarrow> bus_call \<Rightarrow> bus_reply"

text \<open>
  \<open>QDBusPendingReply<int>\<close> and \<open>QDBusPendingReply<QString>\<close> are valid when the answer has that
  type, \<open>QDBusPendingReply<void>\<close> when there is no error.
\<close>

fun reply_int :: "bus_reply \<Rightarrow> int option" where
  "reply_int (Reply_int i) = Some i"
| "reply_int _ = None"

fun reply_string :: "bus_reply \<Rightarrow> string option" where
  "reply_string (Reply_string s) = Some s"
| "reply_string _ = None"

datatype dbus_target = SystemBus | AddressBus string

definition PROPERTY_CONTROLLER_STR :: string where "PROPERTY_CONTROLLER_STR = ''Controller''"
definition PROPERTY_CONTROLLER_STATUS :: string where
  "PROPERTY_CONTROLLER_STATUS = ''ControllerStatus''"
definition PROPVAL_CONTROLLER_SYSTEMDBUS :: string where
  "PROPVAL_CONTROLLER_SYSTEMDBUS = ''System DBUS''"

text \<open>A null pointer is \<open>None\<close> for the connection and \<open>False\<close> for the interface object.\<close>

record IDBus =
  m_dbusName :: string
  m_dbusNameIndex :: nat
  m_dbusConnection :: "dbus_target option"
  m_dbusInterface :: bool
  m_dbusLocation :: string
  calls :: "bus_call list"

definition IDBus_new :: IDBus where
  "IDBus_new = \<lparr>m_dbusName = [], m_dbusNameIndex = 0, m_dbusConnection = None,
                 m_dbusInterface = False, m_dbusLocation = [], calls = []\<rparr>"

text \<open>A call through the interface object, which must not be null: \<open>None\<close> is the null access.\<close>

definition bus_do :: "bus \<Rightarrow> bus_call \<Rightarrow> IDBus \<Rightarrow> (bus_reply \<times> IDBus) option" where
  "bus_do bus c d =
     (if m_dbusInterface d then Some (bus (length (calls d)) c, d\<lparr>calls := calls d @ [c]\<rparr>) else None)"

definition isConnected :: "bus \<Rightarrow> IDBus \<Rightarrow> (bool \<times> IDBus) option" where
  "isConnected bus d = do {
     (r, d) \<leftarrow> bus_do bus (B_GetProperty PROPERTY_STATUS) d;
     Some (reply_string r \<noteq> None, d)
   }"

text \<open>
  \<open>Connect\<close> returns true and the signals \<open>PropertyUpdated\<close> it emits, as pairs. It asks for the
  connection twice, for the log and for the signal; \<open>QString(isConnected())\<close> is the string of
  one character whose code is the flag.
\<close>

definition flag_text :: "bool \<Rightarrow> string" where
  "flag_text b = [if b then CHR 0x01 else CHR 0x00]"

definition IDBus_location :: "Config \<Rightarrow> string" where
  "IDBus_location c =
     (if USE_LOCAL_SYSTEM_BUS c then PROPVAL_CONTROLLER_SYSTEMDBUS
      else CONTROLLER_HOST c @ '':'' @ dec_int (CONTROLLER_PORT c))"

definition IDBus_Connect ::
    "Config \<Rightarrow> bus \<Rightarrow> IDBus \<Rightarrow> (bool \<times> (string \<times> string) list \<times> IDBus) option" where
  "IDBus_Connect config bus d =
     (let newDbusLocation = IDBus_location config;
          locationChanged = (m_dbusLocation d \<noteq> newDbusLocation);
          d = d\<lparr>m_dbusLocation := newDbusLocation,
                 m_dbusName := ''x10bus'' @ dec_nat (m_dbusNameIndex d),
                 m_dbusNameIndex := Suc (m_dbusNameIndex d),
                 m_dbusConnection := Some (if USE_LOCAL_SYSTEM_BUS config then SystemBus
                                           else AddressBus (DBUS_ADDRESS config)),
                 m_dbusInterface := True\<rparr>
      in do {
        (_, d) \<leftarrow> isConnected bus d;
        (connected, d) \<leftarrow> isConnected bus d;
        Some (True,
              (if locationChanged then [(PROPERTY_CONTROLLER_STR, m_dbusLocation d)] else [])
                @ [(PROPERTY_CONTROLLER_STATUS, flag_text connected)],
              d)
      })"

definition IDBus_Disconnect :: "IDBus \<Rightarrow> IDBus" where
  "IDBus_Disconnect d = d\<lparr>m_dbusInterface := False, m_dbusConnection := None\<rparr>"

definition IDBus_Reconnect ::
    "Config \<Rightarrow> bus \<Rightarrow> IDBus \<Rightarrow> (bool \<times> (string \<times> string) list \<times> IDBus) option" where
  "IDBus_Reconnect config bus d = do {
     (connected, d) \<leftarrow> isConnected bus d;
     if connected then Some (True, [], d)
     else IDBus_Connect config bus (IDBus_Disconnect d)
   }"

text \<open>\<open>iX10\<close>: the interface object, made on demand.\<close>

definition IDBus_iX10 ::
    "Config \<Rightarrow> bus \<Rightarrow> IDBus \<Rightarrow> ((string \<times> string) list \<times> IDBus) option" where
  "IDBus_iX10 config bus d =
     (if m_dbusInterface d then Some ([], d)
      else do { (_, evs, d) \<leftarrow> IDBus_Connect config bus d; Some (evs, d) })"

text \<open>The three slots repeat the signals of the bus; \<open>RestartedDBUS\<close> is not connected.\<close>

fun IDBus_relay :: "svc_event \<Rightarrow> svc_event list" where
  "IDBus_relay RestartedDBUS = []"
| "IDBus_relay (SvcCommandCompleted ch u c v) = [SvcCommandCompleted ch u c v]"
| "IDBus_relay (PropertyUpdated p v) = [PropertyUpdated p v]"
| "IDBus_relay (SvcSourceUpdated s v) = [SvcSourceUpdated s v]"

section \<open>Lemmas\<close>

text \<open>The calls a run adds, in order.\<close>

definition only_asks :: "IDBus \<Rightarrow> IDBus \<Rightarrow> bool" where
  "only_asks d d' \<longleftrightarrow> (\<exists>n. calls d' = calls d @ replicate n (B_GetProperty PROPERTY_STATUS))"

lemma only_asks_refl [simp]: "only_asks d d"
  by (simp add: only_asks_def)

lemma only_asks_trans: "only_asks a b \<Longrightarrow> only_asks b c \<Longrightarrow> only_asks a c"
  by (auto simp: only_asks_def) (metis replicate_add)

lemma bus_do_Some:
  "m_dbusInterface d \<Longrightarrow> bus_do bus c d = Some (bus (length (calls d)) c, d\<lparr>calls := calls d @ [c]\<rparr>)"
  by (simp add: bus_do_def)

lemma isConnected_Some:
  assumes "m_dbusInterface d"
  shows "\<exists>c d'. isConnected bus d = Some (c, d') \<and> m_dbusInterface d' \<and> only_asks d d'
           \<and> m_dbusLocation d' = m_dbusLocation d"
  using assms
  by (simp add: isConnected_def bus_do_Some only_asks_def) (rule exI [of _ 1], simp)

lemma IDBus_Connect_Some:
  "\<exists>evs d'. IDBus_Connect config bus d = Some (True, evs, d') \<and> m_dbusInterface d' \<and> only_asks d d'
     \<and> m_dbusLocation d' = IDBus_location config"
proof -
  let ?d0 = "d\<lparr>m_dbusLocation := IDBus_location config,
                 m_dbusName := ''x10bus'' @ dec_nat (m_dbusNameIndex d),
                 m_dbusNameIndex := Suc (m_dbusNameIndex d),
                 m_dbusConnection := Some (if USE_LOCAL_SYSTEM_BUS config then SystemBus
                                           else AddressBus (DBUS_ADDRESS config)),
                 m_dbusInterface := True\<rparr>"
  obtain c1 d1 where 1: "isConnected bus ?d0 = Some (c1, d1)" "m_dbusInterface d1" "only_asks ?d0 d1"
      "m_dbusLocation d1 = IDBus_location config"
    using isConnected_Some [of ?d0 bus] by auto
  obtain c2 d2 where 2: "isConnected bus d1 = Some (c2, d2)" "m_dbusInterface d2" "only_asks d1 d2"
      "m_dbusLocation d2 = IDBus_location config"
    using isConnected_Some [OF 1(2), of bus] 1(4) by auto
  have "only_asks d d1" using 1(3) by (simp add: only_asks_def)
  with 2(3) have "only_asks d d2" by (blast intro: only_asks_trans)
  with 1 2 show ?thesis by (simp add: IDBus_Connect_def Let_def)
qed

lemma IDBus_Reconnect_Some:
  assumes "m_dbusInterface d"
  shows "\<exists>evs d'. IDBus_Reconnect config bus d = Some (True, evs, d') \<and> m_dbusInterface d' \<and> only_asks d d'"
proof -
  obtain c d1 where 1: "isConnected bus d = Some (c, d1)" "m_dbusInterface d1" "only_asks d d1"
    using isConnected_Some [OF assms, of bus] by auto
  show ?thesis
  proof (cases c)
    case True
    with 1 show ?thesis by (simp add: IDBus_Reconnect_def)
  next
    case False
    obtain evs d2 where 2: "IDBus_Connect config bus (IDBus_Disconnect d1) = Some (True, evs, d2)"
        "m_dbusInterface d2" "only_asks (IDBus_Disconnect d1) d2"
      using IDBus_Connect_Some [of config bus "IDBus_Disconnect d1"] by auto
    from 2(3) have "only_asks d1 d2" by (simp add: only_asks_def IDBus_Disconnect_def)
    with 1 2 False show ?thesis by (auto simp: IDBus_Reconnect_def intro: only_asks_trans)
  qed
qed

lemma IDBus_iX10_Some:
  "\<exists>evs d'. IDBus_iX10 config bus d = Some (evs, d') \<and> m_dbusInterface d' \<and> only_asks d d'"
  using IDBus_Connect_Some [of config bus d] by (auto simp: IDBus_iX10_def)

text \<open>
  What the queue manager makes of a call: a \<open>Send\<close> or \<open>Set\<close> is accepted when the slot of the
  service queues a command for it, whatever the state.
\<close>

definition accepted :: "qt_number \<Rightarrow> bus_call \<Rightarrow> bool" where
  "accepted q c =
     (case c of
        B_Send ch u s \<Rightarrow> \<exists>cmd. \<forall>depth now qm. request_ok cmd \<and>
          svc_Send depth q now ch u s qm = QueueCommand depth q now (cmd\<lparr>created := now\<rparr>) qm
      | B_Set ch u v \<Rightarrow> \<exists>cmd. \<forall>depth now qm. request_ok cmd \<and>
          svc_Set depth q now ch u v qm = QueueCommand depth q now (cmd\<lparr>created := now\<rparr>) qm
      | _ \<Rightarrow> True)"

lemma COMMAND_new_created: "(COMMAND_new a ch u t v)\<lparr>created := now\<rparr> = COMMAND_new now ch u t v"
  by (simp add: COMMAND_new_def)

lemma accepted_Send:
  assumes "isValidChannel (QV_String ch)" and "0 \<le> u" and "u \<le> 16" and "isValidCommand (QV_String s)"
  shows "accepted q (B_Send ch u s)"
proof -
  from assms(4) obtain t where t: "s = [cmd_char t]" by (auto simp: isValidCommand_iff)
  have u: "wrap32 u = u" using assms(2,3) by (intro wrap32_id) (simp add: in_int_def INT_MIN_def INT_MAX_def)
  have "request_ok (COMMAND_new 0 (to_upper ch ! 0) u t (-1))"
    using valid_channel [OF assms(1)] assms(2,3) by (simp add: request_ok_def level_ok_def MAX_VALUE_def)
  moreover have "isValidUnit q (QV_UInt u)" using u assms(2,3) by (simp add: isValidUnit_def)
  ultimately show ?thesis
    unfolding accepted_def bus_call.case
    by (intro exI [of _ "COMMAND_new 0 (to_upper ch ! 0) u t (-1)"])
       (simp add: svc_Send_def QueueCommand_new_def assms(1) assms(4) [unfolded t] t u COMMAND_new_created)
qed

lemma accepted_Set:
  assumes "isValidChannel (QV_String ch)" and "0 \<le> u" and "u \<le> 16" and "level_ok v"
  shows "accepted q (B_Set ch u v)"
proof -
  have u: "wrap32 u = u" using assms(2,3) by (intro wrap32_id) (simp add: in_int_def INT_MIN_def INT_MAX_def)
  have "request_ok (COMMAND_new 0 (to_upper ch ! 0) u CMD_SET v)"
    using valid_channel [OF assms(1)] assms(2,3,4) by (simp add: request_ok_def)
  moreover have "isValidUnit q (QV_UInt u)" and "isValidValue q (QV_Int v)"
    using u assms(2-4) by (simp_all add: isValidUnit_def isValidValue_def level_ok_def)
  ultimately show ?thesis
    unfolding accepted_def bus_call.case
    by (intro exI [of _ "COMMAND_new 0 (to_upper ch ! 0) u CMD_SET v"])
       (simp add: svc_Set_def QueueCommand_new_def assms(1) u COMMAND_new_created)
qed

lemma accepted_other [simp]:
  "accepted q B_Start" "accepted q B_Stop" "accepted q B_Restart" "accepted q B_Reload"
  "accepted q B_Quit" "accepted q B_AllOn" "accepted q B_AllOff" "accepted q (B_GetValue s)"
  "accepted q (B_GetProperty p)" "accepted q (B_SetProperty p v)"
  by (simp_all add: accepted_def)

lemma only_asks_accepted:
  "only_asks d d' \<Longrightarrow> list_all (accepted q) (calls d) \<Longrightarrow> list_all (accepted q) (calls d')"
  by (auto simp: only_asks_def list_all_iff)

end
