(* ===== verification/X10_Engine.thy ===== *)
theory X10_Engine
  imports X10_Interface
begin

text \<open>
  \<open>widget/data_engine/engine.cpp\<close> and \<open>container.cpp\<close>: the data engine of the desktop. It keeps
  a container for each address that was asked for, publishes its level, and follows the signals
  of the service. Plasma, the desktop's library, is seen through two of its calls: \<open>setData\<close>
  stores a value under a source and a key, \<open>addSource\<close> registers a container.
\<close>

definition SOURCE_HELP :: string where "SOURCE_HELP = ''help''"
definition SOURCE_PROPERTIES :: string where "SOURCE_PROPERTIES = ''properties''"

record EngineContainer =
  objectName :: string
  evalue :: int

definition EngineContainer_new :: "string \<Rightarrow> EngineContainer" where
  "EngineContainer_new source = \<lparr>objectName = source, evalue = -1\<rparr>"

record X10Engine =
  eContainers :: "EngineContainer store"
  m_dbus :: IDBus
  published :: "string \<Rightarrow> string \<Rightarrow> QVariant option"
  added :: "string list"

text \<open>What the engine works with: Qt's reading of numbers, the configuration and the bus.\<close>

record engine_env =
  e_number :: qt_number
  e_config :: Config
  e_bus :: bus

definition setData :: "string \<Rightarrow> string \<Rightarrow> QVariant \<Rightarrow> X10Engine \<Rightarrow> X10Engine" where
  "setData source key v e =
     e\<lparr>published := (published e)(source := (published e source)(key \<mapsto> v))\<rparr>"

definition addSource :: "string \<Rightarrow> X10Engine \<Rightarrow> X10Engine" where
  "addSource source e = e\<lparr>added := added e @ [source]\<rparr>"

section \<open>Operations\<close>

definition engine_NodesList :: "X10Engine \<Rightarrow> string" where
  "engine_NodesList e = concat (map (\<lambda>k. k @ '' '') (st_keys (eContainers e)))"

definition onPropertyUpdated :: "string \<Rightarrow> string \<Rightarrow> X10Engine \<Rightarrow> X10Engine" where
  "onPropertyUpdated property v e = setData SOURCE_PROPERTIES property (QV_String v) e"

definition on_signals :: "(string \<times> string) list \<Rightarrow> X10Engine \<Rightarrow> X10Engine" where
  "on_signals evs e = fold (\<lambda>(p, v). onPropertyUpdated p v) evs e"

text \<open>The signals that a reconnection emits arrive in the slot before the call returns.\<close>

definition engine_Reconnect :: "engine_env \<Rightarrow> X10Engine \<Rightarrow> (bool \<times> X10Engine) option" where
  "engine_Reconnect env e = do {
     (ok, evs, d) \<leftarrow> IDBus_Reconnect (e_config env) (e_bus env) (m_dbus e);
     Some (ok, on_signals evs (e\<lparr>m_dbus := d\<rparr>))
   }"

text \<open>A call on \<open>m_dbus->iX10()\<close>.\<close>

definition engine_call :: "engine_env \<Rightarrow> bus_call \<Rightarrow> X10Engine \<Rightarrow> (bus_reply \<times> X10Engine) option" where
  "engine_call env c e = do {
     (evs, d) \<leftarrow> IDBus_iX10 (e_config env) (e_bus env) (m_dbus e);
     (r, d) \<leftarrow> bus_do (e_bus env) c d;
     Some (r, on_signals evs (e\<lparr>m_dbus := d\<rparr>))
   }"

definition FetchValue :: "engine_env \<Rightarrow> string \<Rightarrow> X10Engine \<Rightarrow> (int option \<times> X10Engine) option" where
  "FetchValue env source e = do {
     (r, e) \<leftarrow> engine_call env (B_GetValue source) e;
     case reply_int r of
       Some v \<Rightarrow> Some (Some v, e)
     | None \<Rightarrow> do { (_, e) \<leftarrow> engine_Reconnect env e; Some (None, e) }
   }"

definition FetchProperty ::
    "engine_env \<Rightarrow> string \<Rightarrow> X10Engine \<Rightarrow> (string option \<times> X10Engine) option" where
  "FetchProperty env name e = do {
     (r, e) \<leftarrow> engine_call env (B_GetProperty name) e;
     case reply_string r of
       Some (c # cs) \<Rightarrow> Some (Some (c # cs), e)
     | _ \<Rightarrow> do { (_, e) \<leftarrow> engine_Reconnect env e; Some (None, e) }
   }"

text \<open>
  \<open>Container::SetValue\<close> and \<open>updateInfo\<close> call \<open>updateSourceEvent\<close> back, so that they and
  \<open>addX10Source\<close> take it as the argument \<open>upd\<close>; below it is \<open>updateSourceEvent\<close> itself one
  stack frame deeper.
\<close>

definition updateInfo ::
    "(string \<Rightarrow> X10Engine \<Rightarrow> (bool \<times> X10Engine) option) \<Rightarrow> EngineContainer \<Rightarrow> X10Engine
       \<Rightarrow> X10Engine option" where
  "updateInfo upd c e = map_option snd (upd (objectName c) e)"

definition EngineContainer_SetValue ::
    "(string \<Rightarrow> X10Engine \<Rightarrow> (bool \<times> X10Engine) option) \<Rightarrow> string \<Rightarrow> int \<Rightarrow> X10Engine
       \<Rightarrow> X10Engine option" where
  "EngineContainer_SetValue upd k v e =
     (case st_find (eContainers e) k of
        None \<Rightarrow> None
      | Some c \<Rightarrow>
          let c' = c\<lparr>evalue := v\<rparr>
          in updateInfo upd c' (e\<lparr>eContainers := st_put k c' (eContainers e)\<rparr>))"

definition addX10Source ::
    "(string \<Rightarrow> X10Engine \<Rightarrow> (bool \<times> X10Engine) option) \<Rightarrow> engine_env \<Rightarrow> string \<Rightarrow> X10Engine
       \<Rightarrow> X10Engine option" where
  "addX10Source upd env source e =
     (case st_find (eContainers e) source of
        None \<Rightarrow> do {
          (r, e) \<leftarrow> FetchValue env source
                      (e\<lparr>eContainers := st_put source (EngineContainer_new source) (eContainers e)\<rparr>);
          e \<leftarrow> (case r of Some v \<Rightarrow> EngineContainer_SetValue upd source v e | None \<Rightarrow> Some e);
          let e = addSource source e in
            Some (setData SOURCE_PROPERTIES PROPERTY_NODES (QV_String (engine_NodesList e)) e)
        }
      | Some c \<Rightarrow> Some (addSource (objectName c) e))"

definition help_text :: string where
  "help_text =
     ''Use an address 'e5' to get information for that address.'' @ [CHR 0x0A] @
     ''Use 'properties' to get a list of all properties that may be returned.''"

text \<open>One of the three fetched properties of the source \<open>properties\<close>.\<close>

definition fetch_into :: "engine_env \<Rightarrow> string \<Rightarrow> X10Engine \<Rightarrow> X10Engine option" where
  "fetch_into env name e = do {
     (r, e) \<leftarrow> FetchProperty env name e;
     Some (case r of Some v \<Rightarrow> setData SOURCE_PROPERTIES name (QV_String v) e | None \<Rightarrow> e)
   }"

definition update_properties :: "engine_env \<Rightarrow> X10Engine \<Rightarrow> (bool \<times> X10Engine) option" where
  "update_properties env e = do {
     e \<leftarrow> fetch_into env PROPERTY_STATUS e;
     e \<leftarrow> fetch_into env PROPERTY_SMARTQUEUE e;
     e \<leftarrow> fetch_into env PROPERTY_RULES e;
     let e = setData SOURCE_PROPERTIES PROPERTY_NODES (QV_String (engine_NodesList e)) e;
     let e = setData SOURCE_PROPERTIES PROPERTY_CONTROLLER_STR
               (QV_String (m_dbusLocation (m_dbus e))) e;
     (c, d) \<leftarrow> isConnected (e_bus env) (m_dbus e);
     Some (True, setData SOURCE_PROPERTIES PROPERTY_CONTROLLER_STATUS (QV_Bool c) (e\<lparr>m_dbus := d\<rparr>))
   }"

text \<open>The first argument is the depth of the stack; no result is a stack overflow or a null access.\<close>

fun updateSourceEvent :: "nat \<Rightarrow> engine_env \<Rightarrow> string \<Rightarrow> X10Engine \<Rightarrow> (bool \<times> X10Engine) option" where
  "updateSourceEvent 0 env source e = None"
| "updateSourceEvent (Suc depth) env source e =
     (if source = SOURCE_HELP then Some (True, setData SOURCE_HELP SOURCE_HELP (QV_String help_text) e)
      else if source = SOURCE_PROPERTIES then update_properties env e
      else if isValidAddress (e_number env) source then do {
        e \<leftarrow> (if st_find (eContainers e) source = None
              then addX10Source (updateSourceEvent depth env) env source e else Some e);
        c \<leftarrow> st_find (eContainers e) source;
        Some (True, setData source ''Value'' (QV_Int (evalue c)) e)
      }
      else Some (False, e))"

declare updateSourceEvent.simps [simp del]

definition sourceRequestEvent ::
    "nat \<Rightarrow> engine_env \<Rightarrow> string \<Rightarrow> X10Engine \<Rightarrow> (bool \<times> X10Engine) option" where
  "sourceRequestEvent depth env source e = updateSourceEvent depth env source e"

definition onSourceUpdated :: "nat \<Rightarrow> engine_env \<Rightarrow> string \<Rightarrow> int \<Rightarrow> X10Engine \<Rightarrow> X10Engine option" where
  "onSourceUpdated depth env source v e =
     (if st_find (eContainers e) source \<noteq> None
      then EngineContainer_SetValue (updateSourceEvent depth env) source v e else Some e)"

definition onCommandCompleted :: "string \<Rightarrow> int \<Rightarrow> string \<Rightarrow> int \<Rightarrow> X10Engine \<Rightarrow> X10Engine" where
  "onCommandCompleted ch u command v e =
     (let source = ch @ dec_int u
      in if st_find (eContainers e) source \<noteq> None
         then setData source ''LatestCmd'' (QV_String (command @ dec_int v)) e else e)"

definition sourceWasRemoved :: "engine_env \<Rightarrow> string \<Rightarrow> X10Engine \<Rightarrow> X10Engine" where
  "sourceWasRemoved env source e =
     (if isValidAddress (e_number env) source \<and> st_find (eContainers e) source \<noteq> None
      then let e = e\<lparr>eContainers := st_erase source (eContainers e)\<rparr>
           in setData SOURCE_PROPERTIES PROPERTY_NODES (QV_String (engine_NodesList e)) e
      else e)"

definition updateAllSources :: "nat \<Rightarrow> engine_env \<Rightarrow> X10Engine \<Rightarrow> X10Engine option" where
  "updateAllSources depth env e =
     fold_opt (\<lambda>k e. map_option snd (updateSourceEvent depth env k e)) (st_keys (eContainers e)) e"

text \<open>The constructor connects its slots first and then connects to the bus; then \<open>init\<close>.\<close>

definition X10Engine_new :: "engine_env \<Rightarrow> IDBus \<Rightarrow> X10Engine option" where
  "X10Engine_new env d0 = do {
     (_, evs, d) \<leftarrow> IDBus_Connect (e_config env) (e_bus env) d0;
     Some (on_signals evs \<lparr>eContainers = [], m_dbus = d, published = (\<lambda>_ _. None), added = []\<rparr>)
   }"

definition engine_init :: "nat \<Rightarrow> engine_env \<Rightarrow> X10Engine \<Rightarrow> X10Engine option" where
  "engine_init depth env e = map_option snd (updateSourceEvent depth env SOURCE_PROPERTIES e)"

text \<open>What arrives from the bus, through the three slots.\<close>

fun engine_on_event :: "nat \<Rightarrow> engine_env \<Rightarrow> svc_event \<Rightarrow> X10Engine \<Rightarrow> X10Engine option" where
  "engine_on_event depth env (SvcSourceUpdated k v) e = onSourceUpdated depth env k v e"
| "engine_on_event depth env (PropertyUpdated p v) e = Some (onPropertyUpdated p v e)"
| "engine_on_event depth env (SvcCommandCompleted ch u c v) e = Some (onCommandCompleted ch u c v e)"
| "engine_on_event depth env RestartedDBUS e = Some e"

end
