(* ===== verification/X10_Engine_Laws.thy ===== *)
theory X10_Engine_Laws
  imports X10_Engine
begin

text \<open>
  What the data engine promises: its invariant, that its operations end with a stack of two
  calls, and that what it publishes for an address follows the reports of the service.
\<close>

definition engine_inv :: "engine_env \<Rightarrow> X10Engine \<Rightarrow> bool" where
  "engine_inv env e \<longleftrightarrow>
     st_inv (eContainers e) \<and> m_dbusInterface (m_dbus e) \<and>
     (\<forall>k c. st_find (eContainers e) k = Some c \<longrightarrow> objectName c = k \<and> isValidAddress (e_number env) k)"

lemma engine_invD:
  assumes "engine_inv env e"
  shows "st_inv (eContainers e)" and "m_dbusInterface (m_dbus e)"
    and "st_find (eContainers e) k = Some c \<Longrightarrow> objectName c = k"
    and "st_find (eContainers e) k = Some c \<Longrightarrow> isValidAddress (e_number env) k"
  using assms by (auto simp: engine_inv_def)

lemma not_addresses:
  "\<not> isValidAddress q SOURCE_HELP" "\<not> isValidAddress q SOURCE_PROPERTIES"
  by (simp_all add: isValidAddress_iff SOURCE_HELP_def SOURCE_PROPERTIES_def)

lemma address_is_no_source:
  "isValidAddress q k \<Longrightarrow> k \<noteq> SOURCE_HELP \<and> k \<noteq> SOURCE_PROPERTIES"
  using not_addresses by auto

section \<open>What the small operations leave alone\<close>

lemma setData_sel [simp]:
  "eContainers (setData s k v e) = eContainers e" "m_dbus (setData s k v e) = m_dbus e"
  "published (setData s k v e) s' k' = (if s' = s \<and> k' = k then Some v else published e s' k')"
  by (auto simp: setData_def)

lemma addSource_sel [simp]:
  "eContainers (addSource s e) = eContainers e" "m_dbus (addSource s e) = m_dbus e"
  "published (addSource s e) = published e"
  by (simp_all add: addSource_def)

lemma engine_inv_frame:
  "eContainers e' = eContainers e \<Longrightarrow> m_dbusInterface (m_dbus e') \<Longrightarrow> engine_inv env e \<Longrightarrow> engine_inv env e'"
  by (simp add: engine_inv_def)

lemma setData_inv [x10_inv]: "engine_inv env e \<Longrightarrow> engine_inv env (setData s k v e)"
  by (rule engine_inv_frame [of _ e]) (simp_all add: engine_invD)

lemma addSource_inv [x10_inv]: "engine_inv env e \<Longrightarrow> engine_inv env (addSource s e)"
  by (rule engine_inv_frame [of _ e]) (simp_all add: engine_invD)

text \<open>
  An operation that only talks to the bus: the containers stay, and only the source
  \<open>properties\<close> is written.
\<close>

definition talks :: "X10Engine \<Rightarrow> X10Engine \<Rightarrow> bool" where
  "talks e e' \<longleftrightarrow>
     eContainers e' = eContainers e \<and> m_dbusInterface (m_dbus e') \<and>
     (\<forall>s. s \<noteq> SOURCE_PROPERTIES \<longrightarrow> published e' s = published e s)"

lemma talks_dbus: "talks e e' \<Longrightarrow> m_dbusInterface (m_dbus e')"
  by (simp add: talks_def)

lemma talks_trans: "talks a b \<Longrightarrow> talks b c \<Longrightarrow> talks a c"
  by (simp add: talks_def)

lemma talks_inv: "talks e e' \<Longrightarrow> engine_inv env e \<Longrightarrow> engine_inv env e'"
  by (simp add: talks_def engine_inv_def)

lemma talks_setData: "talks e e' \<Longrightarrow> talks e (setData SOURCE_PROPERTIES k v e')"
  by (auto simp: talks_def setData_def)

lemma on_signals_talks: "m_dbusInterface (m_dbus e) \<Longrightarrow> talks e (on_signals evs e)"
proof (induction evs arbitrary: e)
  case Nil
  then show ?case by (simp add: on_signals_def talks_def)
next
  case (Cons p evs)
  obtain n v where p: "p = (n, v)" by (cases p)
  have "talks (onPropertyUpdated n v e) (on_signals evs (onPropertyUpdated n v e))"
    using Cons by (intro Cons.IH) (simp add: onPropertyUpdated_def)
  moreover have "talks e (onPropertyUpdated n v e)"
    using Cons.prems by (simp add: onPropertyUpdated_def talks_def setData_def)
  ultimately show ?case by (simp add: p on_signals_def) (rule talks_trans)
qed

lemma on_signals_dbus: "m_dbus (on_signals evs e) = m_dbus e"
  by (induction evs arbitrary: e) (auto simp: on_signals_def onPropertyUpdated_def)

text \<open>In addition the calls made so far grow by questions for the status only.\<close>

lemma engine_Reconnect_Some:
  assumes "m_dbusInterface (m_dbus e)"
  shows "\<exists>e'. engine_Reconnect env e = Some (True, e') \<and> talks e e' \<and> only_asks (m_dbus e) (m_dbus e')"
proof -
  obtain evs d where d: "IDBus_Reconnect (e_config env) (e_bus env) (m_dbus e) = Some (True, evs, d)"
      "m_dbusInterface d" "only_asks (m_dbus e) d"
    using IDBus_Reconnect_Some [OF assms] by blast
  have "talks (e\<lparr>m_dbus := d\<rparr>) (on_signals evs (e\<lparr>m_dbus := d\<rparr>))"
    using d(2) by (intro on_signals_talks) simp
  then have "talks e (on_signals evs (e\<lparr>m_dbus := d\<rparr>))" by (simp add: talks_def)
  with d show ?thesis by (simp add: engine_Reconnect_def on_signals_dbus)
qed

lemma engine_call_Some:
  assumes "m_dbusInterface (m_dbus e)"
  shows "\<exists>r e'. engine_call env c e = Some (r, e') \<and> talks e e'
           \<and> calls (m_dbus e') = calls (m_dbus e) @ [c]
           \<and> r = e_bus env (length (calls (m_dbus e))) c"
  using assms
  by (simp add: engine_call_def IDBus_iX10_def bus_do_Some on_signals_def talks_def)

lemma FetchValue_Some:
  assumes "m_dbusInterface (m_dbus e)"
  shows "\<exists>r e'. FetchValue env s e = Some (r, e') \<and> talks e e'"
proof -
  obtain r e1 where 1: "engine_call env (B_GetValue s) e = Some (r, e1)" "talks e e1"
    using engine_call_Some [OF assms] by blast
  then have "m_dbusInterface (m_dbus e1)" by (simp add: talks_def)
  then obtain e2 where 2: "engine_Reconnect env e1 = Some (True, e2)" "talks e1 e2"
    using engine_Reconnect_Some by blast
  show ?thesis
    using 1 2 talks_trans [OF 1(2) 2(2)] by (cases "reply_int r") (simp_all add: FetchValue_def)
qed

lemma FetchProperty_Some:
  assumes "m_dbusInterface (m_dbus e)"
  shows "\<exists>r e'. FetchProperty env s e = Some (r, e') \<and> talks e e'"
proof -
  obtain r e1 where 1: "engine_call env (B_GetProperty s) e = Some (r, e1)" "talks e e1"
    using engine_call_Some [OF assms] by blast
  then have "m_dbusInterface (m_dbus e1)" by (simp add: talks_def)
  then obtain e2 where 2: "engine_Reconnect env e1 = Some (True, e2)" "talks e1 e2"
    using engine_Reconnect_Some by blast
  show ?thesis
    using 1 2 talks_trans [OF 1(2) 2(2)]
    by (auto simp: FetchProperty_def split: option.splits list.splits)
qed

lemma fetch_into_Some:
  assumes "m_dbusInterface (m_dbus e)"
  shows "\<exists>e'. fetch_into env s e = Some e' \<and> talks e e'"
proof -
  obtain r e1 where 1: "FetchProperty env s e = Some (r, e1)" "talks e e1"
    using FetchProperty_Some [OF assms] by blast
  then show ?thesis
    by (cases r) (simp_all add: fetch_into_def talks_setData)
qed

lemma update_properties_Some:
  assumes "m_dbusInterface (m_dbus e)"
  shows "\<exists>e'. update_properties env e = Some (True, e') \<and> talks e e'"
proof -
  obtain e1 where 1: "fetch_into env PROPERTY_STATUS e = Some e1" "talks e e1"
    using fetch_into_Some [OF assms] by blast
  then obtain e2 where 2: "fetch_into env PROPERTY_SMARTQUEUE e1 = Some e2" "talks e1 e2"
    using fetch_into_Some [OF talks_dbus] by blast
  then obtain e3 where 3: "fetch_into env PROPERTY_RULES e2 = Some e3" "talks e2 e3"
    using fetch_into_Some [OF talks_dbus] by blast
  have "talks e e3" using 1(2) 2(2) 3(2) by (blast intro: talks_trans)
  then have t: "talks e (e3\<lparr>m_dbus := d\<rparr>)" if "m_dbusInterface d" for d
    using that by (simp add: talks_def)
  have i: "m_dbusInterface (m_dbus e3)" using 3(2) by (simp add: talks_def)
  obtain c d where c: "isConnected (e_bus env) (m_dbus e3) = Some (c, d)" "m_dbusInterface d"
    using isConnected_Some [OF i] by blast
  show ?thesis
    using 1 2 3 c t [OF c(2)]
    by (auto simp: update_properties_def Let_def talks_def setData_def)
qed

section \<open>Requests end and publish\<close>

text \<open>A request for an address that has a container needs one stack frame.\<close>

lemma update_present:
  assumes "engine_inv env e" and "st_find (eContainers e) k = Some c"
  shows "updateSourceEvent (Suc n) env k e = Some (True, setData k ''Value'' (QV_Int (evalue c)) e)"
  using assms address_is_no_source [OF engine_invD(4) [OF assms]] engine_invD(4) [OF assms]
  by (simp add: updateSourceEvent.simps)

lemma SetValue_present:
  assumes "engine_inv env e" and "st_find (eContainers e) k = Some c"
  shows "EngineContainer_SetValue (updateSourceEvent (Suc n) env) k v e
      = Some (setData k ''Value'' (QV_Int v)
                (e\<lparr>eContainers := st_put k (c\<lparr>evalue := v\<rparr>) (eContainers e)\<rparr>))"
    and "engine_inv env (e\<lparr>eContainers := st_put k (c\<lparr>evalue := v\<rparr>) (eContainers e)\<rparr>)"
proof -
  let ?e = "e\<lparr>eContainers := st_put k (c\<lparr>evalue := v\<rparr>) (eContainers e)\<rparr>"
  have k: "objectName c = k" "isValidAddress (e_number env) k"
    using engine_invD(3,4) [OF assms(1)] assms(2) by auto
  show inv: "engine_inv env ?e"
    using assms(1) k by (auto simp: engine_inv_def cmap.find_put cmap.invar_put)
  have "st_find (eContainers ?e) k = Some (c\<lparr>evalue := v\<rparr>)"
    using assms(1) by (simp add: cmap.find_put_same engine_invD(1))
  from update_present [OF inv this]
  show "EngineContainer_SetValue (updateSourceEvent (Suc n) env) k v e
      = Some (setData k ''Value'' (QV_Int v) ?e)"
    using assms(2) k(1) by (simp add: EngineContainer_SetValue_def updateInfo_def Let_def)
qed

lemma addX10Source_new:
  assumes inv: "engine_inv env e" and k: "isValidAddress (e_number env) k"
    and new: "st_find (eContainers e) k = None"
  shows "\<exists>e' c. addX10Source (updateSourceEvent (Suc n) env) env k e = Some e' \<and> engine_inv env e'
           \<and> st_find (eContainers e') k = Some c"
proof -
  let ?e0 = "e\<lparr>eContainers := st_put k (EngineContainer_new k) (eContainers e)\<rparr>"
  have inv0: "engine_inv env ?e0"
    using inv k by (auto simp: engine_inv_def cmap.find_put cmap.invar_put EngineContainer_new_def)
  obtain r e1 where 1: "FetchValue env k ?e0 = Some (r, e1)" "talks ?e0 e1"
    using FetchValue_Some [of ?e0] engine_invD(2) [OF inv0] by blast
  have inv1: "engine_inv env e1" using 1(2) inv0 by (rule talks_inv)
  have c1: "st_find (eContainers e1) k = Some (EngineContainer_new k)"
    using 1(2) inv by (simp add: talks_def cmap.find_put_same engine_invD(1))
  have "\<exists>e2 c. (case r of Some v \<Rightarrow> EngineContainer_SetValue (updateSourceEvent (Suc n) env) k v e1
                   | None \<Rightarrow> Some e1) = Some e2
           \<and> engine_inv env e2 \<and> st_find (eContainers e2) k = Some c"
  proof (cases r)
    case None
    then show ?thesis using inv1 c1 by simp
  next
    case (Some v)
    then show ?thesis
      using SetValue_present(1) [OF inv1 c1, of n v] SetValue_present(2) [OF inv1 c1, of v] engine_invD(1) [OF inv1]
      by (simp add: setData_inv cmap.find_put_same)
  qed
  then show ?thesis
    using 1(1) new by (auto simp: addX10Source_def Let_def setData_inv addSource_inv)
qed

lemma update_address:
  assumes inv: "engine_inv env e" and k: "isValidAddress (e_number env) k"
  shows "\<exists>e' c. updateSourceEvent (Suc (Suc n)) env k e = Some (True, e') \<and> engine_inv env e'
           \<and> st_find (eContainers e') k = Some c \<and> published e' k ''Value'' = Some (QV_Int (evalue c))"
proof (cases "st_find (eContainers e) k")
  case None
  obtain e1 c where 1: "addX10Source (updateSourceEvent (Suc n) env) env k e = Some e1"
      "engine_inv env e1" "st_find (eContainers e1) k = Some c"
    using addX10Source_new [OF inv k None] by blast
  then show ?thesis
    using None k address_is_no_source [OF k] by (simp add: updateSourceEvent.simps(2) [of "Suc n"] setData_inv)
next
  case (Some c)
  then show ?thesis
    using update_present [OF inv Some, of "Suc n"] inv
    by (auto simp: setData_inv)
qed

section \<open>Following the reports\<close>

text \<open>The level that the last report of a list gives for an address.\<close>

fun last_level :: "string \<Rightarrow> svc_event list \<Rightarrow> int option" where
  "last_level k [] = None"
| "last_level k (ev # evs) =
     (case last_level k evs of
        Some v \<Rightarrow> Some v
      | None \<Rightarrow> (case ev of SvcSourceUpdated k' v \<Rightarrow> if k' = k then Some v else None | _ \<Rightarrow> None))"

lemma event_step:
  assumes inv: "engine_inv env e" and c: "st_find (eContainers e) k = Some c"
    and p: "published e k ''Value'' = Some (QV_Int (evalue c))"
  shows "\<exists>e' c'. engine_on_event (Suc n) env ev e = Some e' \<and> engine_inv env e'
           \<and> st_find (eContainers e') k = Some c' \<and> published e' k ''Value'' = Some (QV_Int (evalue c'))
           \<and> evalue c' = (case last_level k [ev] of Some v \<Rightarrow> v | None \<Rightarrow> evalue c)"
proof (cases ev)
  case (SvcSourceUpdated k' v)
  show ?thesis
  proof (cases "st_find (eContainers e) k'")
    case None
    then have "k' \<noteq> k" using c by auto
    with None show ?thesis using assms SvcSourceUpdated by (simp add: onSourceUpdated_def)
  next
    case (Some c1)
    show ?thesis
      using SetValue_present(1) [OF inv Some, of n v] SetValue_present(2) [OF inv Some, of v]
        assms Some engine_invD(1) [OF inv]
      by (auto simp: SvcSourceUpdated onSourceUpdated_def setData_inv cmap.find_put)
  qed
next
  case (PropertyUpdated pr v)
  have "k \<noteq> SOURCE_PROPERTIES" using engine_invD(4) [OF inv c] address_is_no_source by blast
  then show ?thesis
    using assms by (simp add: PropertyUpdated onPropertyUpdated_def setData_inv)
next
  case (SvcCommandCompleted ch u cm v)
  show ?thesis
    using assms by (auto simp: SvcCommandCompleted onCommandCompleted_def Let_def setData_inv)
next
  case RestartedDBUS
  then show ?thesis using assms by simp
qed

lemma events_followed:
  assumes "engine_inv env e" and "st_find (eContainers e) k = Some c"
    and "published e k ''Value'' = Some (QV_Int (evalue c))"
  shows "\<exists>e' c'. fold_opt (engine_on_event (Suc n) env) evs e = Some e' \<and> engine_inv env e'
           \<and> st_find (eContainers e') k = Some c' \<and> published e' k ''Value'' = Some (QV_Int (evalue c'))
           \<and> evalue c' = (case last_level k evs of Some v \<Rightarrow> v | None \<Rightarrow> evalue c)"
  using assms
proof (induction evs arbitrary: e c)
  case Nil
  then show ?case by simp
next
  case (Cons ev evs)
  obtain e1 c1 where 1: "engine_on_event (Suc n) env ev e = Some e1" "engine_inv env e1"
      "st_find (eContainers e1) k = Some c1" "published e1 k ''Value'' = Some (QV_Int (evalue c1))"
      "evalue c1 = (case last_level k [ev] of Some v \<Rightarrow> v | None \<Rightarrow> evalue c)"
    using event_step [OF Cons.prems] by blast
  from Cons.IH [OF 1(2-4)] 1(1,5) show ?case
    by (auto split: option.splits)
qed

text \<open>The engine starts in its invariant and all its other operations keep it.\<close>

lemma X10Engine_new_inv:
  "\<exists>e. X10Engine_new env d0 = Some e \<and> engine_inv env e \<and> eContainers e = []"
proof -
  obtain evs d where d: "IDBus_Connect (e_config env) (e_bus env) d0 = Some (True, evs, d)" "m_dbusInterface d"
    using IDBus_Connect_Some by blast
  let ?e = "\<lparr>eContainers = [], m_dbus = d, published = (\<lambda>_ _. None), added = []\<rparr>"
  have "talks ?e (on_signals evs ?e)" using d(2) by (intro on_signals_talks) simp
  then have "engine_inv env (on_signals evs ?e)" and "eContainers (on_signals evs ?e) = []"
    by (auto simp: talks_def engine_inv_def st_find_def st_inv_def)
  with d show ?thesis by (simp add: X10Engine_new_def)
qed

lemma sourceWasRemoved_inv [x10_inv]: "engine_inv env e \<Longrightarrow> engine_inv env (sourceWasRemoved env s e)"
  by (auto simp: sourceWasRemoved_def Let_def engine_inv_def st_erase_inv st_erase_find)

lemma updateSourceEvent_ends:
  assumes "engine_inv env e"
  shows "\<exists>r e'. updateSourceEvent (Suc (Suc n)) env s e = Some (r, e') \<and> engine_inv env e'"
proof -
  consider "s = SOURCE_HELP" | "s = SOURCE_PROPERTIES" | "isValidAddress (e_number env) s"
    | "s \<noteq> SOURCE_HELP" "s \<noteq> SOURCE_PROPERTIES" "\<not> isValidAddress (e_number env) s" by blast
  then show ?thesis
  proof cases
    case 2
    obtain e' where "update_properties env e = Some (True, e')" "talks e e'"
      using update_properties_Some [OF engine_invD(2) [OF assms]] by blast
    with 2 assms show ?thesis by (auto simp: updateSourceEvent.simps SOURCE_HELP_def SOURCE_PROPERTIES_def intro: talks_inv)
  next
    case 3
    show ?thesis using update_address [OF assms 3, of n] by blast
  qed (use assms in \<open>auto simp: updateSourceEvent.simps setData_inv\<close>)
qed

section \<open>Properties\<close>

text \<open>C22: a request for an address always ends, whatever the bus answers, with a stack of two calls;
  from then on what the engine publishes for the address is what the service reported last.\<close>

theorem engine_follows_the_service:
  assumes "engine_inv env e" and "isValidAddress (e_number env) k"
  shows "\<exists>e1 c e2. sourceRequestEvent (Suc (Suc n)) env k e = Some (True, e1)
           \<and> st_find (eContainers e1) k = Some c
           \<and> published e1 k ''Value'' = Some (QV_Int (evalue c))
           \<and> fold_opt (engine_on_event (Suc n) env) evs e1 = Some e2 \<and> engine_inv env e2
           \<and> published e2 k ''Value''
               = Some (QV_Int (case last_level k evs of Some v \<Rightarrow> v | None \<Rightarrow> evalue c))"
proof -
  obtain e1 c where 1: "updateSourceEvent (Suc (Suc n)) env k e = Some (True, e1)" "engine_inv env e1"
      "st_find (eContainers e1) k = Some c" "published e1 k ''Value'' = Some (QV_Int (evalue c))"
    using update_address [OF assms, of n] by blast
  obtain e2 c2 where "fold_opt (engine_on_event (Suc n) env) evs e1 = Some e2" "engine_inv env e2"
      "st_find (eContainers e2) k = Some c2" "published e2 k ''Value'' = Some (QV_Int (evalue c2))"
      "evalue c2 = (case last_level k evs of Some v \<Rightarrow> v | None \<Rightarrow> evalue c)"
    using events_followed [OF 1(2-4), of n evs] by blast
  with 1 show ?thesis by (simp add: sourceRequestEvent_def)
qed

text \<open>A bus on which the service knows every unit at level 3.\<close>

definition sample_env :: engine_env where
  "sample_env = \<lparr>e_number = std_number, e_config = Config_Load std_number (\<lambda>_ _. None),
     e_bus = (\<lambda>_ c. case c of B_GetValue _ \<Rightarrow> Reply_int 3 | B_GetProperty _ \<Rightarrow> Reply_string ''Started'' | _ \<Rightarrow> Reply)\<rparr>"

theorem engine_follows_the_service_witness:
  "\<exists>e e1 e2. X10Engine_new sample_env IDBus_new = Some e
     \<and> sourceRequestEvent 2 sample_env ''E5'' e = Some (True, e1)
     \<and> fold_opt (engine_on_event 1 sample_env)
          [SvcSourceUpdated ''E5'' 4, SvcSourceUpdated ''E6'' 1, SvcSourceUpdated ''E5'' 5] e1 = Some e2
     \<and> published e2 ''E5'' ''Value'' = Some (QV_Int 5)"
proof -
  obtain e where e: "X10Engine_new sample_env IDBus_new = Some e" "engine_inv sample_env e"
    using X10Engine_new_inv by blast
  have "isValidAddress (e_number sample_env) (addr_str CHR ''E'' 5)"
    by (simp add: sample_env_def isValidAddress_addr_str std_number_ok concrete_def house_letter_range)
  then have "isValidAddress (e_number sample_env) ''E5''"
    by (simp add: addr_str_def dec_int_five)
  from engine_follows_the_service [OF e(2) this, of 0
      "[SvcSourceUpdated ''E5'' 4, SvcSourceUpdated ''E6'' 1, SvcSourceUpdated ''E5'' 5]"] e(1)
  show ?thesis by (auto simp: numeral_2_eq_2 simp del: fold_opt.simps)
qed

end
