(* ===== verification/X10_Job.thy ===== *)
theory X10_Job
  imports X10_Engine_Laws
begin

text \<open>
  \<open>widget/data_engine/service.cpp\<close> and \<open>job.cpp\<close>: the services the data engine hands to the
  widgets and the jobs they run, which check their parameters and call the bus. What a job does
  to its base class \<open>ServiceJob\<close> is the list of its calls.
\<close>

section \<open>Services\<close>

text \<open>
  The operations of a service are the groups of the file named after it, \<open>service.operations\<close>
  or \<open>unit.operations\<close>; an operation that the file lacks cannot be enabled.
\<close>

definition operations_file :: "string \<Rightarrow> string list" where
  "operations_file name =
     (if name = ''service''
      then [''Start'', ''Stop'', ''Reload'', ''AllOn'', ''AllOff'', ''SendCommand'', ''SetCommand'', ''SetProperty'']
      else if name = ''unit'' then [''Set'', ''Send''] else [])"

record X10Service =
  sv_name :: string
  destination :: string
  disabledOperations :: "string set"
  sv_engine :: bool

definition setOperationEnabled :: "string \<Rightarrow> bool \<Rightarrow> X10Service \<Rightarrow> X10Service" where
  "setOperationEnabled op on s =
     (if op \<in> set (operations_file (sv_name s))
      then s\<lparr>disabledOperations := (if on then disabledOperations s - {op} else insert op (disabledOperations s))\<rparr>
      else s)"

definition isOperationEnabled :: "X10Service \<Rightarrow> string \<Rightarrow> bool" where
  "isOperationEnabled s op \<longleftrightarrow> op \<in> set (operations_file (sv_name s)) \<and> op \<notin> disabledOperations s"

definition updateEnabledOperations :: "X10Service \<Rightarrow> X10Service" where
  "updateEnabledOperations s =
     (let forService = (destination s = [])
      in fold (\<lambda>(op, on). setOperationEnabled op on)
           [(''Send'', \<not> forService), (''Set'', \<not> forService),
            (''Start'', forService), (''Stop'', forService), (''Reload'', forService),
            (''AllOn'', forService), (''AllOff'', forService),
            (''SendCommand'', forService), (''SetCommand'', forService),
            (''SetProperty'', forService)] s)"

definition X10Service_new :: "string \<Rightarrow> X10Service" where
  "X10Service_new source =
     updateEnabledOperations
       \<lparr>sv_name = (if source = [] then ''service'' else ''unit''), destination = source,
        disabledOperations = {}, sv_engine = True\<rparr>"

definition containerDestroyed :: "X10Service \<Rightarrow> X10Service" where
  "containerDestroyed s = s\<lparr>sv_engine := False\<rparr>"

text \<open>\<open>Container::service\<close> and \<open>serviceForSource\<close>; \<open>None\<close> is the library's own null service.\<close>

definition EngineContainer_service :: "EngineContainer \<Rightarrow> X10Service" where
  "EngineContainer_service c = X10Service_new (objectName c)"

definition serviceForSource ::
    "nat \<Rightarrow> engine_env \<Rightarrow> string \<Rightarrow> X10Engine \<Rightarrow> (X10Service option \<times> X10Engine) option" where
  "serviceForSource depth env source e =
     (if isValidAddress (e_number env) source then do {
        e \<leftarrow> (if st_find (eContainers e) source = None
              then addX10Source (updateSourceEvent depth env) env source e else Some e);
        c \<leftarrow> st_find (eContainers e) source;
        Some (Some (EngineContainer_service c), e)
      }
      else if source = [] then Some (Some (X10Service_new []), e)
      else Some (None, e))"

section \<open>Jobs\<close>

datatype JobError = Denied | Failed | MissingArgument | InvalidArgument | UnknownOperation

datatype job_action = SetError JobError | SetErrorText string | SetResult string | EmitResult

record X10Job =
  j_service :: X10Service
  operationName :: string
  parameters :: "(string \<times> QVariant) list"

text \<open>\<open>createJob\<close> gives no job once the service has lost its engine.\<close>

definition createJob :: "X10Service \<Rightarrow> string \<Rightarrow> (string \<times> QVariant) list \<Rightarrow> X10Job option" where
  "createJob s operation ps =
     (if sv_engine s then Some \<lparr>j_service = s, operationName = operation, parameters = ps\<rparr> else None)"

text \<open>\<open>QMap::value\<close> gives the invalid variant for a missing key; \<open>toString\<close> and \<open>toInt\<close> of a variant.\<close>

definition param :: "X10Job \<Rightarrow> string \<Rightarrow> QVariant" where
  "param j k = (case map_of (parameters j) k of Some v \<Rightarrow> v | None \<Rightarrow> QV_Invalid)"

definition qv_toString :: "QVariant \<Rightarrow> string" where
  "qv_toString v = (case qv_string v of Some s \<Rightarrow> s | None \<Rightarrow> [])"

definition qv_toInt_of :: "qt_number \<Rightarrow> QVariant \<Rightarrow> int" where
  "qv_toInt_of q v = (case qv_int q v of Some i \<Rightarrow> i | None \<Rightarrow> 0)"

definition is_string :: "QVariant \<Rightarrow> bool" where
  "is_string v = (case v of QV_String _ \<Rightarrow> True | _ \<Rightarrow> False)"

text \<open>A call followed by \<open>CheckResult\<close>, with the text of the result where the call is answered.\<close>

definition CheckResult :: "engine_env \<Rightarrow> bus_reply \<Rightarrow> X10Engine \<Rightarrow> (bool \<times> job_action list \<times> X10Engine) option" where
  "CheckResult env r e =
     (if r \<noteq> NoReply then Some (True, [], e)
      else do {
        (_, e) \<leftarrow> engine_Reconnect env e;
        Some (False, [SetError Failed, SetResult ''DBUS Down''], e)
      })"

definition job_call ::
    "engine_env \<Rightarrow> bus_call \<Rightarrow> string \<Rightarrow> X10Engine \<Rightarrow> (job_action list \<times> X10Engine) option" where
  "job_call env c text e = do {
     (r, e) \<leftarrow> engine_call env c e;
     (ok, acts, e) \<leftarrow> CheckResult env r e;
     Some (acts @ (if ok then [SetResult text] else []), e)
   }"

definition missing :: "X10Engine \<Rightarrow> string \<Rightarrow> JobError \<Rightarrow> (job_action list \<times> X10Engine) option" where
  "missing e text err = Some ([SetErrorText text, SetError err], e)"

text \<open>
  The branches on the operation, without the final \<open>emitResult\<close>. Texts of \<open>QString::arg\<close> are
  written out for arguments without a percent sign.
\<close>

definition job_operation ::
    "engine_env \<Rightarrow> X10Job \<Rightarrow> X10Engine \<Rightarrow> (job_action list \<times> X10Engine) option" where
  "job_operation env j e =
     (let q = e_number env; op = operationName j; dest = destination (j_service j);
          n = length (parameters j); p = param j
      in
      if op = ''Stop'' then job_call env B_Stop ''Stopped'' e
      else if op = ''Reload'' then do {
        (ok, e) \<leftarrow> engine_Reconnect env e;
        Some (if ok then [SetResult ''Config Reloaded''] else [], e)
      }
      else if op = ''AllOn'' then job_call env B_AllOn ''And There was the Light'' e
      else if op = ''AllOff'' then job_call env B_AllOff ''Doom is Coming'' e
      else if op = ''SendCommand'' then
        (if n \<noteq> 3 \<or> \<not> isValidChannel (p ''Channel'') \<or> \<not> isValidUnit q (p ''Unit'')
            \<or> \<not> isValidCommand (p ''Command'')
         then missing e ''on'' MissingArgument
         else job_call env (B_Send (qv_toString (p ''Channel'')) (wrapu32 (qv_toInt_of q (p ''Unit'')))
                              (qv_toString (p ''Command''))) ''Queued'' e)
      else if op = ''SetCommand'' then
        (if n \<noteq> 3 then missing e ''on'' MissingArgument
         else if \<not> isValidChannel (p ''Channel'') \<or> \<not> isValidUnit q (p ''Unit'')
            \<or> \<not> isValidValue q (p ''Value'')
         then missing e ''on'' InvalidArgument
         else job_call env (B_Set (qv_toString (p ''Channel'')) (wrapu32 (qv_toInt_of q (p ''Unit'')))
                              (qv_toInt_of q (p ''Value''))) ''Queued'' e)
      else if op = ''Send'' then
        (if dest = [] \<or> n \<noteq> 1 \<or> \<not> is_string (p ''Command'')
            \<or> \<not> isValidCommand (QV_String (qv_toString (p ''Command'')))
         then missing e ''MissingArgument'' MissingArgument
         else if \<not> fst (sourceToAddress q dest (CHR 0x00) 0)
         then missing e (''Invalid Source: '' @ dest) MissingArgument
         else job_call env (B_Send [dest ! 0] (wrapu32 (qv_toInt_of q (QV_String (drop 1 dest))))
                              (qv_toString (p ''Command''))) ''Sent'' e)
      else if op = ''Set'' then
        (if dest = [] \<or> n \<noteq> 1 then missing e ''on'' MissingArgument
         else if \<not> isValidValue q (p ''Value'')
         then missing e (''Invalid value: '' @ dest @ ''='' @ qv_toString (p ''Value'') @ '' [1-'' @
                         dec_int MAX_VALUE @ '']'') MissingArgument
         else (let (ok, ch, u) = sourceToAddress q dest (CHR 0x00) 0
               in if \<not> ok then missing e (''Invalid Source: '' @ dest) MissingArgument
                  else job_call env (B_Set [ch] (wrapu32 u) (qv_toInt_of q (p ''Value''))) ''Set'' e))
      else if op = ''SetProperty'' then
        (if n \<noteq> 2 \<or> qv_toString (p ''Property'') = [] \<or> qv_toString (p ''Value'') = []
         then missing e ''on'' MissingArgument
         else job_call env (B_SetProperty (qv_toString (p ''Property'')) (qv_toString (p ''Value'')))
                ''Property set'' e)
      else missing e ''on'' UnknownOperation)"

definition job_start :: "engine_env \<Rightarrow> X10Job \<Rightarrow> X10Engine \<Rightarrow> (job_action list \<times> X10Engine) option" where
  "job_start env j e =
     (if \<not> isOperationEnabled (j_service j) (operationName j)
      then Some ([SetError Denied, SetResult ''Denied'', EmitResult], e)
      else if operationName j = ''Start'' then job_call env B_Start ''Starting then...'' e
      else do { (acts, e) \<leftarrow> job_operation env j e; Some (acts @ [EmitResult], e) })"

section \<open>Lemmas\<close>

lemma setOperationEnabled_sel [simp]:
  "sv_name (setOperationEnabled op on s) = sv_name s"
  "destination (setOperationEnabled op on s) = destination s"
  "sv_engine (setOperationEnabled op on s) = sv_engine s"
  by (simp_all add: setOperationEnabled_def)

lemma X10Service_new_sel:
  "destination (X10Service_new src) = src" "sv_engine (X10Service_new src)"
  "sv_name (X10Service_new src) = (if src = [] then ''service'' else ''unit'')"
  by (simp_all add: X10Service_new_def updateEnabledOperations_def Let_def)

text \<open>The general service has every operation but the two of a unit, which a unit's service has.\<close>

lemma enabled_operations:
  "isOperationEnabled (X10Service_new src) op \<longleftrightarrow>
     op \<in> set (operations_file (if src = [] then ''service'' else ''unit''))"
proof (cases "src = []")
  case True
  then show ?thesis
    by (auto simp: X10Service_new_def updateEnabledOperations_def isOperationEnabled_def
        setOperationEnabled_def operations_file_def)
next
  case False
  then show ?thesis
    by (auto simp: X10Service_new_def updateEnabledOperations_def isOperationEnabled_def
        setOperationEnabled_def operations_file_def)
qed

lemma qv_toInt_unit:
  assumes "isValidUnit q v"
  shows "0 \<le> wrapu32 (qv_toInt_of q v)" and "wrapu32 (qv_toInt_of q v) \<le> 16"
  using assms by (auto simp: isValidUnit_def qv_toInt_of_def wrapu32_def split: option.splits)

lemma qv_toInt_value: "isValidValue q v \<Longrightarrow> level_ok (qv_toInt_of q v)"
  by (auto simp: isValidValue_def qv_toInt_of_def level_ok_def split: option.splits)

lemma isValidChannel_text: "isValidChannel v \<Longrightarrow> isValidChannel (QV_String (qv_toString v))"
  by (auto simp: isValidChannel_def qv_toString_def split: option.splits)

lemma isValidCommand_text: "isValidCommand v \<Longrightarrow> isValidCommand (QV_String (qv_toString v))"
  by (auto simp: isValidCommand_def qv_toString_def split: option.splits)

text \<open>What the texts of an address give when they are read one by one, as the job does.\<close>

definition rejects_patterns :: "qt_number \<Rightarrow> bool" where
  "rejects_patterns q \<longleftrightarrow> toInt q [] = None \<and> toInt q ''*'' = None"

lemma std_rejects_patterns: "rejects_patterns std_number"
  by (simp add: rejects_patterns_def std_number_def in_range_def read_int_def is_digit_def)

lemma address_parts:
  assumes "isValidAddress q dest" and "rejects_patterns q"
  shows "isValidChannel (QV_String [dest ! 0])"
    and "0 \<le> wrapu32 (qv_toInt_of q (QV_String (drop 1 dest)))"
    and "wrapu32 (qv_toInt_of q (QV_String (drop 1 dest))) \<le> 16"
proof -
  have d: "dest = ''*'' \<or> (\<exists>c cs. dest = c # cs \<and> house_letter (upper_char c) \<and>
             (cs = ''*'' \<or> (\<exists>n. toInt q cs = Some n \<and> 0 \<le> n \<and> n \<le> 16)))"
    using assms(1) by (cases dest) (auto simp: isValidAddress_iff)
  then show "isValidChannel (QV_String [dest ! 0])"
    by (auto simp: isValidChannel_def to_upper_def)
  show "0 \<le> wrapu32 (qv_toInt_of q (QV_String (drop 1 dest)))"
    by (simp add: wrapu32_def)
  show "wrapu32 (qv_toInt_of q (QV_String (drop 1 dest))) \<le> 16"
    using d assms(2) by (auto simp: qv_toInt_of_def wrapu32_def rejects_patterns_def)
qed

lemma address_of_source:
  assumes "sourceToAddress q dest ch0 u0 = (True, ch, u)"
  shows "isValidChannel (QV_String [ch])" and "0 \<le> wrapu32 u" and "wrapu32 u \<le> 16"
  using sourceToAddress_range [OF assms]
  by (auto simp: isValidChannel_def to_upper_def wrapu32_def house_letter_upper)

text \<open>A call of a job extends the calls made by itself and by questions for the status.\<close>

lemma job_call_accepted:
  assumes "job_call env c text e = Some (acts, e')" and "m_dbusInterface (m_dbus e)"
    and "accepted q c" and "list_all (accepted q) (calls (m_dbus e))"
  shows "list_all (accepted q) (calls (m_dbus e'))"
proof -
  obtain r e1 where 1: "engine_call env c e = Some (r, e1)" "talks e e1"
      "calls (m_dbus e1) = calls (m_dbus e) @ [c]"
    using engine_call_Some [OF assms(2)] by blast
  obtain e2 where 2: "engine_Reconnect env e1 = Some (True, e2)" "only_asks (m_dbus e1) (m_dbus e2)"
    using engine_Reconnect_Some [OF talks_dbus [OF 1(2)]] by blast
  have "e' = e1 \<or> e' = e2"
    using assms(1) 1(1) 2(1) by (auto simp: job_call_def CheckResult_def split: if_splits)
  moreover have "list_all (accepted q) (calls (m_dbus e1))" using 1(3) assms(3,4) by simp
  ultimately show ?thesis using only_asks_accepted [OF 2(2)] by blast
qed

lemma job_call_Some:
  assumes "m_dbusInterface (m_dbus e)"
  shows "\<exists>acts e'. job_call env c text e = Some (acts, e')"
proof -
  obtain r e1 where 1: "engine_call env c e = Some (r, e1)" "talks e e1"
    using engine_call_Some [OF assms] by blast
  obtain e2 where "engine_Reconnect env e1 = Some (True, e2)"
    using engine_Reconnect_Some [OF talks_dbus [OF 1(2)]] by blast
  with 1 show ?thesis by (auto simp: job_call_def CheckResult_def)
qed

lemma missing_accepted:
  "missing e t err = Some (acts, e') \<Longrightarrow> list_all (accepted q) (calls (m_dbus e))
     \<Longrightarrow> list_all (accepted q) (calls (m_dbus e'))"
  by (simp add: missing_def)

lemma FetchValue_accepted:
  assumes "FetchValue env k e = Some (r, e')" and "m_dbusInterface (m_dbus e)"
    and "list_all (accepted q) (calls (m_dbus e))"
  shows "list_all (accepted q) (calls (m_dbus e'))"
proof -
  obtain b e1 where 1: "engine_call env (B_GetValue k) e = Some (b, e1)" "talks e e1"
      "calls (m_dbus e1) = calls (m_dbus e) @ [B_GetValue k]"
    using engine_call_Some [OF assms(2)] by blast
  obtain e2 where 2: "engine_Reconnect env e1 = Some (True, e2)" "only_asks (m_dbus e1) (m_dbus e2)"
    using engine_Reconnect_Some [OF talks_dbus [OF 1(2)]] by blast
  have "e' = e1 \<or> e' = e2"
    using assms(1) 1(1) 2(1) by (auto simp: FetchValue_def split: option.splits)
  moreover have "list_all (accepted q) (calls (m_dbus e1))" using 1(3) assms(3) by simp
  ultimately show ?thesis using only_asks_accepted [OF 2(2)] by blast
qed

lemma addX10Source_accepted:
  assumes inv: "engine_inv env e" and k: "isValidAddress (e_number env) k"
    and new: "st_find (eContainers e) k = None"
    and add: "addX10Source (updateSourceEvent (Suc n) env) env k e = Some e'"
    and ok: "list_all (accepted q) (calls (m_dbus e))"
  shows "list_all (accepted q) (calls (m_dbus e'))"
proof -
  let ?e0 = "e\<lparr>eContainers := st_put k (EngineContainer_new k) (eContainers e)\<rparr>"
  have inv0: "engine_inv env ?e0"
    using inv k by (auto simp: engine_inv_def cmap.find_put cmap.invar_put EngineContainer_new_def)
  obtain r e1 where 1: "FetchValue env k ?e0 = Some (r, e1)" "talks ?e0 e1"
    using FetchValue_Some [of ?e0] engine_invD(2) [OF inv0] by blast
  have c1: "st_find (eContainers e1) k = Some (EngineContainer_new k)"
    using 1(2) inv by (simp add: talks_def cmap.find_put_same engine_invD(1))
  have "list_all (accepted q) (calls (m_dbus e1))"
    using FetchValue_accepted [OF 1(1), of q] engine_invD(2) [OF inv] ok by simp
  moreover have "m_dbus e' = m_dbus e1"
    using add new 1(1) SetValue_present(1) [OF talks_inv [OF 1(2) inv0] c1, of n]
    by (auto simp: addX10Source_def Let_def split: option.splits)
  ultimately show ?thesis by simp
qed

text \<open>The services that are handed out: the general one, and one for each valid address.\<close>

lemma serviceForSource_Some:
  assumes "engine_inv env e" and "serviceForSource (Suc n) env src e = Some (Some s, e')"
  shows "s = X10Service_new src" and "src = [] \<or> isValidAddress (e_number env) src"
    and "engine_inv env e'"
    and "list_all (accepted q) (calls (m_dbus e)) \<Longrightarrow> list_all (accepted q) (calls (m_dbus e'))"
proof -
  have *: "s = X10Service_new src \<and> (src = [] \<or> isValidAddress (e_number env) src) \<and> engine_inv env e'
      \<and> (list_all (accepted q) (calls (m_dbus e)) \<longrightarrow> list_all (accepted q) (calls (m_dbus e')))"
  proof (cases "isValidAddress (e_number env) src")
    case False
    with assms show ?thesis by (auto simp: serviceForSource_def split: if_splits)
  next
    case True
    show ?thesis
    proof (cases "st_find (eContainers e) src")
      case None
      obtain e1 c where 1: "addX10Source (updateSourceEvent (Suc n) env) env src e = Some e1"
          "engine_inv env e1" "st_find (eContainers e1) src = Some c"
        using addX10Source_new [OF assms(1) True None] by blast
      with assms(2) True None engine_invD(3) [OF 1(2,3)] addX10Source_accepted [OF assms(1) True None 1(1)]
      show ?thesis by (auto simp: serviceForSource_def EngineContainer_service_def)
    next
      case (Some c)
      with assms True engine_invD(3) [OF assms(1) Some] show ?thesis
        by (auto simp: serviceForSource_def EngineContainer_service_def)
    qed
  qed
  then show "s = X10Service_new src" and "src = [] \<or> isValidAddress (e_number env) src"
    and "engine_inv env e'"
    and "list_all (accepted q) (calls (m_dbus e)) \<Longrightarrow> list_all (accepted q) (calls (m_dbus e'))"
    by auto
qed

text \<open>
  The branches of a job. Each either leaves the engine alone, reconnects, or makes one call that
  is accepted.
\<close>

lemma reload_branch:
  assumes "m_dbusInterface (m_dbus e)" and "list_all (accepted q) (calls (m_dbus e))"
  shows "\<exists>acts e'. do { (ok, e) \<leftarrow> engine_Reconnect env e;
                          Some (if ok then [SetResult ''Config Reloaded''] else [], e) } = Some (acts, e')
           \<and> list_all (accepted q) (calls (m_dbus e'))"
proof -
  obtain e1 where 1: "engine_Reconnect env e = Some (True, e1)" "only_asks (m_dbus e) (m_dbus e1)"
    using engine_Reconnect_Some [OF assms(1)] by blast
  then show ?thesis using only_asks_accepted [OF 1(2) assms(2)] by simp
qed

lemma call_branch:
  assumes "m_dbusInterface (m_dbus e)" and "list_all (accepted q) (calls (m_dbus e))" and "accepted q c"
  shows "\<exists>acts e'. job_call env c text e = Some (acts, e') \<and> list_all (accepted q) (calls (m_dbus e'))"
  using job_call_Some [OF assms(1)] job_call_accepted [OF _ assms(1,3,2)] by blast

lemma missing_branch:
  assumes "list_all (accepted q) (calls (m_dbus e))"
  shows "\<exists>acts e'. missing e text err = Some (acts, e') \<and> list_all (accepted q) (calls (m_dbus e'))"
  using assms by (simp add: missing_def)

lemma job_operation_accepted:
  assumes "m_dbusInterface (m_dbus e)" and "list_all (accepted (e_number env)) (calls (m_dbus e))"
    and "rejects_patterns (e_number env)"
    and "destination (j_service j) = [] \<or> isValidAddress (e_number env) (destination (j_service j))"
  shows "\<exists>acts e'. job_operation env j e = Some (acts, e')
           \<and> list_all (accepted (e_number env)) (calls (m_dbus e'))"
proof -
  let ?q = "e_number env" and ?d = "destination (j_service j)"
  note branches = call_branch [OF assms(1,2)] missing_branch [OF assms(2)] reload_branch [OF assms(1,2)]
  have sc: "accepted ?q (B_Send (qv_toString ch) (wrapu32 (qv_toInt_of ?q u)) (qv_toString c))"
    if "isValidChannel ch" "isValidUnit ?q u" "isValidCommand c" for ch u c
    using that by (intro accepted_Send isValidChannel_text isValidCommand_text qv_toInt_unit)
  have st: "accepted ?q (B_Set (qv_toString ch) (wrapu32 (qv_toInt_of ?q u)) (qv_toInt_of ?q v))"
    if "isValidChannel ch" "isValidUnit ?q u" "isValidValue ?q v" for ch u v
    using that by (intro accepted_Set isValidChannel_text qv_toInt_value qv_toInt_unit)
  have sd: "accepted ?q (B_Send [?d ! 0] (wrapu32 (qv_toInt_of ?q (QV_String (drop 1 ?d)))) c)"
    if "?d \<noteq> []" "isValidCommand (QV_String c)" for c
    using that assms(3,4) address_parts [of ?q ?d] by (intro accepted_Send) auto
  have se: "accepted ?q (B_Set [ch] (wrapu32 u) (qv_toInt_of ?q v))"
    if "sourceToAddress ?q ?d (CHR 0x00) 0 = (True, ch, u)" "isValidValue ?q v" for ch u v
    using address_of_source [OF that(1)] qv_toInt_value [OF that(2)] by (intro accepted_Set) auto
  obtain ok ch u where s: "sourceToAddress ?q ?d (CHR 0x00) 0 = (ok, ch, u)"
    by (cases "sourceToAddress ?q ?d (CHR 0x00) 0")
  define good where "good r \<longleftrightarrow> (\<exists>acts e'. r = Some (acts, e') \<and> list_all (accepted ?q) (calls (m_dbus e')))"
    for r :: "(job_action list \<times> X10Engine) option"
  note good = branches [folded good_def]
  have good_if: "good (if b then x else y)" if "b \<Longrightarrow> good x" and "\<not> b \<Longrightarrow> good y" for b x y
    using that by simp
  have "good (job_operation env j e)"
    unfolding job_operation_def Let_def s prod.case
    by (intro good_if good sc st sd se accepted_other) (simp_all add: s)
  then show ?thesis by (simp add: good_def)
qed

section \<open>Properties\<close>



end
