(* ===== verification/X10_Control.thy ===== *)
theory X10_Control
  imports X10_Job
begin

text \<open>
  \<open>widget/plasmoid/control-widget.h\<close> and \<open>.cpp\<close>: the control of one unit on the desktop. It shows
  a level of its own that runs ahead of the service's: a user's change is shown at once, the
  reports of the service are held back for six seconds, and a timer switches the unit off.
  Plasma's layout is not modelled; a child widget is there (\<open>None\<close> is the null pointer) and
  visible or not.
\<close>

unbundle bit_operations_syntax

text \<open>The parameters of the applet that the controls read, with those they do not.\<close>

record WidgetConfig =
  m_configDefaultLighting :: int
  m_configDefaultSwitchOffPeriodMn :: int
  m_configSwitchOffWhenDimmedTo0 :: bool
  m_configSwitchOffWhenDimmedTo0PeriodSecs :: int
  m_configRememberLastIntensity :: bool
  m_configRememberLastIntensityThreshold :: int
  m_configUseSmartQueue :: bool
  m_configTimeoutInc :: int

definition ONOFF :: int where "ONOFF = 1"
definition DIM :: int where "DIM = 2"
definition BRIGHT :: int where "BRIGHT = 4"
definition DIMBRIGHT :: int where "DIMBRIGHT = 6"
definition SLIDER :: int where "SLIDER = 8"

datatype icon = ICON_ON | ICON_OFF | ICON_ON_TIMER | ICON_APPON | ICON_APPOFF

text \<open>A job the control starts: the source of the service, and the value or the command.\<close>

datatype widget_job = JobSet string int | JobSend string COMMAND_TYPE

text \<open>
  A timer is the interval it was last started with, in milliseconds, while it is active. The
  on/off button shows an icon.
\<close>

record ControlWidget =
  m_unit :: X10Unit
  m_name :: string
  m_style :: int
  m_horizontal :: bool
  m_maximum :: int
  m_configSwitchOffPeriodMn :: int
  m_configPreferredLighting :: int
  m_slider :: "int option"
  m_sliderVisible :: bool
  m_pushButtonOnOff :: "icon option"
  m_onOffVisible :: bool
  m_pushButtonDim :: "bool option"
  m_pushButtonBright :: "bool option"
  m_timerSwitchOff :: "int option"
  m_timerSuspendUpdate :: "int option"
  m_lastValueUpdateRecv :: int
  m_source :: "string option"
  sent :: "widget_job list"

text \<open>
  Around the control: whether the data engine is valid, the service it gives for a source
  (\<open>None\<close> is the null service) as its enabled operations, and the parameters of the applet.
\<close>

record widget_env =
  w_valid :: bool
  w_service :: "string \<Rightarrow> (string \<Rightarrow> bool) option"
  w_config :: WidgetConfig

definition hasStyle :: "int \<Rightarrow> ControlWidget \<Rightarrow> bool" where
  "hasStyle style w \<longleftrightarrow> m_style w AND style \<noteq> 0"

definition isAppliance :: "ControlWidget \<Rightarrow> bool" where
  "isAppliance w \<longleftrightarrow> \<not> (hasStyle SLIDER w \<or> hasStyle DIM w \<or> hasStyle DIM w)"

definition waddress :: "ControlWidget \<Rightarrow> string" where
  "waddress w = X10Unit_address (m_unit w)"

abbreviation wvalue :: "ControlWidget \<Rightarrow> int" where
  "wvalue w \<equiv> xvalue (m_unit w)"

definition set_wvalue :: "int \<Rightarrow> ControlWidget \<Rightarrow> ControlWidget" where
  "set_wvalue v w = w\<lparr>m_unit := (m_unit w)\<lparr>xvalue := v\<rparr>\<rparr>"

abbreviation IsOn :: "ControlWidget \<Rightarrow> bool" where
  "IsOn w \<equiv> X10Unit_IsOn (m_unit w)"

section \<open>Refreshing and timers\<close>

definition refreshOnOff :: "ControlWidget \<Rightarrow> ControlWidget" where
  "refreshOnOff w =
     (case m_pushButtonOnOff w of
        None \<Rightarrow> w
      | Some _ \<Rightarrow> w\<lparr>m_pushButtonOnOff := Some
          (if IsOn w
           then if isAppliance w then ICON_APPON
                else if m_timerSwitchOff w \<noteq> None then ICON_ON_TIMER else ICON_ON
           else if isAppliance w then ICON_APPOFF else ICON_OFF)\<rparr>)"

definition refreshSlider :: "ControlWidget \<Rightarrow> ControlWidget" where
  "refreshSlider w =
     (case m_slider w of
        None \<Rightarrow> w
      | Some _ \<Rightarrow> w\<lparr>m_slider := Some
          (if wvalue w \<le> 0 then 0 else if wvalue w > m_maximum w then m_maximum w else wvalue w)\<rparr>)"

definition SwitchOffTimer :: "ControlWidget \<Rightarrow> ControlWidget" where
  "SwitchOffTimer w = w\<lparr>m_timerSwitchOff := None\<rparr>"

definition checkTimer :: "widget_env \<Rightarrow> int \<Rightarrow> ControlWidget \<Rightarrow> ControlWidget" where
  "checkTimer env v w =
     (let c = w_config env in
      if v = -1 then SwitchOffTimer w
      else if v = 0 then
        (if m_configSwitchOffWhenDimmedTo0 c
         then w\<lparr>m_timerSwitchOff := Some (m_configSwitchOffWhenDimmedTo0PeriodSecs c * 1000)\<rparr> else w)
      else if m_configSwitchOffPeriodMn w \<noteq> 0
      then w\<lparr>m_timerSwitchOff := Some (m_configSwitchOffPeriodMn w * 60000)\<rparr>
      else if m_timerSwitchOff w \<noteq> None \<and> m_configSwitchOffWhenDimmedTo0 c then SwitchOffTimer w
      else w)"

definition updateValue :: "int \<Rightarrow> ControlWidget \<Rightarrow> ControlWidget" where
  "updateValue newValue w =
     (if wvalue w = newValue then w
      else let w = set_wvalue newValue w;
               w = (if newValue = -1 \<and> m_timerSwitchOff w \<noteq> None then SwitchOffTimer w else w)
           in refreshOnOff (refreshSlider w))"

section \<open>Settings\<close>

text \<open>\<open>redraw\<close> creates the children a style asks for and hides the others.\<close>

definition redraw :: "ControlWidget \<Rightarrow> ControlWidget" where
  "redraw w =
     (let w = w\<lparr>m_pushButtonBright :=
                  (if hasStyle BRIGHT w then Some True else map_option (\<lambda>_. False) (m_pushButtonBright w))\<rparr>;
          w = w\<lparr>m_pushButtonDim :=
                  (if hasStyle DIM w then Some True else map_option (\<lambda>_. False) (m_pushButtonDim w))\<rparr>;
          w = (if hasStyle SLIDER w
               then w\<lparr>m_slider := (case m_slider w of None \<Rightarrow> Some 0 | Some v \<Rightarrow> Some v), m_sliderVisible := True\<rparr>
               else if m_slider w \<noteq> None then w\<lparr>m_sliderVisible := False\<rparr> else w)
      in if hasStyle ONOFF w
         then w\<lparr>m_pushButtonOnOff :=
                  (case m_pushButtonOnOff w of
                     None \<Rightarrow> Some (if isAppliance w then ICON_APPOFF else ICON_OFF) | Some i \<Rightarrow> Some i),
                m_onOffVisible := True\<rparr>
         else if m_pushButtonOnOff w \<noteq> None then w\<lparr>m_onOffVisible := False\<rparr> else w)"

definition ConnectSource :: "widget_env \<Rightarrow> ControlWidget \<Rightarrow> ControlWidget" where
  "ConnectSource env w = (if w_valid env then w\<lparr>m_source := Some (waddress w)\<rparr> else w)"

definition DisconnectSource :: "widget_env \<Rightarrow> ControlWidget \<Rightarrow> ControlWidget" where
  "DisconnectSource env w = (if w_valid env then w\<lparr>m_source := None\<rparr> else w)"

definition ControlWidget_new ::
    "widget_env \<Rightarrow> string \<Rightarrow> Channel \<Rightarrow> Unit \<Rightarrow> int \<Rightarrow> bool \<Rightarrow> int \<Rightarrow> ControlWidget" where
  "ControlWidget_new env name ch u style horizontal maximum =
     ConnectSource env (redraw
       \<lparr>m_unit = X10Unit_new ch u (-1), m_name = name, m_style = style, m_horizontal = horizontal,
        m_maximum = maximum, m_configSwitchOffPeriodMn = 1, m_configPreferredLighting = maximum,
        m_slider = None, m_sliderVisible = False, m_pushButtonOnOff = None, m_onOffVisible = False,
        m_pushButtonDim = None, m_pushButtonBright = None, m_timerSwitchOff = None,
        m_timerSuspendUpdate = None, m_lastValueUpdateRecv = -1, m_source = None, sent = []\<rparr>)"

definition setName :: "string \<Rightarrow> ControlWidget \<Rightarrow> ControlWidget" where
  "setName name w = (if m_name w \<noteq> name then w\<lparr>m_name := name\<rparr> else w)"

definition setUnit :: "widget_env \<Rightarrow> Channel \<Rightarrow> Unit \<Rightarrow> ControlWidget \<Rightarrow> ControlWidget" where
  "setUnit env ch u w =
     (if ch \<noteq> xchannel (m_unit w) \<or> u \<noteq> xunit (m_unit w)
      then let w = DisconnectSource env w
           in ConnectSource env (w\<lparr>m_unit := (m_unit w)\<lparr>xchannel := ch, xunit := u\<rparr>\<rparr>)
      else w)"

definition setOrientation :: "bool \<Rightarrow> ControlWidget \<Rightarrow> ControlWidget" where
  "setOrientation horizontal w = w\<lparr>m_horizontal := horizontal\<rparr>"

definition setStyle :: "int \<Rightarrow> ControlWidget \<Rightarrow> ControlWidget" where
  "setStyle style w =
     (let different = (m_style w \<noteq> style); w = w\<lparr>m_style := style\<rparr>
      in if different then redraw w else w)"

definition setSwitchOffPeriodMn :: "int \<Rightarrow> ControlWidget \<Rightarrow> ControlWidget" where
  "setSwitchOffPeriodMn mn w =
     (let w = (if mn = 0 then refreshOnOff (SwitchOffTimer w)
               else if mn \<noteq> m_configSwitchOffPeriodMn w \<and> m_timerSwitchOff w \<noteq> None
               then w\<lparr>m_timerSwitchOff := Some (mn * 60000)\<rparr> else w)
      in w\<lparr>m_configSwitchOffPeriodMn := mn\<rparr>)"

definition setPreferredLighting :: "int \<Rightarrow> ControlWidget \<Rightarrow> ControlWidget" where
  "setPreferredLighting percent w =
     w\<lparr>m_configPreferredLighting := c_div (m_maximum w * percent) 100\<rparr>"

section \<open>Actions\<close>

definition setUnitTo :: "widget_env \<Rightarrow> int \<Rightarrow> ControlWidget \<Rightarrow> ControlWidget" where
  "setUnitTo env v w =
     (if v = wvalue w then w
      else let w = set_wvalue v (w\<lparr>m_timerSuspendUpdate := Some 6000\<rparr>)
           in case w_service env (waddress w) of
                None \<Rightarrow> w
              | Some ops \<Rightarrow>
                  if \<not> ops ''Set'' then w
                  else refreshOnOff (refreshSlider (checkTimer env v
                         (w\<lparr>sent := sent w @ [JobSet (waddress w) v]\<rparr>))))"

text \<open>\<open>send_command\<close> does not test the service for null: \<open>None\<close> is the null access.\<close>

definition send_command :: "widget_env \<Rightarrow> COMMAND_TYPE \<Rightarrow> ControlWidget \<Rightarrow> ControlWidget option" where
  "send_command env t w =
     (case w_service env (waddress w) of
        None \<Rightarrow> None
      | Some ops \<Rightarrow>
          if \<not> ops ''Send'' then Some w
          else Some (refreshOnOff (refreshSlider (checkTimer env (if t = CMD_OFF then -1 else wvalue w)
                 (w\<lparr>sent := sent w @ [JobSend (waddress w) t]\<rparr>)))))"

definition on_pushUnit :: "widget_env \<Rightarrow> ControlWidget \<Rightarrow> ControlWidget" where
  "on_pushUnit env w = setUnitTo env (if IsOn w then -1 else m_maximum w) w"

definition on_pushOnOff :: "widget_env \<Rightarrow> bool \<Rightarrow> ControlWidget \<Rightarrow> ControlWidget" where
  "on_pushOnOff env uiInitiated w =
     (let c = w_config env in
      if \<not> IsOn w then
        (if isAppliance w then on_pushUnit env w
         else if m_configRememberLastIntensity c \<and>
           c_div (xvalueBeforeOff (m_unit w) * 100) (m_maximum w) > m_configRememberLastIntensityThreshold c
         then setUnitTo env (xvalueBeforeOff (m_unit w)) w
         else setUnitTo env (m_configPreferredLighting w) w)
      else on_pushUnit env
        (if uiInitiated then w\<lparr>m_unit := (m_unit w)\<lparr>xvalueBeforeOff := wvalue w\<rparr>\<rparr> else w))"

definition on_pushDirection :: "widget_env \<Rightarrow> bool \<Rightarrow> ControlWidget \<Rightarrow> ControlWidget option" where
  "on_pushDirection env up w =
     (let w = (if \<not> IsOn w then set_wvalue (m_maximum w) w else w);
          w = (if wvalue w \<noteq> (if up then m_maximum w else 0)
               then set_wvalue (wvalue w + (if up then 1 else -1)) w else w)
      in send_command env (if up then CMD_BRIGHT else CMD_DIM) w)"

definition sliderMoved :: "widget_env \<Rightarrow> int \<Rightarrow> ControlWidget \<Rightarrow> ControlWidget" where
  "sliderMoved env v w = setUnitTo env v w"

definition ControlWidget_On :: "widget_env \<Rightarrow> ControlWidget \<Rightarrow> ControlWidget" where
  "ControlWidget_On env w = (if \<not> IsOn w then on_pushOnOff env False w else w)"

definition ControlWidget_Off :: "widget_env \<Rightarrow> ControlWidget \<Rightarrow> ControlWidget" where
  "ControlWidget_Off env w = (if IsOn w then on_pushOnOff env False w else w)"

definition on_timerSwitchOff :: "widget_env \<Rightarrow> ControlWidget \<Rightarrow> ControlWidget" where
  "on_timerSwitchOff env w = (if IsOn w then on_pushUnit env w else w)"

definition on_timerEndSuspendUpdate :: "ControlWidget \<Rightarrow> ControlWidget" where
  "on_timerEndSuspendUpdate w =
     (if m_lastValueUpdateRecv w \<noteq> wvalue w
      then updateValue (m_lastValueUpdateRecv w) (SwitchOffTimer w) else w)"

definition widget_dataUpdated ::
    "qt_number \<Rightarrow> string \<Rightarrow> (string \<Rightarrow> QVariant option) \<Rightarrow> ControlWidget \<Rightarrow> ControlWidget" where
  "widget_dataUpdated q source data w =
     (if source = waddress w then
        let v = qv_toInt_of q (case data ''Value'' of Some x \<Rightarrow> x | None \<Rightarrow> QV_Invalid);
            w = w\<lparr>m_lastValueUpdateRecv := v\<rparr>
        in if m_timerSuspendUpdate w = None
           then updateValue v (if m_timerSwitchOff w \<noteq> None then SwitchOffTimer w else w)
           else if v = wvalue w then w\<lparr>m_timerSuspendUpdate := None\<rparr>
           else w
      else w)"

section \<open>The control as a machine\<close>

text \<open>A single-shot timer is inactive when its slot is called; an inactive one does not fire.\<close>

datatype widget_event =
  PushOnOff bool | PushDim | PushBright | SliderMoved int | SwitchOn | SwitchOff
| SwitchOffTimeout | SuspendTimeout | DataUpdated string "string \<Rightarrow> QVariant option"

fun widget_step :: "qt_number \<Rightarrow> widget_env \<Rightarrow> widget_event \<Rightarrow> ControlWidget \<Rightarrow> ControlWidget option" where
  "widget_step q env (PushOnOff ui) w = Some (on_pushOnOff env ui w)"
| "widget_step q env PushDim w = on_pushDirection env False w"
| "widget_step q env PushBright w = on_pushDirection env True w"
| "widget_step q env (SliderMoved v) w = Some (sliderMoved env v w)"
| "widget_step q env SwitchOn w = Some (ControlWidget_On env w)"
| "widget_step q env SwitchOff w = Some (ControlWidget_Off env w)"
| "widget_step q env SwitchOffTimeout w =
     Some (if m_timerSwitchOff w \<noteq> None then on_timerSwitchOff env (w\<lparr>m_timerSwitchOff := None\<rparr>) else w)"
| "widget_step q env SuspendTimeout w =
     Some (if m_timerSuspendUpdate w \<noteq> None
           then on_timerEndSuspendUpdate (w\<lparr>m_timerSuspendUpdate := None\<rparr>) else w)"
| "widget_step q env (DataUpdated source data) w = Some (widget_dataUpdated q source data w)"

end
