(* ===== verification/X10_Control_Laws.thy ===== *)
theory X10_Control_Laws
  imports X10_Control
begin

text \<open>
  What the control of a unit promises: it stays within its invariant, its timer runs only while
  the unit is on, it asks the service for levels in range only, and what it shows after a
  user's action is the level that the service will report.
\<close>

section \<open>What the operations leave alone\<close>

lemma set_wvalue_sel [simp]:
  "wvalue (set_wvalue v w) = v" "xvalueBeforeOff (m_unit (set_wvalue v w)) = xvalueBeforeOff (m_unit w)"
  "waddress (set_wvalue v w) = waddress w" "m_maximum (set_wvalue v w) = m_maximum w"
  "m_slider (set_wvalue v w) = m_slider w" "m_timerSwitchOff (set_wvalue v w) = m_timerSwitchOff w"
  "m_timerSuspendUpdate (set_wvalue v w) = m_timerSuspendUpdate w"
  "m_lastValueUpdateRecv (set_wvalue v w) = m_lastValueUpdateRecv w"
  "m_configPreferredLighting (set_wvalue v w) = m_configPreferredLighting w"
  "sent (set_wvalue v w) = sent w"
  by (simp_all add: set_wvalue_def waddress_def X10Unit_address_def)

lemma refreshOnOff_sel [simp]:
  "m_unit (refreshOnOff w) = m_unit w" "m_maximum (refreshOnOff w) = m_maximum w"
  "waddress (refreshOnOff w) = waddress w" "m_slider (refreshOnOff w) = m_slider w"
  "m_timerSwitchOff (refreshOnOff w) = m_timerSwitchOff w"
  "m_timerSuspendUpdate (refreshOnOff w) = m_timerSuspendUpdate w"
  "m_lastValueUpdateRecv (refreshOnOff w) = m_lastValueUpdateRecv w"
  "m_configPreferredLighting (refreshOnOff w) = m_configPreferredLighting w"
  "sent (refreshOnOff w) = sent w"
  by (simp_all add: refreshOnOff_def waddress_def split: option.splits)

lemma refreshSlider_sel [simp]:
  "m_unit (refreshSlider w) = m_unit w" "m_maximum (refreshSlider w) = m_maximum w"
  "waddress (refreshSlider w) = waddress w"
  "m_timerSwitchOff (refreshSlider w) = m_timerSwitchOff w"
  "m_timerSuspendUpdate (refreshSlider w) = m_timerSuspendUpdate w"
  "m_lastValueUpdateRecv (refreshSlider w) = m_lastValueUpdateRecv w"
  "m_configPreferredLighting (refreshSlider w) = m_configPreferredLighting w"
  "sent (refreshSlider w) = sent w"
  by (simp_all add: refreshSlider_def waddress_def split: option.splits)

lemma checkTimer_sel [simp]:
  "m_unit (checkTimer env v w) = m_unit w" "m_maximum (checkTimer env v w) = m_maximum w"
  "waddress (checkTimer env v w) = waddress w" "m_slider (checkTimer env v w) = m_slider w"
  "m_timerSuspendUpdate (checkTimer env v w) = m_timerSuspendUpdate w"
  "m_lastValueUpdateRecv (checkTimer env v w) = m_lastValueUpdateRecv w"
  "m_configPreferredLighting (checkTimer env v w) = m_configPreferredLighting w"
  "sent (checkTimer env v w) = sent w"
  by (simp_all add: checkTimer_def SwitchOffTimer_def Let_def waddress_def)

lemma SwitchOffTimer_sel [simp]:
  "m_unit (SwitchOffTimer w) = m_unit w" "m_maximum (SwitchOffTimer w) = m_maximum w"
  "waddress (SwitchOffTimer w) = waddress w" "m_slider (SwitchOffTimer w) = m_slider w"
  "m_timerSwitchOff (SwitchOffTimer w) = None"
  "m_timerSuspendUpdate (SwitchOffTimer w) = m_timerSuspendUpdate w"
  "m_lastValueUpdateRecv (SwitchOffTimer w) = m_lastValueUpdateRecv w"
  "m_configPreferredLighting (SwitchOffTimer w) = m_configPreferredLighting w"
  "sent (SwitchOffTimer w) = sent w"
  by (simp_all add: SwitchOffTimer_def waddress_def)

lemma refreshSlider_slider:
  "m_maximum w = MAX_VALUE \<Longrightarrow> level_ok (wvalue w) \<Longrightarrow>
     m_slider (refreshSlider w) = map_option (\<lambda>_. max 0 (wvalue w)) (m_slider w)"
  by (auto simp: refreshSlider_def level_ok_def split: option.splits)

lemma checkTimer_off: "m_timerSwitchOff (checkTimer env (-1) w) = None"
  by (simp add: checkTimer_def Let_def)

section \<open>The invariant\<close>

fun job_ok :: "widget_job \<Rightarrow> bool" where
  "job_ok (JobSet a v) \<longleftrightarrow> level_ok v"
| "job_ok (JobSend a t) \<longleftrightarrow> t = CMD_DIM \<or> t = CMD_BRIGHT"

definition control_ok :: "ControlWidget \<Rightarrow> bool" where
  "control_ok w \<longleftrightarrow>
     m_maximum w = MAX_VALUE \<and> level_ok (wvalue w) \<and> level_ok (xvalueBeforeOff (m_unit w))
     \<and> level_ok (m_lastValueUpdateRecv w) \<and> level_ok (m_configPreferredLighting w)
     \<and> (m_timerSwitchOff w \<noteq> None \<longrightarrow> IsOn w)
     \<and> (\<forall>s. m_slider w = Some s \<longrightarrow> s = max 0 (wvalue w))
     \<and> list_all job_ok (sent w)"

lemma control_okD:
  assumes "control_ok w"
  shows "m_maximum w = MAX_VALUE" and "level_ok (wvalue w)" and "level_ok (xvalueBeforeOff (m_unit w))"
    and "level_ok (m_configPreferredLighting w)" and "level_ok (m_lastValueUpdateRecv w)"
    and "list_all job_ok (sent w)"
  using assms by (simp_all add: control_ok_def)

text \<open>The service of the unit is there with its two operations.\<close>

definition ready :: "widget_env \<Rightarrow> ControlWidget \<Rightarrow> bool" where
  "ready env w \<longleftrightarrow>
     (case w_service env (waddress w) of None \<Rightarrow> False | Some ops \<Rightarrow> ops ''Set'' \<and> ops ''Send'')"

lemma ready_cong: "waddress w' = waddress w \<Longrightarrow> ready env w' = ready env w"
  by (simp add: ready_def)

text \<open>The services of the data engine are such services.\<close>

lemma unit_service_ready:
  "src \<noteq> [] \<Longrightarrow> isOperationEnabled (X10Service_new src) ''Set''
     \<and> isOperationEnabled (X10Service_new src) ''Send''"
  by (simp add: enabled_operations operations_file_def)

section \<open>The contracts\<close>

text \<open>
  What a job does to the container of the unit in the service, once its command is executed.
\<close>

fun job_effect :: "widget_job \<Rightarrow> Container \<Rightarrow> Container" where
  "job_effect (JobSet a v) c = fst (exec_op (COMMAND_new 0 (csource c ! 0) 0 CMD_SET v) c)"
| "job_effect (JobSend a t) c = fst (exec_op (COMMAND_new 0 (csource c ! 0) 0 t (-1)) c)"

fun job_source :: "widget_job \<Rightarrow> string" where
  "job_source (JobSet a v) = a"
| "job_source (JobSend a t) = a"

lemma job_effect_set: "clevel (job_effect (JobSet a v) c) = v"
  by (simp add: exec_op_def exec_value_def SetValue_def)

lemma job_effect_move:
  "clevel (job_effect (JobSend a CMD_BRIGHT) c) =
     (let v = (if clevel c = -1 then MAX_VALUE else clevel c) in if v \<ge> MAX_VALUE then MAX_VALUE else v + 1)"
  "clevel (job_effect (JobSend a CMD_DIM) c) =
     (let v = (if clevel c = -1 then MAX_VALUE else clevel c) in if v \<noteq> 0 then v - 1 else 0)"
  by (simp_all add: exec_op_def exec_value_def SetValue_def Let_def)

declare job_effect.simps [simp del]

text \<open>
  A reaction keeps the invariant and the unit it is about. An action of the user, in addition,
  is predicted: the level that is shown is what its jobs make of the service's level.
\<close>

locale control_reaction =
  fixes react :: "widget_env \<Rightarrow> ControlWidget \<Rightarrow> ControlWidget option"
  assumes keeps: "control_ok w \<Longrightarrow> ready env w \<Longrightarrow>
      \<exists>w'. react env w = Some w' \<and> control_ok w' \<and> waddress w' = waddress w"
begin

lemma keeps_ready:
  assumes "control_ok w" and "ready env w"
  shows "\<exists>w'. react env w = Some w' \<and> control_ok w' \<and> ready env w'"
  using keeps [OF assms] assms(2) ready_cong by blast

end

locale control_action = control_reaction +
  assumes predicts: "control_ok w \<Longrightarrow> ready env w \<Longrightarrow> react env w = Some w' \<Longrightarrow>
      \<exists>js. sent w' = sent w @ js \<and>
        list_all (\<lambda>j. job_source j = waddress w) js \<and>
        (\<forall>c. clevel c = wvalue w \<longrightarrow> clevel (fold job_effect js c) = wvalue w')"

section \<open>Setting a level\<close>

lemma setUnitTo_ready:
  assumes "ready env w"
  shows "setUnitTo env v w =
     (if v = wvalue w then w
      else refreshOnOff (refreshSlider (checkTimer env v
             ((set_wvalue v (w\<lparr>m_timerSuspendUpdate := Some 6000\<rparr>))
                \<lparr>sent := sent w @ [JobSet (waddress w) v]\<rparr>))))"
  using assms
  by (auto simp: setUnitTo_def ready_def set_wvalue_def waddress_def X10Unit_address_def Let_def split: option.splits)

lemma waddress_update [simp]:
  "waddress (w\<lparr>m_timerSuspendUpdate := x\<rparr>) = waddress w" "waddress (w\<lparr>sent := y\<rparr>) = waddress w"
  "waddress (w\<lparr>m_timerSwitchOff := z\<rparr>) = waddress w"
  "waddress (w\<lparr>m_lastValueUpdateRecv := u\<rparr>) = waddress w"
  "waddress (w\<lparr>m_unit := (m_unit w)\<lparr>xvalueBeforeOff := b\<rparr>\<rparr>) = waddress w"
  by (simp_all add: waddress_def X10Unit_address_def)

lemma setUnitTo_sel:
  assumes "ready env w"
  shows "waddress (setUnitTo env v w) = waddress w" and "wvalue (setUnitTo env v w) = v"
    and "sent (setUnitTo env v w) = sent w @ (if v = wvalue w then [] else [JobSet (waddress w) v])"
    and "m_unit (setUnitTo env v w) = (m_unit w)\<lparr>xvalue := v\<rparr>"
    and "m_lastValueUpdateRecv (setUnitTo env v w) = m_lastValueUpdateRecv w"
    and "v \<noteq> wvalue w \<Longrightarrow> m_timerSuspendUpdate (setUnitTo env v w) = Some 6000"
  by (simp_all add: setUnitTo_ready [OF assms]) (simp add: set_wvalue_def)

lemma setUnitTo_ok:
  assumes "control_ok w" and "ready env w" and "level_ok v"
  shows "control_ok (setUnitTo env v w)"
  using assms
  by (auto simp: setUnitTo_ready [OF assms(2)] control_ok_def refreshSlider_slider
      X10Unit_IsOn_def checkTimer_off)

lemma setUnitTo_action:
  assumes "level_ok v"
  shows "control_action (\<lambda>env w. Some (setUnitTo env v w))"
  using assms
  by unfold_locales
     (auto simp: setUnitTo_ok setUnitTo_sel job_effect_set)

lemma predicted_set:
  assumes "ready env w"
  shows "\<exists>js. sent (setUnitTo env v w) = sent w @ js \<and> list_all (\<lambda>j. job_source j = waddress w) js \<and>
     (\<forall>c. clevel c = wvalue w \<longrightarrow> clevel (fold job_effect js c) = wvalue (setUnitTo env v w))"
  using assms by (auto simp: setUnitTo_sel job_effect_set)

section \<open>The actions meet the contract\<close>

lemma MAX_level: "level_ok MAX_VALUE" "level_ok (-1)"
  by (simp_all add: level_ok_def MAX_VALUE_def)

text \<open>Each way of switching sets one level in range.\<close>

definition remember :: "ControlWidget \<Rightarrow> ControlWidget" where
  "remember w = w\<lparr>m_unit := (m_unit w)\<lparr>xvalueBeforeOff := wvalue w\<rparr>\<rparr>"

lemma remember_sel [simp]:
  "wvalue (remember w) = wvalue w" "sent (remember w) = sent w" "waddress (remember w) = waddress w"
  "IsOn (remember w) = IsOn w" "m_maximum (remember w) = m_maximum w"
  by (simp_all add: remember_def X10Unit_IsOn_def)

lemma remember_ok: "control_ok w \<Longrightarrow> control_ok (remember w)"
  by (simp add: control_ok_def) (simp add: remember_def X10Unit_IsOn_def)

lemma on_pushUnit_set:
  assumes "control_ok w"
  obtains v where "level_ok v" and "on_pushUnit env w = setUnitTo env v w"
  using that [of "if IsOn w then -1 else m_maximum w"] MAX_level control_okD(1) [OF assms]
  by (simp add: on_pushUnit_def)

lemma on_pushOnOff_set:
  assumes "control_ok w"
  obtains v w1 where "level_ok v" and "w1 = w \<or> w1 = remember w"
    and "on_pushOnOff env ui w = setUnitTo env v w1"
proof (cases "IsOn w")
  case True
  have "control_ok (if ui then remember w else w)" using assms remember_ok by simp
  then obtain v where v: "level_ok v"
      "on_pushUnit env (if ui then remember w else w) = setUnitTo env v (if ui then remember w else w)"
    using on_pushUnit_set by blast
  show thesis
    using True v by (intro that [OF v(1), of "if ui then remember w else w"])
      (auto simp: on_pushOnOff_def remember_def)
next
  case False
  obtain u where u: "level_ok u" "on_pushUnit env w = setUnitTo env u w"
    using on_pushUnit_set [OF assms] by blast
  have "\<exists>v. level_ok v \<and> on_pushOnOff env ui w = setUnitTo env v w"
    using False u control_okD(3,4) [OF assms] by (auto simp: on_pushOnOff_def Let_def)
  then show thesis using that by blast
qed

lemma remember_cases:
  assumes "w1 = w \<or> w1 = remember w" and "control_ok w" and "ready env w"
  shows "control_ok w1" and "ready env w1" and "waddress w1 = waddress w"
    and "sent w1 = sent w" and "wvalue w1 = wvalue w"
  using assms remember_ok by (auto simp: ready_def)

interpretation push_on_off: control_action "\<lambda>env w. Some (on_pushOnOff env ui w)"
proof unfold_locales
  fix w env
  assume w: "control_ok w" "ready env w"
  obtain v w1 where v: "level_ok v" "w1 = w \<or> w1 = remember w" "on_pushOnOff env ui w = setUnitTo env v w1"
    using on_pushOnOff_set [OF w(1)] by blast
  note r = remember_cases [OF v(2) w]
  show "\<exists>w'. Some (on_pushOnOff env ui w) = Some w' \<and> control_ok w' \<and> waddress w' = waddress w"
    using setUnitTo_ok [OF r(1,2) v(1)] setUnitTo_sel(1) [OF r(2), of v] r(3) v(3) by simp
  fix w'
  assume "Some (on_pushOnOff env ui w) = Some w'"
  then show "\<exists>js. sent w' = sent w @ js \<and>
      list_all (\<lambda>j. job_source j = waddress w) js \<and>
      (\<forall>c. clevel c = wvalue w \<longrightarrow> clevel (fold job_effect js c) = wvalue w')"
    using predicted_set [OF r(2), of v] r(3-5) v(3) by auto
qed

interpretation switch_on: control_action "\<lambda>env w. Some (ControlWidget_On env w)"
proof unfold_locales
  fix w env
  assume w: "control_ok w" "ready env w"
  show "\<exists>w'. Some (ControlWidget_On env w) = Some w' \<and> control_ok w' \<and> waddress w' = waddress w"
    using push_on_off.keeps [OF w, of False] w by (simp add: ControlWidget_On_def)
  fix w'
  assume "Some (ControlWidget_On env w) = Some w'"
  then show "\<exists>js. sent w' = sent w @ js \<and>
      list_all (\<lambda>j. job_source j = waddress w) js \<and>
      (\<forall>c. clevel c = wvalue w \<longrightarrow> clevel (fold job_effect js c) = wvalue w')"
    using push_on_off.predicts [OF w, of False] by (auto simp: ControlWidget_On_def split: if_splits)
qed

interpretation switch_off: control_action "\<lambda>env w. Some (ControlWidget_Off env w)"
proof unfold_locales
  fix w env
  assume w: "control_ok w" "ready env w"
  show "\<exists>w'. Some (ControlWidget_Off env w) = Some w' \<and> control_ok w' \<and> waddress w' = waddress w"
    using push_on_off.keeps [OF w, of False] w by (simp add: ControlWidget_Off_def)
  fix w'
  assume "Some (ControlWidget_Off env w) = Some w'"
  then show "\<exists>js. sent w' = sent w @ js \<and>
      list_all (\<lambda>j. job_source j = waddress w) js \<and>
      (\<forall>c. clevel c = wvalue w \<longrightarrow> clevel (fold job_effect js c) = wvalue w')"
    using push_on_off.predicts [OF w, of False] by (auto simp: ControlWidget_Off_def split: if_splits)
qed

text \<open>The slot of the switch-off timer, which has just become inactive.\<close>

lemma stopped_ok: "control_ok w \<Longrightarrow> control_ok (w\<lparr>m_timerSwitchOff := None\<rparr>)"
  by (simp add: control_ok_def)

interpretation timer: control_action
  "\<lambda>env w. Some (if m_timerSwitchOff w \<noteq> None then on_timerSwitchOff env (w\<lparr>m_timerSwitchOff := None\<rparr>) else w)"
proof unfold_locales
  fix w env
  assume w: "control_ok w" "ready env w"
  let ?w = "w\<lparr>m_timerSwitchOff := None\<rparr>"
  have s: "control_ok ?w" "ready env ?w" using w stopped_ok by (simp_all add: ready_def)
  obtain v where v: "level_ok v" "on_pushUnit env ?w = setUnitTo env v ?w"
    using on_pushUnit_set [OF s(1)] by blast
  show "\<exists>w'. Some (if m_timerSwitchOff w \<noteq> None then on_timerSwitchOff env ?w else w) = Some w'
      \<and> control_ok w' \<and> waddress w' = waddress w"
    using setUnitTo_ok [OF s v(1)] setUnitTo_sel(1) [OF s(2), of v] v(2) w s
    by (simp add: on_timerSwitchOff_def)
  fix w'
  assume "Some (if m_timerSwitchOff w \<noteq> None then on_timerSwitchOff env ?w else w) = Some w'"
  then show "\<exists>js. sent w' = sent w @ js \<and>
      list_all (\<lambda>j. job_source j = waddress w) js \<and>
      (\<forall>c. clevel c = wvalue w \<longrightarrow> clevel (fold job_effect js c) = wvalue w')"
    using predicted_set [OF s(2), of v] v(2)
    by (auto simp: on_timerSwitchOff_def split: if_splits)
qed

text \<open>Dim and bright move the level that is shown as the service moves its own.\<close>

definition moved :: "bool \<Rightarrow> int \<Rightarrow> int" where
  "moved up v =
     (let v = (if v = -1 then MAX_VALUE else v)
      in if v \<noteq> (if up then MAX_VALUE else 0) then v + (if up then 1 else -1) else v)"

lemma moved_level: "level_ok v \<Longrightarrow> level_ok (moved up v) \<and> moved up v \<noteq> -1"
  by (auto simp: moved_def level_ok_def MAX_VALUE_def Let_def)

lemma moved_effect:
  assumes "level_ok (clevel c)"
  shows "clevel (job_effect (JobSend a (if up then CMD_BRIGHT else CMD_DIM)) c) = moved up (clevel c)"
  using assms by (auto simp: job_effect_move moved_def level_ok_def Let_def)

lemma set_wvalue_twice [simp]: "set_wvalue a (set_wvalue b w) = set_wvalue a w"
  by (simp add: set_wvalue_def)

lemma set_wvalue_same: "wvalue w = v \<Longrightarrow> set_wvalue v w = w"
  by (simp add: set_wvalue_def)

lemma on_pushDirection_ready:
  assumes "control_ok w" and "ready env w"
  shows "on_pushDirection env up w =
     (let w1 = set_wvalue (moved up (wvalue w)) w in
      Some (refreshOnOff (refreshSlider (checkTimer env (moved up (wvalue w))
        (w1\<lparr>sent := sent w @ [JobSend (waddress w) (if up then CMD_BRIGHT else CMD_DIM)]\<rparr>)))))"
proof -
  have m: "m_maximum w = MAX_VALUE" using assms(1) by (rule control_okD)
  define w0 where "w0 = (if \<not> IsOn w then set_wvalue (m_maximum w) w else w)"
  have v0: "wvalue w0 = (if wvalue w = -1 then MAX_VALUE else wvalue w)" "m_maximum w0 = MAX_VALUE"
    and s0: "set_wvalue v w0 = set_wvalue v w" for v
    by (simp_all add: w0_def m X10Unit_IsOn_def)
  have "(if wvalue w0 \<noteq> (if up then m_maximum w0 else 0)
         then set_wvalue (wvalue w0 + (if up then 1 else -1)) w0 else w0)
      = set_wvalue (moved up (wvalue w)) w"
    using v0 set_wvalue_same [of w0 "moved up (wvalue w)"]
    by (auto simp: s0 moved_def Let_def)
  moreover obtain ops where "w_service env (waddress w) = Some ops" "ops ''Send''"
    using assms(2) by (auto simp: ready_def split: option.splits)
  ultimately show ?thesis
    by (simp add: on_pushDirection_def w0_def [symmetric] send_command_def Let_def)
qed

interpretation push_direction: control_action "\<lambda>env w. on_pushDirection env up w"
proof unfold_locales
  fix w env
  assume w: "control_ok w" "ready env w"
  have l: "level_ok (moved up (wvalue w))" "moved up (wvalue w) \<noteq> -1"
    using moved_level control_okD(2) [OF w(1)] by auto
  then show "\<exists>w'. on_pushDirection env up w = Some w' \<and> control_ok w' \<and> waddress w' = waddress w"
    using w(1)
    by (auto simp: on_pushDirection_ready [OF w] Let_def control_ok_def refreshSlider_slider X10Unit_IsOn_def)
  fix w'
  assume "on_pushDirection env up w = Some w'"
  then have "sent w' = sent w @ [JobSend (waddress w) (if up then CMD_BRIGHT else CMD_DIM)]"
      "wvalue w' = moved up (wvalue w)"
    by (auto simp: on_pushDirection_ready [OF w] Let_def)
  then show "\<exists>js. sent w' = sent w @ js \<and>
      list_all (\<lambda>j. job_source j = waddress w) js \<and>
      (\<forall>c. clevel c = wvalue w \<longrightarrow> clevel (fold job_effect js c) = wvalue w')"
    using moved_effect control_okD(2) [OF w(1)] by auto
qed

section \<open>The reports of the service\<close>

lemma updateValue_ok:
  assumes "control_ok w" and "level_ok v"
  shows "control_ok (updateValue v w)"
  using assms
  by (auto simp: updateValue_def control_ok_def refreshSlider_slider X10Unit_IsOn_def Let_def)

lemma updateValue_sel [simp]:
  "wvalue (updateValue v w) = v" "waddress (updateValue v w) = waddress w"
  "sent (updateValue v w) = sent w" "m_timerSuspendUpdate (updateValue v w) = m_timerSuspendUpdate w"
  "m_lastValueUpdateRecv (updateValue v w) = m_lastValueUpdateRecv w"
  by (simp_all add: updateValue_def Let_def)

interpretation end_of_suspension: control_reaction
  "\<lambda>env w. Some (if m_timerSuspendUpdate w \<noteq> None
     then on_timerEndSuspendUpdate (w\<lparr>m_timerSuspendUpdate := None\<rparr>) else w)"
proof unfold_locales
  fix w env
  assume w: "control_ok w" "ready env w"
  have "control_ok (SwitchOffTimer (w\<lparr>m_timerSuspendUpdate := None\<rparr>))"
    using w(1) by (simp add: control_ok_def)
  from updateValue_ok [OF this control_okD(5) [OF w(1)]] w(1)
  show "\<exists>w'. Some (if m_timerSuspendUpdate w \<noteq> None
      then on_timerEndSuspendUpdate (w\<lparr>m_timerSuspendUpdate := None\<rparr>) else w) = Some w'
      \<and> control_ok w' \<and> waddress w' = waddress w"
    by (auto simp: on_timerEndSuspendUpdate_def control_ok_def)
qed

text \<open>A report carries a level in range, as every report of the service does.\<close>

definition reported :: "qt_number \<Rightarrow> (string \<Rightarrow> QVariant option) \<Rightarrow> int" where
  "reported q data = qv_toInt_of q (case data ''Value'' of Some x \<Rightarrow> x | None \<Rightarrow> QV_Invalid)"

lemma dataUpdated_ok:
  assumes "control_ok w" and "level_ok (reported q data)"
  shows "control_ok (widget_dataUpdated q source data w)"
proof -
  let ?w = "w\<lparr>m_lastValueUpdateRecv := reported q data\<rparr>"
  have "control_ok ?w" and "control_ok (SwitchOffTimer ?w)" 
    and "control_ok (w\<lparr>m_lastValueUpdateRecv := wvalue w, m_timerSuspendUpdate := None\<rparr>)"
    using assms by (simp_all add: control_ok_def)
  with assms show ?thesis
    by (simp add: widget_dataUpdated_def reported_def [symmetric] Let_def updateValue_ok)
qed

lemma dataUpdated_sel [simp]:
  "waddress (widget_dataUpdated q source data w) = waddress w"
  "sent (widget_dataUpdated q source data w) = sent w"
  by (simp_all add: widget_dataUpdated_def Let_def)

section \<open>Runs\<close>

fun user_event :: "widget_event \<Rightarrow> bool" where
  "user_event (SliderMoved v) \<longleftrightarrow> level_ok v"
| "user_event SuspendTimeout \<longleftrightarrow> False"
| "user_event (DataUpdated source data) \<longleftrightarrow> False"
| "user_event _ \<longleftrightarrow> True"

fun event_ok :: "qt_number \<Rightarrow> widget_event \<Rightarrow> bool" where
  "event_ok q (SliderMoved v) \<longleftrightarrow> level_ok v"
| "event_ok q (DataUpdated source data) \<longleftrightarrow> level_ok (reported q data)"
| "event_ok q _ \<longleftrightarrow> True"

lemma user_event_ok: "user_event ev \<Longrightarrow> event_ok q ev"
  by (cases ev) simp_all

lemma event_keeps:
  assumes "event_ok q ev" and "control_ok w" and "ready env w"
  shows "\<exists>w'. widget_step q env ev w = Some w' \<and> control_ok w' \<and> waddress w' = waddress w"
proof (cases ev)
  case (SliderMoved v)
  then show ?thesis
    using assms control_reaction.keeps [OF control_action.axioms(1) [OF setUnitTo_action [of v]] assms(2,3)]
    by (simp add: sliderMoved_def)
next
  case (DataUpdated source data)
  then show ?thesis using assms dataUpdated_ok by simp
qed (use push_on_off.keeps [OF assms(2,3)] switch_on.keeps [OF assms(2,3)] switch_off.keeps [OF assms(2,3)]
       push_direction.keeps [OF assms(2,3)] timer.keeps [OF assms(2,3)]
       end_of_suspension.keeps [OF assms(2,3)] in simp_all)

lemma event_predicts:
  assumes "user_event ev" and "control_ok w" and "ready env w" and "widget_step q env ev w = Some w'"
  shows "\<exists>js. sent w' = sent w @ js \<and> list_all (\<lambda>j. job_source j = waddress w) js \<and>
     (\<forall>c. clevel c = wvalue w \<longrightarrow> clevel (fold job_effect js c) = wvalue w')"
proof (cases ev)
  case (SliderMoved v)
  then show ?thesis
    using assms control_action.predicts [OF setUnitTo_action [of v] assms(2,3)]
    by (simp add: sliderMoved_def)
next
  case (PushOnOff ui)
  then show ?thesis using assms(4) push_on_off.predicts [OF assms(2,3), of ui w'] by simp
next
  case PushDim
  then show ?thesis using assms(4) push_direction.predicts [OF assms(2,3), of False w'] by simp
next
  case PushBright
  then show ?thesis using assms(4) push_direction.predicts [OF assms(2,3), of True w'] by simp
qed (use assms switch_on.predicts [OF assms(2,3)]
       switch_off.predicts [OF assms(2,3)]
       timer.predicts [OF assms(2,3)] in simp_all)

lemma run_keeps:
  assumes "list_all (event_ok q) evs" and "control_ok w" and "ready env w"
  shows "\<exists>w'. fold_opt (widget_step q env) evs w = Some w' \<and> control_ok w' \<and> waddress w' = waddress w"
  using assms
proof (induction evs arbitrary: w)
  case Nil
  then show ?case by simp
next
  case (Cons ev evs)
  have "event_ok q ev" using Cons.prems(1) by simp
  then obtain w1 where 1: "widget_step q env ev w = Some w1" "control_ok w1" "waddress w1 = waddress w"
    using event_keeps Cons.prems(2,3) by blast
  have "ready env w1" using 1(3) Cons.prems(3) ready_cong by blast
  then show ?case using Cons.IH [OF _ 1(2)] Cons.prems(1) 1(1,3) by simp
qed

section \<open>The new control\<close>

lemma new_control_ok: "control_ok (ControlWidget_new env name ch u style horizontal MAX_VALUE)"
  by (simp add: control_ok_def ControlWidget_new_def ConnectSource_def redraw_def X10Unit_new_def
      hasStyle_def MAX_level Let_def)

lemma new_control_address:
  "waddress (ControlWidget_new env name ch u style horizontal MAX_VALUE) = ch # dec_int u"
  by (simp add: waddress_def ControlWidget_new_def ConnectSource_def redraw_def X10Unit_new_def
      X10Unit_address_def Let_def)

text \<open>The desktop with the default parameters and the services of the data engine.\<close>

definition sample_desktop :: widget_env where
  "sample_desktop =
     \<lparr>w_valid = True, w_service = (\<lambda>src. Some (isOperationEnabled (X10Service_new src))),
      w_config = \<lparr>m_configDefaultLighting = 80, m_configDefaultSwitchOffPeriodMn = 5,
        m_configSwitchOffWhenDimmedTo0 = True, m_configSwitchOffWhenDimmedTo0PeriodSecs = 20,
        m_configRememberLastIntensity = True, m_configRememberLastIntensityThreshold = 20,
        m_configUseSmartQueue = True, m_configTimeoutInc = 1\<rparr>\<rparr>"

definition sample_control :: ControlWidget where
  "sample_control = ControlWidget_new sample_desktop ''Kitchen'' CHR ''E'' 5 (ONOFF + SLIDER) True MAX_VALUE"

lemma sample_control_ok: "control_ok sample_control" "ready sample_desktop sample_control"
  using unit_service_ready [of "waddress sample_control"]
  by (simp_all add: sample_control_def new_control_ok new_control_address ready_def sample_desktop_def)

section \<open>Properties\<close>

text \<open>C30: a control of a unit, from its creation on and whatever the user does, the timers do and the
  service reports, stays within its invariant: all its levels are in range, the slider shows
  the level, its timer runs only while the unit is on, and it asks for levels in range only.\<close>

theorem control_stays_sound:
  assumes "ready env (ControlWidget_new env name ch u style horizontal MAX_VALUE)"
    and "list_all (event_ok q) evs"
  shows "\<exists>w. fold_opt (widget_step q env) evs (ControlWidget_new env name ch u style horizontal MAX_VALUE)
           = Some w \<and> control_ok w"
  using run_keeps [OF assms(2) new_control_ok assms(1)] by blast

theorem control_stays_sound_witness:
  "\<exists>w. fold_opt (widget_step std_number sample_desktop)
        [PushOnOff True, PushDim, DataUpdated ''E5'' (\<lambda>_. Some (QV_Int 2)), SuspendTimeout, SwitchOffTimeout]
        (ControlWidget_new sample_desktop ''Kitchen'' CHR ''E'' 5 (ONOFF + SLIDER) True MAX_VALUE) = Some w
     \<and> control_ok w"
  by (rule control_stays_sound)
     (use sample_control_ok(2) in \<open>simp_all add: sample_control_def reported_def qv_toInt_of_def
        level_ok_def MAX_VALUE_def\<close>)



lemma reports_held:
  assumes "m_timerSuspendUpdate w \<noteq> None" and "list_all (\<lambda>r. reported q r \<noteq> wvalue w) rs"
  shows "\<exists>w'. fold_opt (widget_step q env) (map (DataUpdated (waddress w)) rs) w = Some w'
     \<and> wvalue w' = wvalue w \<and> m_timerSuspendUpdate w' \<noteq> None
     \<and> m_lastValueUpdateRecv w' = last (m_lastValueUpdateRecv w # map (reported q) rs)"
  using assms
proof (induction rs arbitrary: w)
  case Nil
  then show ?case by simp
next
  case (Cons r rs)
  let ?w = "w\<lparr>m_lastValueUpdateRecv := reported q r\<rparr>"
  have "widget_dataUpdated q (waddress w) r w = ?w"
    using Cons.prems by (auto simp: widget_dataUpdated_def reported_def [symmetric] Let_def)
  moreover have "\<exists>w'. fold_opt (widget_step q env) (map (DataUpdated (waddress ?w)) rs) ?w = Some w'
     \<and> wvalue w' = wvalue ?w \<and> m_timerSuspendUpdate w' \<noteq> None
     \<and> m_lastValueUpdateRecv w' = last (m_lastValueUpdateRecv ?w # map (reported q) rs)"
    using Cons.prems by (intro Cons.IH) simp_all
  ultimately show ?case by simp
qed

text \<open>After the user has set a level the control holds it against all reports of other levels
  until its timer ends, six seconds after the action; then it shows the level reported last.\<close>

lemma reports_wait_for_the_timer:
  assumes "ready env w" and "v \<noteq> wvalue w" and "list_all (\<lambda>r. reported q r \<noteq> v) rs"
  shows "\<exists>w1 w2. fold_opt (widget_step q env) (SliderMoved v # map (DataUpdated (waddress w)) rs) w = Some w1
     \<and> wvalue w1 = v
     \<and> m_timerSuspendUpdate (setUnitTo env v w) = Some 6000
     \<and> widget_step q env SuspendTimeout w1 = Some w2
     \<and> wvalue w2 = last (m_lastValueUpdateRecv w # map (reported q) rs)"
proof -
  let ?w = "setUnitTo env v w"
  have t: "m_timerSuspendUpdate ?w = Some 6000" using assms(1,2) by (rule setUnitTo_sel(6))
  obtain w1 where 1: "fold_opt (widget_step q env) (map (DataUpdated (waddress w)) rs) ?w = Some w1"
      "wvalue w1 = v" "m_timerSuspendUpdate w1 \<noteq> None"
      "m_lastValueUpdateRecv w1 = last (m_lastValueUpdateRecv w # map (reported q) rs)"
    using reports_held [of ?w q rs env] t assms(3) setUnitTo_sel(1,2,5) [OF assms(1), of v] by auto
  have "\<exists>w2. widget_step q env SuspendTimeout w1 = Some w2 \<and> wvalue w2 = m_lastValueUpdateRecv w1"
    using 1(3) by (simp add: on_timerEndSuspendUpdate_def)
  with 1 t show ?thesis by (auto simp: sliderMoved_def)
qed

end
