(* ===== verification/X10_Nodes.thy ===== *)
theory X10_Nodes
  imports X10_Control_Laws
begin

text \<open>
  \<open>widget/plasmoid/control-widgetinfo.h\<close>, \<open>.cpp\<close>, \<open>nodes-model.h\<close> and \<open>.cpp\<close>: the units the
  desktop shows as rows of a table, which the user edits, and their form in the configuration
  file. A group of KDE's \<open>KConfig\<close> is a map from keys to texts; the order of its key list is
  the library's and an argument.
\<close>

section \<open>The description of a control\<close>

record ControlWidgetInfo =
  iname :: string
  ichannel :: char
  iunit :: int
  ihorizontal :: bool
  istyle :: int
  ipreferredLighting :: int
  iswitchOffPeriodMn :: int
  irow :: int
  icol :: int
  i_widget :: "ControlWidget option"

definition ControlWidgetInfo_new :: ControlWidgetInfo where
  "ControlWidgetInfo_new =
     \<lparr>iname = ''Untitled'', ichannel = CHR ''A'', iunit = 1, ihorizontal = True,
      istyle = ONOFF OR SLIDER, ipreferredLighting = 80, iswitchOffPeriodMn = 20,
      irow = 1, icol = 1, i_widget = None\<rparr>"

definition CreateWidget :: "widget_env \<Rightarrow> ControlWidgetInfo \<Rightarrow> ControlWidgetInfo" where
  "CreateWidget env i =
     (if i_widget i = None
      then i\<lparr>i_widget := Some (ControlWidget_new env (iname i) (ichannel i) (iunit i) (istyle i)
                                 (ihorizontal i) MAX_VALUE)\<rparr>
      else i)"

definition DeleteWidget :: "ControlWidgetInfo \<Rightarrow> ControlWidgetInfo" where
  "DeleteWidget i = i\<lparr>i_widget := None\<rparr>"

definition UpdateWidget :: "widget_env \<Rightarrow> ControlWidgetInfo \<Rightarrow> ControlWidgetInfo" where
  "UpdateWidget env i =
     (case i_widget i of
        None \<Rightarrow> i
      | Some w \<Rightarrow> i\<lparr>i_widget := Some
          (setStyle (istyle i)
            (setSwitchOffPeriodMn (iswitchOffPeriodMn i)
              (setPreferredLighting (ipreferredLighting i)
                (setOrientation (ihorizontal i)
                  (setUnit env (ichannel i) (iunit i)
                    (setName (iname i) w))))))\<rparr>)"

text \<open>The entry of a row: nine texts separated by slashes.\<close>

type_synonym kconfig = "string \<Rightarrow> string option"

definition info_params :: "ControlWidgetInfo \<Rightarrow> string" where
  "info_params i =
     iname i @ ''/'' @ [ichannel i] @ ''/'' @ dec_int (iunit i) @ ''/'' @ dec_int (istyle i) @ ''/'' @
     dec_int (if ihorizontal i then 1 else 0) @ ''/'' @ dec_int (ipreferredLighting i) @ ''/'' @
     dec_int (iswitchOffPeriodMn i) @ ''/'' @ dec_int (irow i) @ ''/'' @ dec_int (icol i)"

definition info_writeConfig :: "int \<Rightarrow> ControlWidgetInfo \<Rightarrow> kconfig \<Rightarrow> kconfig" where
  "info_writeConfig key i cg = cg(dec_int key \<mapsto> info_params i)"

text \<open>
  \<open>readEntry\<close> gives the empty text for a missing key; the first character of an empty text is
  the null character.
\<close>

definition first_char :: "string \<Rightarrow> char" where
  "first_char s = (case s of [] \<Rightarrow> CHR 0x00 | c # _ \<Rightarrow> c)"

definition info_readConfig :: "qt_number \<Rightarrow> int \<Rightarrow> kconfig \<Rightarrow> ControlWidgetInfo \<Rightarrow> ControlWidgetInfo" where
  "info_readConfig q key cg i =
     (let params = (case cg (dec_int key) of Some s \<Rightarrow> s | None \<Rightarrow> []);
          p = split_on CHR ''/'' params;
          num = (\<lambda>k. qv_toInt q (p ! k))
      in if length p < 9 then i\<lparr>iname := []\<rparr>
         else i\<lparr>iname := p ! 0, ichannel := first_char (p ! 1), iunit := num 2, istyle := num 3,
                ihorizontal := (num 4 \<noteq> 0), ipreferredLighting := num 5,
                iswitchOffPeriodMn := num 6, irow := num 7, icol := num 8\<rparr>)"

section \<open>The table\<close>

definition COL_NAME :: int where "COL_NAME = 0"
definition COL_CHAN :: int where "COL_CHAN = 1"
definition COL_UNIT :: int where "COL_UNIT = 2"
definition COL_HORZ :: int where "COL_HORZ = 3"
definition COL_ONDE :: int where "COL_ONDE = 4"
definition COL_OFTI :: int where "COL_OFTI = 5"
definition COL_BTOF :: int where "COL_BTOF = 6"
definition COL_BSLI :: int where "COL_BSLI = 7"
definition COL_BTUD :: int where "COL_BTUD = 8"
definition COL_ROW :: int where "COL_ROW = 9"
definition COL_COL :: int where "COL_COL = 10"

lemmas col_defs = COL_NAME_def COL_CHAN_def COL_UNIT_def COL_HORZ_def COL_ONDE_def COL_OFTI_def
  COL_BTOF_def COL_BSLI_def COL_BTUD_def COL_ROW_def COL_COL_def

definition rowCount :: "ControlWidgetInfo list \<Rightarrow> int" where "rowCount ns = int (length ns)"

definition columnCount :: int where "columnCount = 11"

text \<open>An index of the model: its row and column, and whether it is valid.\<close>

record QModelIndex =
  x_valid :: bool
  x_row :: int
  x_column :: int

datatype role = DisplayRole | EditRole | FontRole | TextAlignmentRole | CheckStateRole | ToolTipRole | OtherRole

datatype cell = Cell QVariant | BoldFont | AlignRightVCenter

definition check_state :: "bool \<Rightarrow> cell" where
  "check_state b = Cell (QV_Int (if b then 2 else 0))"

definition node_cell :: "ControlWidgetInfo \<Rightarrow> int \<Rightarrow> role \<Rightarrow> cell" where
  "node_cell i col r =
     (if r = DisplayRole \<or> r = EditRole then
        (if col = COL_NAME then Cell (QV_String (iname i))
         else if col = COL_CHAN then Cell (QV_String [ichannel i])
         else if col = COL_UNIT then Cell (QV_Int (iunit i))
         else if col = COL_HORZ then Cell (QV_String (if ihorizontal i then ''H'' else ''V''))
         else if col = COL_ONDE then Cell (QV_Int (ipreferredLighting i))
         else if col = COL_OFTI then Cell (QV_Int (iswitchOffPeriodMn i))
         else if col = COL_ROW then Cell (QV_Int (irow i))
         else if col = COL_COL then Cell (QV_Int (icol i))
         else Cell QV_Invalid)
      else if r = FontRole then (if col = COL_NAME then BoldFont else Cell QV_Invalid)
      else if r = TextAlignmentRole then
        (if col \<ge> COL_ONDE \<and> col \<le> COL_OFTI then AlignRightVCenter else Cell QV_Invalid)
      else if r = CheckStateRole then
        (if col = COL_HORZ then check_state (ihorizontal i)
         else if col = COL_BTOF then check_state (istyle i AND ONOFF \<noteq> 0)
         else if col = COL_BSLI then check_state (istyle i AND SLIDER \<noteq> 0)
         else if col = COL_BTUD then check_state (istyle i AND DIMBRIGHT \<noteq> 0)
         else Cell QV_Invalid)
      else Cell QV_Invalid)"

definition model_data :: "ControlWidgetInfo list \<Rightarrow> QModelIndex \<Rightarrow> role \<Rightarrow> cell" where
  "model_data ns x r =
     (if \<not> x_valid x then Cell QV_Invalid
      else if x_row x \<ge> rowCount ns \<or> x_row x < 0 then Cell QV_Invalid
      else node_cell (ns ! nat (x_row x)) (x_column x) r)"

definition headerData :: "int \<Rightarrow> bool \<Rightarrow> role \<Rightarrow> QVariant" where
  "headerData section horizontal r =
     (if r = DisplayRole then
        (if \<not> horizontal then QV_Invalid
         else if section = COL_NAME then QV_String ''Name''
         else if section = COL_CHAN then QV_String ''House''
         else if section = COL_UNIT then QV_String ''Unit''
         else if section = COL_HORZ then QV_String ''Hz''
         else if section = COL_ONDE then QV_String ''on %''
         else if section = COL_OFTI then QV_String ''x mn''
         else if section = COL_BTOF then QV_String ''OF''
         else if section = COL_BSLI then QV_String ''SL''
         else if section = COL_BTUD then QV_String ''UP''
         else if section = COL_ROW then QV_String ''Row''
         else if section = COL_COL then QV_String ''Col''
         else QV_Invalid)
      else if r = ToolTipRole then
        (if section = COL_NAME then QV_String ''Name of the room''
         else if section = COL_CHAN then QV_String ''House Code [A-P]''
         else if section = COL_UNIT then QV_String ''Unit Code [1-16]''
         else if section = COL_HORZ then QV_String ''Horizontal Alignment''
         else if section = COL_ONDE then QV_String ''Default Lighting level when turning on''
         else if section = COL_OFTI then QV_String ''Switch Off after period''
         else if section = COL_BTOF then QV_String ''On / Of Buttons''
         else if section = COL_BSLI then QV_String ''Slider control''
         else if section = COL_BTUD then QV_String ''Up / Down Buttons''
         else if section = COL_ROW then QV_String ''Row Position''
         else if section = COL_COL then QV_String ''Column Position''
         else QV_Invalid)
      else QV_Invalid)"

datatype item_flag = ItemIsSelectable | ItemIsEnabled | ItemIsUserCheckable | ItemIsEditable

definition model_flags :: "QModelIndex \<Rightarrow> item_flag set" where
  "model_flags x =
     {ItemIsSelectable, ItemIsEnabled} \<union>
     (if x_column x = COL_HORZ \<or> x_column x = COL_BTOF \<or> x_column x = COL_BSLI \<or> x_column x = COL_BTUD
      then {ItemIsUserCheckable} else {ItemIsEditable})"

section \<open>Editing\<close>

text \<open>\<open>QString::remove\<close> of a text: all occurrences, from left to right.\<close>

fun remove_text :: "nat \<Rightarrow> string \<Rightarrow> string \<Rightarrow> string" where
  "remove_text 0 p s = s"
| "remove_text (Suc n) p [] = []"
| "remove_text (Suc n) p (c # cs) =
     (if take (length p) (c # cs) = p then remove_text n p (drop (length p) (c # cs))
      else c # remove_text n p cs)"

definition qremove :: "string \<Rightarrow> string \<Rightarrow> string" where
  "qremove p s = remove_text (length s) p s"

definition force_channel :: "string \<Rightarrow> char" where
  "force_channel s =
     (let v = upper_char (first_char s) in
      let v = (if (of_char v :: nat) > of_char CHR ''P'' then CHR ''P'' else v) in
      if (of_char v :: nat) < of_char CHR ''A'' then CHR ''A'' else v)"

definition clamp :: "int \<Rightarrow> int \<Rightarrow> int \<Rightarrow> int" where
  "clamp lo hi v = (let v = (if v > hi then hi else v) in if v < lo then lo else v)"

definition set_style :: "int \<Rightarrow> bool \<Rightarrow> ControlWidgetInfo \<Rightarrow> ControlWidgetInfo" where
  "set_style bits on i = i\<lparr>istyle := (if on then istyle i OR bits else istyle i AND NOT bits)\<rparr>"

text \<open>One row after an edit; \<open>None\<close> when the column cannot be edited in that role.\<close>

definition edit_cell :: "qt_number \<Rightarrow> int \<Rightarrow> QVariant \<Rightarrow> ControlWidgetInfo \<Rightarrow> ControlWidgetInfo option" where
  "edit_cell q col v i =
     (if col = COL_NAME then Some (i\<lparr>iname := qv_toString v\<rparr>)
      else if col = COL_CHAN then Some (i\<lparr>ichannel := force_channel (qv_toString v)\<rparr>)
      else if col = COL_UNIT then Some (i\<lparr>iunit := clamp 0 16 (qv_toInt_of q v)\<rparr>)
      else if col = COL_ONDE then
        Some (i\<lparr>ipreferredLighting := clamp 0 100 (qv_toInt q (qremove ''%'' (qv_toString v)))\<rparr>)
      else if col = COL_OFTI then
        Some (i\<lparr>iswitchOffPeriodMn :=
                  (let n = qv_toInt q (qremove ''mn'' (qv_toString v)) in if n < 0 then 0 else n)\<rparr>)
      else if col = COL_ROW then Some (i\<lparr>irow := qv_toInt_of q v\<rparr>)
      else if col = COL_COL then Some (i\<lparr>icol := qv_toInt_of q v\<rparr>)
      else None)"

definition qv_truth :: "QVariant \<Rightarrow> bool" where
  "qv_truth v = (case qv_bool v of Some b \<Rightarrow> b | None \<Rightarrow> False)"

definition check_cell :: "int \<Rightarrow> QVariant \<Rightarrow> ControlWidgetInfo \<Rightarrow> ControlWidgetInfo option" where
  "check_cell col v i =
     (if col = COL_HORZ then Some (i\<lparr>ihorizontal := qv_truth v\<rparr>)
      else if col = COL_BTOF then Some (set_style ONOFF (qv_truth v) i)
      else if col = COL_BSLI then Some (set_style SLIDER (qv_truth v) i)
      else if col = COL_BTUD then Some (set_style DIMBRIGHT (qv_truth v) i)
      else None)"

text \<open>
  \<open>setData\<close> returns whether the edit was made, and the rows. It does not look at the range of the
  row: no result is an access outside the list.
\<close>

definition model_setData ::
    "qt_number \<Rightarrow> QModelIndex \<Rightarrow> QVariant \<Rightarrow> role \<Rightarrow> ControlWidgetInfo list
       \<Rightarrow> (bool \<times> ControlWidgetInfo list) option" where
  "model_setData q x v r ns =
     (if \<not> x_valid x then Some (False, ns)
      else if r \<noteq> EditRole \<and> r \<noteq> CheckStateRole then Some (False, ns)
      else if x_row x < 0 \<or> x_row x \<ge> rowCount ns then None
      else
        let row = nat (x_row x);
            edited = (if r = EditRole then edit_cell q (x_column x) v (ns ! row)
                      else check_cell (x_column x) v (ns ! row))
        in case edited of None \<Rightarrow> Some (False, ns) | Some i \<Rightarrow> Some (True, ns[row := i]))"

section \<open>New rows\<close>

definition findRowAvailable :: "ControlWidgetInfo list \<Rightarrow> int" where
  "findRowAvailable ns = rowCount ns + 1"

text \<open>The inner loop of the first \<open>findUnitAvailable\<close>, and the loop over the units from \<open>u\<close>.\<close>

definition unit_taken :: "ControlWidgetInfo list \<Rightarrow> char \<Rightarrow> int \<Rightarrow> bool" where
  "unit_taken ns ch u = list_ex (\<lambda>i. ichannel i = ch \<and> u = iunit i) ns"

fun free_unit_from :: "nat \<Rightarrow> ControlWidgetInfo list \<Rightarrow> char \<Rightarrow> int \<Rightarrow> int option" where
  "free_unit_from 0 ns ch u = None"
| "free_unit_from (Suc n) ns ch u =
     (if unit_taken ns ch u then free_unit_from n ns ch (u + 1) else Some u)"

definition findUnit :: "ControlWidgetInfo list \<Rightarrow> char \<Rightarrow> int option" where
  "findUnit ns ch = free_unit_from 16 ns ch 1"

text \<open>The second \<open>findUnitAvailable\<close>: at most sixteen houses, cyclically.\<close>

definition next_house :: "char \<Rightarrow> char" where
  "next_house c = (let d = char_of (of_char c + (1 :: nat)) in if d = CHR ''Q'' then CHR ''A'' else d)"

fun find_house :: "nat \<Rightarrow> ControlWidgetInfo list \<Rightarrow> char \<Rightarrow> int \<Rightarrow> char \<times> int" where
  "find_house 0 ns ch u = (ch, u)"
| "find_house (Suc n) ns ch u =
     (case findUnit ns ch of
        Some u' \<Rightarrow> (ch, u')
      | None \<Rightarrow> find_house n ns (next_house ch) u)"

definition findUnitAvailable :: "ControlWidgetInfo list \<Rightarrow> char \<Rightarrow> int \<Rightarrow> char \<times> int" where
  "findUnitAvailable ns ch u =
     find_house 16 ns (case ns of [] \<Rightarrow> ch | i # _ \<Rightarrow> ichannel i) u"

definition insertRow :: "nat \<Rightarrow> ControlWidgetInfo list \<Rightarrow> ControlWidgetInfo list" where
  "insertRow position ns =
     (let i = ControlWidgetInfo_new;
          (ch, u) = findUnitAvailable ns (ichannel i) (iunit i);
          i = i\<lparr>irow := findRowAvailable ns, ichannel := ch, iunit := u\<rparr>
      in take position ns @ [i] @ drop position ns)"

definition insertRows :: "nat \<Rightarrow> nat \<Rightarrow> ControlWidgetInfo list \<Rightarrow> ControlWidgetInfo list" where
  "insertRows position rows ns = (insertRow position ^^ rows) ns"

fun removeRows :: "nat \<Rightarrow> nat \<Rightarrow> ControlWidgetInfo list \<Rightarrow> ControlWidgetInfo list option" where
  "removeRows position 0 ns = Some ns"
| "removeRows position (Suc rows) ns =
     (if position < length ns
      then removeRows position rows (take position ns @ drop (Suc position) ns) else None)"

section \<open>The configuration file\<close>

fun write_from :: "int \<Rightarrow> ControlWidgetInfo list \<Rightarrow> kconfig \<Rightarrow> kconfig" where
  "write_from k [] cg = cg"
| "write_from k (i # rest) cg = write_from (k + 1) rest (info_writeConfig k i cg)"

definition nodes_writeConfig :: "ControlWidgetInfo list \<Rightarrow> kconfig \<Rightarrow> kconfig" where
  "nodes_writeConfig ns cg = write_from 0 ns cg"

definition nodes_readConfig ::
    "qt_number \<Rightarrow> string list \<Rightarrow> kconfig \<Rightarrow> ControlWidgetInfo list \<Rightarrow> ControlWidgetInfo list" where
  "nodes_readConfig q keyList cg ns =
     ns @ filter (\<lambda>i. iname i \<noteq> [])
       (map (\<lambda>node. info_readConfig q (qv_toInt q node) cg ControlWidgetInfo_new) keyList)"

end
