(* ===== verification/X10_Node_Laws.thy ===== *)
theory X10_Node_Laws
  imports X10_Nodes "HOL-Library.Multiset"
begin

text \<open>
  What the table of the desktop promises: its configuration file gives the rows back, new rows
  get addresses of their own, and edits keep the rows valid; and where a row with unit 0 leads.
\<close>

section \<open>The form in the file\<close>

lemma slash_no_digit [simp]: "\<not> is_digit CHR ''/''"
  by (simp add: is_digit_def)

lemma slash_not_in_dec [simp]: "CHR ''/'' \<notin> set (dec_int i)"
  by (rule dec_int_avoids) simp_all

lemma dec_int_inj [simp]: "dec_int i = dec_int j \<longleftrightarrow> i = j"
  by (metis read_int_dec_int option.inject)

text \<open>A row the file can hold: no slash in its name or house, a name, and C integers.\<close>

definition node_ok :: "ControlWidgetInfo \<Rightarrow> bool" where
  "node_ok i \<longleftrightarrow>
     CHR ''/'' \<notin> set (iname i) \<and> iname i \<noteq> [] \<and> ichannel i \<noteq> CHR ''/'' \<and>
     in_int (iunit i) \<and> in_int (istyle i) \<and> in_int (ipreferredLighting i) \<and>
     in_int (iswitchOffPeriodMn i) \<and> in_int (irow i) \<and> in_int (icol i)"

lemma split_params:
  assumes "node_ok i"
  shows "split_on CHR ''/'' (info_params i) =
     [iname i, [ichannel i], dec_int (iunit i), dec_int (istyle i), dec_int (if ihorizontal i then 1 else 0),
      dec_int (ipreferredLighting i), dec_int (iswitchOffPeriodMn i), dec_int (irow i), dec_int (icol i)]"
proof -
  have "split_on CHR ''/'' ([ichannel i] @ CHR ''/'' # t) = [ichannel i] # split_on CHR ''/'' t" for t
    using assms by (intro split_on_sep) (auto simp: node_ok_def)
  then show ?thesis
    using assms by (simp add: info_params_def split_on_sep split_on_no_sep node_ok_def del: split_on.simps)
qed

lemma qv_toInt_dec: "qt_number_ok q \<Longrightarrow> in_int i \<Longrightarrow> qv_toInt q (dec_int i) = i"
  by (simp add: qv_toInt_def qt_number_okD)

lemma flag_in_int: "in_int (if b then 1 else 0)"
  by (simp add: in_int_def INT_MIN_def INT_MAX_def)

lemma read_written:
  assumes "qt_number_ok q" and "node_ok i" and "cg (dec_int k) = Some (info_params i)"
  shows "info_readConfig q k cg j = i\<lparr>i_widget := i_widget j\<rparr>"
  using assms(2)
  by (simp add: info_readConfig_def assms(3) split_params [OF assms(2)] first_char_def Let_def
      qv_toInt_dec [OF assms(1)] flag_in_int node_ok_def)

text \<open>The entries of a written list, under the numbers of its rows.\<close>

lemma write_from_other: "(\<And>m. m < length ns \<Longrightarrow> key \<noteq> dec_int (k + int m)) \<Longrightarrow> write_from k ns cg key = cg key"
proof (induction ns arbitrary: k cg)
  case Nil
  then show ?case by simp
next
  case (Cons i ns)
  have "key \<noteq> dec_int (k + 1 + int m)" if "m < length ns" for m
    using Cons.prems [of "Suc m"] that by (simp add: algebra_simps)
  moreover have "key \<noteq> dec_int k" using Cons.prems [of 0] by simp
  ultimately show ?case by (simp add: Cons.IH info_writeConfig_def)
qed

lemma write_from_row:
  "m < length ns \<Longrightarrow> write_from k ns cg (dec_int (k + int m)) = Some (info_params (ns ! m))"
proof (induction ns arbitrary: k cg m)
  case Nil
  then show ?case by simp
next
  case (Cons i ns)
  show ?case
  proof (cases m)
    case 0
    then show ?thesis by (simp add: write_from_other info_writeConfig_def)
  next
    case (Suc n)
    then show ?thesis using Cons.IH [of n "k + 1"] Cons.prems by (simp add: algebra_simps)
  qed
qed

lemma written_keys:
  "dom (nodes_writeConfig ns Map.empty) = dec_int ` int ` {0..<length ns}"
proof (intro equalityI subsetI)
  fix key
  assume "key \<in> dom (nodes_writeConfig ns Map.empty)"
  then have "write_from 0 ns Map.empty key \<noteq> Map.empty key" by (auto simp: nodes_writeConfig_def)
  then have "\<not> (\<forall>m < length ns. key \<noteq> dec_int (0 + int m))"
    by (rule contrapos_nn) (rule write_from_other, blast)
  then show "key \<in> dec_int ` int ` {0..<length ns}" by auto
next
  fix key
  assume "key \<in> dec_int ` int ` {0..<length ns}"
  then obtain m where "m < length ns" "key = dec_int (int m)" by auto
  then show "key \<in> dom (nodes_writeConfig ns Map.empty)"
    using write_from_row [of m ns 0 Map.empty] by (auto simp: nodes_writeConfig_def)
qed

section \<open>Free addresses\<close>

lemma free_unit_Some:
  "free_unit_from n ns ch u = Some v \<Longrightarrow>
     u \<le> v \<and> v < u + int n \<and> \<not> unit_taken ns ch v \<and> (\<forall>x. u \<le> x \<and> x < v \<longrightarrow> unit_taken ns ch x)"
proof (induction n arbitrary: u)
  case 0
  then show ?case by simp
next
  case (Suc n)
  show ?case
  proof (cases "unit_taken ns ch u")
    case True
    with Suc have IH: "u + 1 \<le> v" "v < u + 1 + int n" "\<not> unit_taken ns ch v"
      "\<forall>x. u + 1 \<le> x \<and> x < v \<longrightarrow> unit_taken ns ch x" by auto
    have "unit_taken ns ch x" if "u \<le> x" "x < v" for x
      using that True IH(4) by (cases "x = u") auto
    with IH show ?thesis by auto
  next
    case False
    with Suc.prems show ?thesis by auto
  qed
qed

lemma free_unit_None:
  "free_unit_from n ns ch u = None \<Longrightarrow> u \<le> v \<Longrightarrow> v < u + int n \<Longrightarrow> unit_taken ns ch v"
proof (induction n arbitrary: u)
  case 0
  then show ?case by simp
next
  case (Suc n)
  then have "unit_taken ns ch u" and "free_unit_from n ns ch (u + 1) = None"
    by (auto split: if_splits)
  with Suc show ?case by (cases "v = u") auto
qed

lemma find_house_finds:
  assumes "k < n" and "findUnit ns ((next_house ^^ k) ch) \<noteq> None"
  shows "\<exists>j v. j \<le> k \<and> find_house n ns ch u = ((next_house ^^ j) ch, v)
           \<and> findUnit ns ((next_house ^^ j) ch) = Some v"
  using assms
proof (induction n arbitrary: k ch)
  case 0
  then show ?case by simp
next
  case (Suc n)
  show ?case
  proof (cases "findUnit ns ch")
    case None
    with Suc.prems obtain m where k: "k = Suc m" by (cases k) auto
    then have "m < n" and "findUnit ns ((next_house ^^ m) (next_house ch)) \<noteq> None"
      using Suc.prems by (simp_all add: funpow_swap1)
    from Suc.IH [OF this] obtain j v where j: "j \<le> m"
        "find_house n ns (next_house ch) u = ((next_house ^^ j) (next_house ch), v)"
        "findUnit ns ((next_house ^^ j) (next_house ch)) = Some v"
      by blast
    then show ?thesis
      using None k by (intro exI [of _ "Suc j"] exI [of _ v]) (simp add: funpow_swap1)
  next
    case (Some v)
    then show ?thesis by (intro exI [of _ 0] exI [of _ v]) simp
  qed
qed

text \<open>The houses A to P by number; \<open>next_house\<close> goes round them.\<close>

definition house :: "nat \<Rightarrow> char" where
  "house n = char_of (65 + n mod 16)"

lemma of_char_house: "(of_char (house n) :: nat) = 65 + n mod 16"
  by (simp add: house_def of_char_of)

lemma house_letter_house: "house_letter (house n)"
  by (simp add: house_letter_range of_char_house)

lemma house_of_letter:
  assumes "house_letter h"
  obtains n where "n < 16" and "h = house n"
proof -
  have "h = house (of_char h - 65)" and "of_char h - 65 < (16 :: nat)"
    using assms by (auto simp: house_letter_range char_eq_of_char of_char_house simp del: of_char_eq_iff)
  then show thesis using that by blast
qed

lemma next_house_house: "next_house (house n) = house (Suc n)"
proof -
  have "(of_char (next_house (house n)) :: nat) = 65 + Suc n mod 16"
    by (auto simp: next_house_def Let_def char_eq_of_char of_char_of of_char_house mod_Suc
        simp del: of_char_eq_iff)
  then show ?thesis by (simp add: char_eq_of_char of_char_house del: of_char_eq_iff)
qed

lemma next_house_iter: "(next_house ^^ k) (house n) = house (n + k)"
  by (induction k) (simp_all add: next_house_house)

lemma house_reached:
  assumes "house_letter ch" and "house_letter h"
  obtains k where "k < 16" and "(next_house ^^ k) ch = h"
proof -
  obtain n m where n: "n < 16" "ch = house n" and m: "m < 16" "h = house m"
    using house_of_letter assms by metis
  have "(n + (m + 16 - n) mod 16) mod 16 = m"
    using n(1) m(1) by (simp add: mod_add_right_eq)
  then have "house (n + (m + 16 - n) mod 16) = house m" using m(1) by (simp add: house_def)
  then show thesis using n m by (intro that [of "(m + 16 - n) mod 16"]) (simp_all add: next_house_iter)
qed

text \<open>With fewer than 256 rows some house has a free unit.\<close>

lemma some_unit_free:
  assumes "length ns < 256"
  shows "\<exists>h u. house_letter h \<and> 1 \<le> u \<and> u \<le> 16 \<and> \<not> unit_taken ns h u"
proof (rule ccontr)
  assume "\<not> ?thesis"
  then have all: "unit_taken ns h u" if "house_letter h" "1 \<le> u" "u \<le> 16" for h u
    using that by blast
  let ?A = "{0..<16 :: nat} \<times> {1..16 :: int}" and ?f = "\<lambda>(n, u). (house n, u)"
  let ?S = "set (map (\<lambda>i. (ichannel i, iunit i)) ns)"
  have sub: "?f ` ?A \<subseteq> ?S"
  proof
    fix p
    assume "p \<in> ?f ` ?A"
    then obtain n u where p: "p = (house n, u)" "1 \<le> u" "u \<le> 16" by auto
    then have "unit_taken ns (house n) u" using all house_letter_house by blast
    then show "p \<in> ?S" using p(1) by (force simp: unit_taken_def list_ex_iff)
  qed
  have "inj_on ?f ?A"
    by (auto simp: inj_on_def char_eq_of_char of_char_house simp del: of_char_eq_iff)
  then have "card ?A = card (?f ` ?A)" by (simp only: card_image)
  also have "\<dots> \<le> card ?S" by (rule card_mono [OF finite_set sub])
  also have "\<dots> \<le> length ns" by (metis card_length length_map)
  finally show False using assms by (simp add: card_cartesian_product)
qed

lemma findUnitAvailable_free:
  assumes "length ns < 256" and "house_letter (case ns of [] \<Rightarrow> ch | i # _ \<Rightarrow> ichannel i)"
    and "findUnitAvailable ns ch u = (h, v)"
  shows "concrete h v" and "\<not> unit_taken ns h v"
    and "\<And>x. 1 \<le> x \<Longrightarrow> x < v \<Longrightarrow> unit_taken ns h x"
proof -
  let ?c = "case ns of [] \<Rightarrow> ch | i # _ \<Rightarrow> ichannel i"
  obtain h0 u0 where 0: "house_letter h0" "1 \<le> u0" "u0 \<le> 16" "\<not> unit_taken ns h0 u0"
    using some_unit_free [OF assms(1)] by blast
  then have "findUnit ns h0 \<noteq> None"
    using free_unit_None [of 16 ns h0 1 u0] by (auto simp: findUnit_def)
  moreover obtain k where k: "k < 16" "(next_house ^^ k) ?c = h0"
    using house_reached [OF assms(2) 0(1)] by blast
  ultimately obtain j v' where j: "find_house 16 ns ?c u = ((next_house ^^ j) ?c, v')"
      "findUnit ns ((next_house ^^ j) ?c) = Some v'"
    using find_house_finds [of k 16 ns ?c u] by blast
  then have h: "h = (next_house ^^ j) ?c" "v' = v" using assms(3) by (auto simp: findUnitAvailable_def)
  obtain n where "?c = house n" using house_of_letter [OF assms(2)] by blast
  then have "house_letter h" using h(1) by (simp add: next_house_iter house_letter_house)
  moreover have "1 \<le> v \<and> v < 17 \<and> \<not> unit_taken ns h v \<and> (\<forall>x. 1 \<le> x \<and> x < v \<longrightarrow> unit_taken ns h x)"
    using free_unit_Some [of 16 ns h 1 v] j(2) h by (simp add: findUnit_def)
  ultimately show "concrete h v" and "\<not> unit_taken ns h v"
    and "\<And>x. 1 \<le> x \<Longrightarrow> x < v \<Longrightarrow> unit_taken ns h x"
    by (auto simp: concrete_def)
qed

text \<open>The address of a row; a new row keeps the addresses of a table apart.\<close>

definition row_address :: "ControlWidgetInfo \<Rightarrow> char \<times> int" where
  "row_address i = (ichannel i, iunit i)"

lemma unit_taken_address: "unit_taken ns h u \<longleftrightarrow> (h, u) \<in> row_address ` set ns"
  by (auto simp: unit_taken_def list_ex_iff row_address_def)

lemma distinct_insert:
  assumes "distinct (map f xs)" and "f i \<notin> f ` set xs"
  shows "distinct (map f (take p xs @ [i] @ drop p xs))"
proof -
  obtain ys zs where "take p xs = ys" "drop p xs = zs" "xs = ys @ zs"
    by (metis append_take_drop_id)
  with assms show ?thesis by auto
qed

section \<open>Edits\<close>

text \<open>What the two roles of an edit leave a row with: a house letter, a unit from 0 to 16, percents.\<close>

definition row_valid :: "ControlWidgetInfo \<Rightarrow> bool" where
  "row_valid i \<longleftrightarrow>
     house_letter (ichannel i) \<and> 0 \<le> iunit i \<and> iunit i \<le> 16 \<and>
     0 \<le> ipreferredLighting i \<and> ipreferredLighting i \<le> 100 \<and> 0 \<le> iswitchOffPeriodMn i"

lemma force_channel_letter: "house_letter (force_channel s)"
  by (auto simp: force_channel_def house_letter_range Let_def)

lemma clamp_range: "lo \<le> hi \<Longrightarrow> lo \<le> clamp lo hi v \<and> clamp lo hi v \<le> hi"
  by (simp add: clamp_def Let_def)

lemma edit_cell_valid: "edit_cell q col v i = Some j \<Longrightarrow> row_valid i \<Longrightarrow> row_valid j"
  using clamp_range [of 0 16] clamp_range [of 0 100]
  by (auto simp: edit_cell_def row_valid_def force_channel_letter Let_def split: if_splits)

lemma check_cell_valid: "check_cell col v i = Some j \<Longrightarrow> row_valid i \<Longrightarrow> row_valid j"
  by (auto simp: check_cell_def row_valid_def set_style_def split: if_splits)

lemma new_row_valid: "concrete h u \<Longrightarrow> row_valid (ControlWidgetInfo_new\<lparr>irow := r, ichannel := h, iunit := u\<rparr>)"
  by (simp add: row_valid_def ControlWidgetInfo_new_def concrete_def)

lemma setData_valid:
  assumes "model_setData q x v r ns = Some (b, ms)" and "list_all row_valid ns"
  shows "list_all row_valid ms"
proof (cases "\<not> x_valid x \<or> r \<noteq> EditRole \<and> r \<noteq> CheckStateRole \<or> x_row x < 0 \<or> x_row x \<ge> rowCount ns")
  case True
  with assms show ?thesis by (auto simp: model_setData_def split: if_splits)
next
  case False
  then have row: "nat (x_row x) < length ns" by (auto simp: rowCount_def)
  then have i: "row_valid (ns ! nat (x_row x))" using assms(2) by (simp add: list_all_length)
  have "list_all row_valid (ns[nat (x_row x) := j])" if "row_valid j" for j
    using assms(2) that set_update_subset_insert [of ns "nat (x_row x)" j] by (auto simp: list_all_iff)
  with assms False i show ?thesis
    by (auto simp: model_setData_def Let_def split: option.splits if_splits
        dest: edit_cell_valid check_cell_valid)
qed

text \<open>A list of user's operations on the table.\<close>

datatype table_op =
  SetCell QModelIndex QVariant role | InsertRows nat nat | RemoveRows nat nat

fun table_step :: "qt_number \<Rightarrow> table_op \<Rightarrow> ControlWidgetInfo list \<Rightarrow> ControlWidgetInfo list option" where
  "table_step q (SetCell x v r) ns = map_option snd (model_setData q x v r ns)"
| "table_step q (InsertRows p n) ns = Some (insertRows p n ns)"
| "table_step q (RemoveRows p n) ns = removeRows p n ns"

lemma insertRow_cases:
  obtains h u where "findUnitAvailable ns CHR ''A'' 1 = (h, u)"
    and "insertRow p ns = take p ns
      @ [ControlWidgetInfo_new\<lparr>irow := findRowAvailable ns, ichannel := h, iunit := u\<rparr>] @ drop p ns"
  by (cases "findUnitAvailable ns CHR ''A'' 1")
     (simp add: insertRow_def ControlWidgetInfo_new_def Let_def)

lemma head_house: "list_all row_valid ns \<Longrightarrow> house_letter (case ns of [] \<Rightarrow> CHR ''A'' | i # _ \<Rightarrow> ichannel i)"
  by (cases ns) (auto simp: row_valid_def house_letter_range)

text \<open>Without a free address left the search ends in the house it began in, with unit 1.\<close>

lemma find_house_letter:
  "house_letter ch \<Longrightarrow> find_house n ns ch 1 = (h, u) \<Longrightarrow> house_letter h \<and> 1 \<le> u \<and> u \<le> 16"
proof (induction n arbitrary: ch)
  case 0
  then show ?case by simp
next
  case (Suc n)
  obtain m where "ch = house m" using house_of_letter [OF Suc.prems(1)] by blast
  then have "house_letter (next_house ch)" by (simp add: next_house_house house_letter_house)
  with Suc show ?case
    using free_unit_Some [of 16 ns ch 1] by (auto simp: findUnit_def split: option.splits)
qed

lemma insertRow_valid: "list_all row_valid ns \<Longrightarrow> list_all row_valid (insertRow p ns)"
proof -
  assume ns: "list_all row_valid ns"
  obtain h u where hu: "findUnitAvailable ns CHR ''A'' 1 = (h, u)"
    and ins: "insertRow p ns = take p ns
      @ [ControlWidgetInfo_new\<lparr>irow := findRowAvailable ns, ichannel := h, iunit := u\<rparr>] @ drop p ns"
    by (rule insertRow_cases)
  have "concrete h u"
    using find_house_letter [OF head_house [OF ns]] hu
    by (simp add: findUnitAvailable_def concrete_def)
  then show ?thesis
    using ns new_row_valid by (auto simp: ins list_all_iff dest: in_set_takeD in_set_dropD)
qed

lemma removeRows_valid: "removeRows p n ns = Some ms \<Longrightarrow> list_all row_valid ns \<Longrightarrow> list_all row_valid ms"
  by (induction p n ns rule: removeRows.induct)
     (auto simp: list_all_iff split: if_splits dest: in_set_takeD in_set_dropD)

lemma table_step_valid: "table_step q t ns = Some ms \<Longrightarrow> list_all row_valid ns \<Longrightarrow> list_all row_valid ms"
proof (cases t)
  case (InsertRows p n)
  assume *: "table_step q t ns = Some ms" "list_all row_valid ns"
  have "list_all row_valid ((insertRow p ^^ n) ns)"
    by (induction n) (simp_all add: *(2) insertRow_valid)
  then show ?thesis using * InsertRows by (simp add: insertRows_def)
qed (auto simp: setData_valid removeRows_valid)

section \<open>Properties\<close>


definition sample_row :: ControlWidgetInfo where
  "sample_row = ControlWidgetInfo_new\<lparr>iname := ''Kitchen'', ichannel := CHR ''E'', iunit := 5\<rparr>"


text \<open>In a table with fewer rows than there are addresses a new row gets a real unit of its own,
  the lowest free one of its house; tables of distinct addresses stay so.\<close>

lemma new_row_gets_a_free_address:
  assumes "list_all row_valid ns" and "length ns < 256"
  shows "\<exists>i. insertRow p ns = take p ns @ [i] @ drop p ns
     \<and> concrete (ichannel i) (iunit i) \<and> row_address i \<notin> row_address ` set ns
     \<and> (\<forall>x. 1 \<le> x \<and> x < iunit i \<longrightarrow> (ichannel i, x) \<in> row_address ` set ns)
     \<and> (distinct (map row_address ns) \<longrightarrow> distinct (map row_address (insertRow p ns)))"
proof -
  obtain h u where hu: "findUnitAvailable ns CHR ''A'' 1 = (h, u)"
    and ins: "insertRow p ns = take p ns
      @ [ControlWidgetInfo_new\<lparr>irow := findRowAvailable ns, ichannel := h, iunit := u\<rparr>] @ drop p ns"
    by (rule insertRow_cases)
  let ?i = "ControlWidgetInfo_new\<lparr>irow := findRowAvailable ns, ichannel := h, iunit := u\<rparr>"
  note free = findUnitAvailable_free [OF assms(2) head_house [OF assms(1)] hu]
  have "row_address ?i \<notin> row_address ` set ns"
    using free(2) by (simp add: unit_taken_address row_address_def)
  with free ins distinct_insert [of row_address ns ?i p] show ?thesis
    by (intro exI [of _ ?i]) (simp add: unit_taken_address)
qed

text \<open>Whatever the user does to the table, its rows keep a house letter, a unit from 0 to 16,
  a lighting in percent and a period that is not negative.\<close>

lemma edited_rows_stay_valid:
  assumes "fold_opt (table_step q) ts [] = Some ns"
  shows "list_all row_valid ns"
proof -
  have "list_all row_valid ms \<Longrightarrow> fold_opt (table_step q) ts ms = Some ns \<Longrightarrow> list_all row_valid ns" for ms
    by (induction ts arbitrary: ms) (auto split: option.splits dest: table_step_valid)
  from this [OF _ assms] show ?thesis by simp
qed

text \<open>C29: unit 0 is accepted in the table and makes the control's address a pattern: once the desktop
  has asked for its value, a command to the whole house never returns in the service.\<close>

theorem unit_zero_stops_the_service:
  assumes "qt_number_ok q" and "house_letter (ichannel i)" and "i_widget i = None"
    and "edit_cell q COL_UNIT (QV_Int 0) i = Some j"
    and "i_widget (CreateWidget env j) = Some w" and "st_inv (Containers s)"
  shows "QueueCommand depth q now (COMMAND_new now (ichannel i) 0 t v) (snd (svc_GetValue q (waddress w) s)) = None"
proof -
  let ?a = "[ichannel i, digit_char 0]"
  have d: "dec_int 0 = [digit_char 0]" by (simp add: dec_int_def dec_nat.simps)
  have "waddress w = ?a"
    using assms(3-5) by (auto simp: edit_cell_def col_defs clamp_def qv_toInt_of_def CreateWidget_def
        new_control_address d)
  moreover have "upper_char (digit_char 0) = digit_char 0"
    by (simp add: upper_char_def digit_char_def of_char_of)
  ultimately have a: "svc_GetValue q (waddress w) s = qm_GetValue q ?a s"
    using house_letter_upper [OF assms(2)] by (simp add: svc_GetValue_def to_upper_def)
  have "toInt q [digit_char 0] = Some 0"
    using qt_number_okD(1) [OF assms(1), of 0] d by (simp add: in_int_def INT_MIN_def INT_MAX_def)
  moreover have "[digit_char 0] \<noteq> ''*''" using d dec_int_not_star [of 0] by metis
  ultimately have src: "sourceToAddress q ?a ch0 u0 = (True, ichannel i, 0)" for ch0 u0
    using assms(2) by (simp add: sourceToAddress_def house_letter_upper)
  let ?s = "snd (qm_GetValue q ?a s)"
  have "Containers ?s = CheckContainerExist ?a (Containers s)"
    using src by (simp add: qm_GetValue_def isValidAddress_def Let_def)
  then have "?a \<in> set (st_keys (Containers ?s))" using CheckContainerExist_keys [OF assms(6)] by simp
  moreover have "CHR '' '' \<notin> set ?a"
    using house_letter_not_space [OF assms(2)] dec_int_avoids [of "CHR '' ''" 0] d by auto
  ultimately have "?a \<in> set (nodes ?s)" using node_in_nodes by blast
  then show ?thesis
    unfolding a by (rule QueueCommand_loops [where h = "ichannel i"]) (simp_all add: src is_pattern_def)
qed

theorem unit_zero_stops_the_service_witness:
  "\<exists>j w. edit_cell std_number COL_UNIT (QV_Int 0) sample_row = Some j
     \<and> i_widget (CreateWidget sample_desktop j) = Some w
     \<and> (\<forall>depth. QueueCommand depth std_number 0 (COMMAND_new 0 CHR ''E'' 0 CMD_OFF (-1))
          (snd (svc_GetValue std_number (waddress w) sample_manager)) = None)"
proof -
  obtain j where j: "edit_cell std_number COL_UNIT (QV_Int 0) sample_row = Some j"
    by (simp add: edit_cell_def col_defs)
  have n: "i_widget sample_row = None" "ichannel sample_row = CHR ''E''"
    by (simp_all add: sample_row_def ControlWidgetInfo_new_def)
  have "i_widget j = None" using j n(1) by (auto simp: edit_cell_def col_defs)
  then obtain w where w: "i_widget (CreateWidget sample_desktop j) = Some w"
    by (simp add: CreateWidget_def)
  have "house_letter (ichannel sample_row)" by (simp add: n house_letter_range)
  from unit_zero_stops_the_service [OF std_number_ok this n(1) j w, of sample_manager] j w n(2)
  show ?thesis by (auto simp: sample_manager_def QueueManager_new_def st_inv_def)
qed

end
