(* ===== verification/X10_Widget.thy ===== *)
theory X10_Widget
  imports X10_Node_Laws
begin

text \<open>
  \<open>widget/plasmoid/x10-widget.h\<close>, \<open>.cpp\<close> and the configuration part of
  \<open>x10-widget-settings.cpp\<close>: the applet with its parameters, its table of units and its copy of
  the rules. KDE's \<open>KConfig\<close> is seen as a map from keys to values that gives back what was
  written; painting and dialogs are not modelled, the settings form is a record of its fields.
\<close>

record X10Widget =
  x_config :: WidgetConfig
  m_dbusControllerStr :: string
  m_dbusControllerConnected :: bool
  m_nodes :: "ControlWidgetInfo list"
  m_rules :: "Rule list"
  m_rulesSaved :: string
  m_serviceStatus :: string
  m_serviceIsRunning :: bool

definition defaultConfig :: WidgetConfig where
  "defaultConfig =
     \<lparr>m_configDefaultLighting = 80, m_configDefaultSwitchOffPeriodMn = 5,
      m_configSwitchOffWhenDimmedTo0 = True, m_configSwitchOffWhenDimmedTo0PeriodSecs = 20,
      m_configRememberLastIntensity = True, m_configRememberLastIntensityThreshold = 20,
      m_configUseSmartQueue = True, m_configTimeoutInc = 1\<rparr>"

text \<open>The two members of the controller are not set by the constructor: \<open>garbage\<close>.\<close>

definition X10Widget_new :: "string \<times> bool \<Rightarrow> X10Widget" where
  "X10Widget_new garbage =
     \<lparr>x_config = defaultConfig, m_dbusControllerStr = fst garbage, m_dbusControllerConnected = snd garbage,
      m_nodes = [], m_rules = [], m_rulesSaved = [], m_serviceStatus = ''Unknown'',
      m_serviceIsRunning = False\<rparr>"

section \<open>Calls of the general service\<close>

text \<open>The operation that is started on the service of the empty source, with its parameters.\<close>

type_synonym service_call = "string \<times> (string \<times> QVariant) list"

definition general_service :: "widget_env \<Rightarrow> string \<Rightarrow> bool" where
  "general_service env operation \<longleftrightarrow>
     w_valid env \<and> (case w_service env [] of None \<Rightarrow> False | Some ops \<Rightarrow> ops operation)"

definition widget_SetProperty :: "widget_env \<Rightarrow> string \<Rightarrow> QVariant \<Rightarrow> bool \<times> service_call list" where
  "widget_SetProperty env property v =
     (if general_service env ''SetProperty''
      then (True, [(''SetProperty'', [(''Property'', QV_String property), (''Value'', v)])])
      else (False, []))"

definition SendToService :: "widget_env \<Rightarrow> string \<Rightarrow> bool \<times> service_call list" where
  "SendToService env operation =
     (if operation \<noteq> [] \<and> general_service env operation then (True, [(operation, [])]) else (False, []))"

definition settingsReloadDBUS :: "widget_env \<Rightarrow> service_call list" where
  "settingsReloadDBUS env = (if general_service env ''Reload'' then [(''Reload'', [])] else [])"

section \<open>All units\<close>

definition on_widget :: "(ControlWidget \<Rightarrow> ControlWidget) \<Rightarrow> ControlWidgetInfo \<Rightarrow> ControlWidgetInfo option" where
  "on_widget f i = (case i_widget i of None \<Rightarrow> None | Some w \<Rightarrow> Some (i\<lparr>i_widget := Some (f w)\<rparr>))"

text \<open>Both loops call through \<open>GetWidget()\<close> without a test: \<open>None\<close> is the null access.\<close>

fun for_all_nodes :: "(ControlWidget \<Rightarrow> ControlWidget) \<Rightarrow> ControlWidgetInfo list \<Rightarrow> ControlWidgetInfo list option" where
  "for_all_nodes f [] = Some []"
| "for_all_nodes f (i # rest) =
     (case on_widget f i of
        None \<Rightarrow> None
      | Some j \<Rightarrow> (case for_all_nodes f rest of None \<Rightarrow> None | Some js \<Rightarrow> Some (j # js)))"

definition widget_AllOff :: "widget_env \<Rightarrow> X10Widget \<Rightarrow> X10Widget option" where
  "widget_AllOff env x = map_option (\<lambda>ns. x\<lparr>m_nodes := ns\<rparr>) (for_all_nodes (ControlWidget_Off env) (m_nodes x))"

definition widget_AllOn :: "widget_env \<Rightarrow> X10Widget \<Rightarrow> X10Widget option" where
  "widget_AllOn env x = map_option (\<lambda>ns. x\<lparr>m_nodes := ns\<rparr>) (for_all_nodes (ControlWidget_On env) (m_nodes x))"

text \<open>\<open>layoutControlWidgets\<close> creates the missing controls and updates all of them.\<close>

definition layoutControlWidgets :: "widget_env \<Rightarrow> X10Widget \<Rightarrow> X10Widget" where
  "layoutControlWidgets env x =
     x\<lparr>m_nodes := map (\<lambda>i. UpdateWidget env (CreateWidget env i)) (m_nodes x)\<rparr>"

definition nodeButtonAdd :: "qt_number \<Rightarrow> widget_env \<Rightarrow> X10Widget \<Rightarrow> X10Widget option" where
  "nodeButtonAdd q env x =
     (let at = (\<lambda>col. \<lparr>x_valid = True, x_row = 0, x_column = col\<rparr>);
          c = x_config x
      in case model_setData q (at COL_ONDE) (QV_Int (m_configDefaultLighting c)) EditRole
                (insertRows 0 1 (m_nodes x)) of
           None \<Rightarrow> None
         | Some (_, ns) \<Rightarrow>
             (case model_setData q (at COL_OFTI) (QV_Int (m_configDefaultSwitchOffPeriodMn c)) EditRole ns of
                None \<Rightarrow> None
              | Some (_, ns) \<Rightarrow> Some (layoutControlWidgets env (x\<lparr>m_nodes := ns\<rparr>))))"

definition nodeButtonRem :: "nat \<Rightarrow> X10Widget \<Rightarrow> X10Widget option" where
  "nodeButtonRem row x =
     (if row < length (m_nodes x)
      then map_option (\<lambda>ns. x\<lparr>m_nodes := ns\<rparr>)
             (removeRows row 1 ((m_nodes x)[row := DeleteWidget (m_nodes x ! row)]))
      else None)"

section \<open>The configuration file\<close>

type_synonym kgroup = "string \<Rightarrow> QVariant option"

definition widget_writeConfig :: "X10Widget \<Rightarrow> kgroup \<times> kconfig" where
  "widget_writeConfig x =
     (let c = x_config x in
      ([''DefaultLighting'' \<mapsto> QV_Int (m_configDefaultLighting c),
        ''DefaultSwitchOffPeriodMn'' \<mapsto> QV_Int (m_configDefaultSwitchOffPeriodMn c),
        ''SwitchOffWhenDimmedTo0'' \<mapsto> QV_Bool (m_configSwitchOffWhenDimmedTo0 c),
        ''SwitchOffWhenDimmedTo0PeriodSecs'' \<mapsto> QV_Int (m_configSwitchOffWhenDimmedTo0PeriodSecs c),
        ''RememberLastIntensity'' \<mapsto> QV_Bool (m_configRememberLastIntensity c),
        ''RememberLastIntensityThreshold'' \<mapsto> QV_Int (m_configRememberLastIntensityThreshold c),
        ''TimeoutInc'' \<mapsto> QV_Int (m_configTimeoutInc c)],
       nodes_writeConfig (m_nodes x) Map.empty))"

definition readInt :: "qt_number \<Rightarrow> kgroup \<Rightarrow> string \<Rightarrow> int \<Rightarrow> int" where
  "readInt q cg key d = (case cg key of Some v \<Rightarrow> qv_toInt_of q v | None \<Rightarrow> d)"

definition readBool :: "kgroup \<Rightarrow> string \<Rightarrow> bool \<Rightarrow> bool" where
  "readBool cg key d = (case cg key of Some v \<Rightarrow> qv_truth v | None \<Rightarrow> d)"

definition readParameters :: "qt_number \<Rightarrow> kgroup \<Rightarrow> WidgetConfig \<Rightarrow> WidgetConfig" where
  "readParameters q cg c =
     c\<lparr>m_configDefaultLighting := readInt q cg ''DefaultLighting'' (m_configDefaultLighting c),
       m_configDefaultSwitchOffPeriodMn :=
         (if cg ''DefaultDefaultSwitchOffPeriodMn'' \<noteq> None
          then readInt q cg ''DefaultSwitchOffPeriodMn'' (m_configDefaultSwitchOffPeriodMn c)
          else m_configDefaultSwitchOffPeriodMn c),
       m_configSwitchOffWhenDimmedTo0 := readBool cg ''SwitchOffWhenDimmedTo0'' (m_configSwitchOffWhenDimmedTo0 c),
       m_configSwitchOffWhenDimmedTo0PeriodSecs :=
         readInt q cg ''SwitchOffWhenDimmedTo0PeriodSecs'' (m_configSwitchOffWhenDimmedTo0PeriodSecs c),
       m_configRememberLastIntensity := readBool cg ''RememberLastIntensity'' (m_configRememberLastIntensity c),
       m_configRememberLastIntensityThreshold :=
         readInt q cg ''RememberLastIntensityThreshold'' (m_configRememberLastIntensityThreshold c),
       m_configTimeoutInc := readInt q cg ''TimeoutInc'' (m_configTimeoutInc c)\<rparr>"

text \<open>The group of the nodes is \<open>None\<close> when the file has none. Rows that are there are kept.\<close>

definition widget_readConfig ::
    "qt_number \<Rightarrow> widget_env \<Rightarrow> kgroup \<Rightarrow> (string list \<times> kconfig) option \<Rightarrow> X10Widget \<Rightarrow> X10Widget" where
  "widget_readConfig q env cg ng x =
     (let x = x\<lparr>x_config := readParameters q cg (x_config x)\<rparr>
      in case ng of
           None \<Rightarrow> x
         | Some (keyList, ncg) \<Rightarrow>
             layoutControlWidgets env
               (if rowCount (m_nodes x) = 0
                then x\<lparr>m_nodes := nodes_readConfig q keyList ncg (m_nodes x)\<rparr> else x))"

text \<open>The fields of the settings form.\<close>

record SettingsForm =
  f_DefaultLighting :: int
  f_DefaultSwitchOffPeriod :: int
  f_SwitchOffWhenDimmedTo0 :: bool
  f_SwitchOffWhenDimmedTo0Secs :: int
  f_RememberLastIntensity :: bool
  f_RememberLastIntensityThreshold :: int
  f_UseSmartQueue :: bool
  f_ControllerIP :: string
  f_ControllerPort :: string
  f_ControllerStatus :: string

definition plasmoidToCfg :: "X10Widget \<Rightarrow> SettingsForm" where
  "plasmoidToCfg x =
     (let c = x_config x;
          parts = split_skip CHR '':'' (m_dbusControllerStr x);
          (ip, port) = (if m_dbusControllerStr x = PROPVAL_CONTROLLER_SYSTEMDBUS
                        then (PROPVAL_CONTROLLER_SYSTEMDBUS, [])
                        else if length parts \<noteq> 2 then (''ERROR'', [])
                        else (parts ! 0, parts ! 1))
      in \<lparr>f_DefaultLighting = m_configDefaultLighting c,
          f_DefaultSwitchOffPeriod = m_configDefaultSwitchOffPeriodMn c,
          f_SwitchOffWhenDimmedTo0 = m_configSwitchOffWhenDimmedTo0 c,
          f_SwitchOffWhenDimmedTo0Secs = m_configSwitchOffWhenDimmedTo0PeriodSecs c,
          f_RememberLastIntensity = m_configRememberLastIntensity c,
          f_RememberLastIntensityThreshold = m_configRememberLastIntensityThreshold c,
          f_UseSmartQueue = m_configUseSmartQueue c, f_ControllerIP = ip, f_ControllerPort = port,
          f_ControllerStatus = (if m_dbusControllerConnected x then ''Connected'' else ''Disconnected'')\<rparr>)"

text \<open>\<open>rulesToCfg\<close> remembers the rules as they are when the dialog opens.\<close>

definition rulesToCfg :: "X10Widget \<Rightarrow> X10Widget" where
  "rulesToCfg x = x\<lparr>m_rulesSaved := serializedRules (m_rules x)\<rparr>"

text \<open>
  \<open>configAccepted\<close>, with the form and the rules as the user left them (what \<open>ruleButtonSave\<close>
  stores): the jobs it starts and the applet. \<open>writeConfig\<close> follows.
\<close>

definition configAccepted :: "widget_env \<Rightarrow> SettingsForm \<Rightarrow> X10Widget \<Rightarrow> service_call list \<times> X10Widget" where
  "configAccepted env f x =
     (let c = (x_config x)
            \<lparr>m_configDefaultLighting := f_DefaultLighting f,
             m_configDefaultSwitchOffPeriodMn := f_DefaultSwitchOffPeriod f,
             m_configSwitchOffWhenDimmedTo0 := f_SwitchOffWhenDimmedTo0 f,
             m_configSwitchOffWhenDimmedTo0PeriodSecs := f_SwitchOffWhenDimmedTo0Secs f,
             m_configRememberLastIntensity := f_RememberLastIntensity f,
             m_configRememberLastIntensityThreshold := f_RememberLastIntensityThreshold f\<rparr>;
          r = (if m_rulesSaved x \<noteq> serializedRules (m_rules x)
               then snd (widget_SetProperty env PROPERTY_RULES (QV_String (serializedRules (m_rules x))))
               else []);
          s = (if m_configUseSmartQueue c \<noteq> f_UseSmartQueue f
               then snd (widget_SetProperty env PROPERTY_SMARTQUEUE (QV_Bool (f_UseSmartQueue f)))
               else [])
      in (r @ s, x\<lparr>x_config := c\<lparr>m_configUseSmartQueue := f_UseSmartQueue f\<rparr>\<rparr>))"

definition configCancelled :: "qt_number \<Rightarrow> Rule \<Rightarrow> widget_env \<Rightarrow> X10Widget \<Rightarrow> X10Widget" where
  "configCancelled q fresh env x =
     layoutControlWidgets env (x\<lparr>m_rules := deserializeRules q fresh (m_rulesSaved x)\<rparr>)"

section \<open>Data of the engine\<close>

definition data_text :: "(string \<Rightarrow> QVariant option) \<Rightarrow> string \<Rightarrow> string" where
  "data_text data key = qv_toString (case data key of Some v \<Rightarrow> v | None \<Rightarrow> QV_Invalid)"

definition data_bool :: "(string \<Rightarrow> QVariant option) \<Rightarrow> string \<Rightarrow> bool" where
  "data_bool data key = qv_truth (case data key of Some v \<Rightarrow> v | None \<Rightarrow> QV_Invalid)"

definition applet_dataUpdated ::
    "qt_number \<Rightarrow> Rule \<Rightarrow> string \<Rightarrow> (string \<Rightarrow> QVariant option) \<Rightarrow> X10Widget \<Rightarrow> X10Widget" where
  "applet_dataUpdated q fresh name data x =
     (if name = SOURCE_PROPERTIES then
        let st = data_text data PROPERTY_STATUS;
            x = (if m_serviceStatus x \<noteq> st
                 then x\<lparr>m_serviceStatus := st, m_serviceIsRunning := (st \<noteq> ''Stopped'')\<rparr> else x);
            x = x\<lparr>x_config := (x_config x)\<lparr>m_configUseSmartQueue := data_bool data PROPERTY_SMARTQUEUE\<rparr>\<rparr>;
            newRules = data_text data PROPERTY_RULES;
            x = (if newRules \<noteq> serializedRules (m_rules x)
                 then x\<lparr>m_rules := deserializeRules q fresh newRules\<rparr> else x)
        in x\<lparr>m_dbusControllerStr := data_text data PROPERTY_CONTROLLER_STR,
             m_dbusControllerConnected := data_bool data PROPERTY_CONTROLLER_STATUS\<rparr>
      else x)"

section \<open>Lemmas\<close>

lemma readParameters_written:
  "readParameters q (fst (widget_writeConfig x)) c =
     (x_config x)\<lparr>m_configDefaultSwitchOffPeriodMn := m_configDefaultSwitchOffPeriodMn c,
                  m_configUseSmartQueue := m_configUseSmartQueue c\<rparr>"
  by (simp add: readParameters_def widget_writeConfig_def readInt_def readBool_def qv_toInt_of_def
      qv_truth_def Let_def)

text \<open>A control of a row, made or updated, has the row's address.\<close>

lemma layout_has_widgets: "list_all (\<lambda>i. i_widget i \<noteq> None) (m_nodes (layoutControlWidgets env x))"
  by (auto simp: layoutControlWidgets_def list_all_iff UpdateWidget_def CreateWidget_def split: option.splits)

lemma for_all_nodes_Some:
  "list_all (\<lambda>i. i_widget i \<noteq> None) ns \<Longrightarrow> \<exists>ms. for_all_nodes f ns = Some ms \<and> length ms = length ns"
  by (induction ns) (auto simp: on_widget_def)

lemma disconnected_text_is_true: "qv_toBool (flag_text False)"
  by (simp add: qv_toBool_def flag_text_def to_upper_def upper_char_def)

text \<open>What a reconnection without an answer leaves published.\<close>

lemma reconnect_unanswered:
  assumes "m_dbusInterface (m_dbus e)"
    and "\<And>n. reply_string (e_bus env n (B_GetProperty PROPERTY_STATUS)) = None"
  shows "\<exists>e'. engine_Reconnect env e = Some (True, e')
     \<and> published e' SOURCE_PROPERTIES PROPERTY_CONTROLLER_STATUS = Some (QV_String (flag_text False))"
proof -
  have ask: "\<exists>d'. isConnected (e_bus env) d = Some (False, d') \<and> m_dbusInterface d'
      \<and> m_dbusLocation d' = m_dbusLocation d" if "m_dbusInterface d" for d
    using that assms(2) by (simp add: isConnected_def bus_do_Some)
  obtain d1 where 1: "isConnected (e_bus env) (m_dbus e) = Some (False, d1)"
    using ask [OF assms(1)] by blast
  have "\<exists>evs d2. IDBus_Connect (e_config env) (e_bus env) (IDBus_Disconnect d1)
      = Some (True, evs @ [(PROPERTY_CONTROLLER_STATUS, flag_text False)], d2)"
    using assms(2) by (simp add: IDBus_Connect_def isConnected_def bus_do_Some Let_def)
  then obtain evs d2 where "IDBus_Connect (e_config env) (e_bus env) (IDBus_Disconnect d1)
      = Some (True, evs @ [(PROPERTY_CONTROLLER_STATUS, flag_text False)], d2)"
    by blast
  with 1 show ?thesis
    by (simp add: engine_Reconnect_def IDBus_Reconnect_def on_signals_def onPropertyUpdated_def)
qed

section \<open>Properties\<close>

text \<open>The parameters written to the configuration file are those that a new applet reads, but for
  the default switch-off period, which is never read back because its key is misspelt, and for the
  smart-queue flag, which comes from the service.\<close>

lemma applet_config_read_back:
  "x_config (widget_readConfig q env (fst (widget_writeConfig x)) None (X10Widget_new garbage)) =
     (x_config x)\<lparr>m_configDefaultSwitchOffPeriodMn := 5, m_configUseSmartQueue := True\<rparr>"
  by (simp add: widget_readConfig_def readParameters_written X10Widget_new_def defaultConfig_def Let_def)

text \<open>When the bus does not answer, the engine's reconnection publishes the flag as a text of one
  null character, which the applet reads as true: the dialog says that the controller is connected.\<close>

lemma lost_controller_is_shown_connected:
  assumes "m_dbusInterface (m_dbus e)"
    and "\<And>n. reply_string (e_bus env n (B_GetProperty PROPERTY_STATUS)) = None"
  shows "\<exists>e'. engine_Reconnect env e = Some (True, e') \<and>
     f_ControllerStatus (plasmoidToCfg (applet_dataUpdated q fresh SOURCE_PROPERTIES
       (published e' SOURCE_PROPERTIES) x)) = ''Connected''"
proof -
  obtain e' where e': "engine_Reconnect env e = Some (True, e')"
      "published e' SOURCE_PROPERTIES PROPERTY_CONTROLLER_STATUS = Some (QV_String (flag_text False))"
    using reconnect_unanswered [OF assms] by blast
  have "m_dbusControllerConnected (applet_dataUpdated q fresh SOURCE_PROPERTIES
      (published e' SOURCE_PROPERTIES) x)"
    using e'(2) disconnected_text_is_true
    by (simp add: applet_dataUpdated_def data_bool_def qv_truth_def Let_def)
  with e'(1) show ?thesis by (simp add: plasmoidToCfg_def Let_def case_prod_beta)
qed

end
