(* ===== verification/X10_Rule_Editor.thy ===== *)
theory X10_Rule_Editor
  imports X10_Widget
begin

text \<open>
  The page of the rules in the settings dialog, \<open>widget/plasmoid/x10-widget-settings.cpp\<close> with the
  connections of \<open>createConfigurationInterface\<close> in \<open>x10-widget.cpp\<close>: a list of the rules, and a form
  that shows the current one and writes what is changed back to it at once. The widgets are those of
  Qt: a widget that is set by the program to another value emits its signal at once, so that the slots
  connected to it run within the slot that set it. The texts of a line edit, the check boxes and the
  activation of a combo box signal the user's changes only. \<open>None\<close> is an access outside the rules.
\<close>

section \<open>The form\<close>

record RuleForm =
  checkBoxEnabled :: bool
  addressText :: string
  addressStruck :: bool
  timeExec :: "int \<times> int"
  checkBox_Mon :: bool
  checkBox_Tue :: bool
  checkBox_Wed :: bool
  checkBox_Thu :: bool
  checkBox_Fri :: bool
  checkBox_Sat :: bool
  checkBox_Sun :: bool
  actionIndex :: int
  actionText :: string
  actionStruck :: bool
  actionVisible :: bool
  spin_repeatTimes :: int
  spin_repeatPeriod :: int
  periodEnabled :: bool
  groupEnabled :: bool

record RuleEditor =
  e_rules :: "Rule list"
  e_texts :: "string list"
  e_row :: int
  e_form :: RuleForm
  e_removeEnabled :: bool

definition comboText :: "int \<Rightarrow> string" where
  "comboText i = (if i = 0 then ''On'' else if i = 1 then ''Off'' else if i = 2 then ''Set''
                  else if i = 3 then ''Send'' else '''')"

definition current_rule :: "RuleEditor \<Rightarrow> Rule option" where
  "current_rule e =
     (if 0 \<le> e_row e \<and> e_row e < int (length (e_rules e)) then Some (e_rules e ! nat (e_row e)) else None)"

section \<open>Writing a rule back\<close>

definition form_period :: "RuleForm \<Rightarrow> int" where
  "form_period f =
     of_bool (checkBox_Mon f) * MONDAY + of_bool (checkBox_Tue f) * TUESDAY
     + of_bool (checkBox_Wed f) * WEDNESDAY + of_bool (checkBox_Thu f) * THURSDAY
     + of_bool (checkBox_Fri f) * FRIDAY + of_bool (checkBox_Sat f) * SATURDAY
     + of_bool (checkBox_Sun f) * SUNDAY"

definition form_seconds :: "int \<times> int \<Rightarrow> int" where
  "form_seconds t = fst t * 3600 + snd t * 60"

definition form_to_rule :: "RuleForm \<Rightarrow> Rule \<Rightarrow> Rule" where
  "form_to_rule f r =
     r\<lparr>enabled := checkBoxEnabled f,
       raddress := (if \<not> addressStruck f then addressText f else raddress r),
       exec_time := form_seconds (timeExec f),
       period := form_period f,
       actionType := actionIndex f,
       raction := (if \<not> actionStruck f then actionText f else raction r),
       repeatTimes := wrapu32 (spin_repeatTimes f),
       repeatPeriodMn := spin_repeatPeriod f\<rparr>"

definition saveRule :: "int \<Rightarrow> RuleEditor \<Rightarrow> RuleEditor" where
  "saveRule index e =
     (if index < 0 \<or> int (length (e_rules e)) \<le> index then e
      else let f = e_form e;
               r = e_rules e ! nat index;
               f' = (if addressStruck f then f\<lparr>addressStruck := False, addressText := raddress r\<rparr> else f);
               r' = form_to_rule f r
           in e\<lparr>e_rules := (e_rules e)[nat index := r'], e_form := f',
                e_texts := (e_texts e)[nat index := getDisplayText r']\<rparr>)"

text \<open>The list has an item for each rule. The text of the selected item is set once more, to what \<open>saveRule\<close> has just set.\<close>

definition ruleSettingsModified :: "RuleEditor \<Rightarrow> RuleEditor" where
  "ruleSettingsModified e =
     (let e = saveRule (e_row e) e in
      case current_rule e of
        Some r \<Rightarrow> e\<lparr>e_texts := (e_texts e)[nat (e_row e) := getDisplayText r]\<rparr>
      | None \<Rightarrow> e)"

definition ruleButtonSave :: "RuleEditor \<Rightarrow> RuleEditor" where
  "ruleButtonSave e = saveRule (e_row e) e"

definition ruleButtonClear :: "RuleEditor \<Rightarrow> RuleEditor" where
  "ruleButtonClear e =
     ruleSettingsModified
       (e\<lparr>e_form := (e_form e)\<lparr>checkBox_Mon := False, checkBox_Tue := False, checkBox_Wed := False,
                                checkBox_Thu := False, checkBox_Fri := False, checkBox_Sat := False,
                                checkBox_Sun := False\<rparr>\<rparr>)"

section \<open>Slots of the signals that the program's changes emit too\<close>

definition ruleTimeExecTimeChanged :: "int \<times> int \<Rightarrow> RuleEditor \<Rightarrow> RuleEditor option" where
  "ruleTimeExecTimeChanged newtime e =
     (case current_rule e of
        None \<Rightarrow> None
      | Some r \<Rightarrow> Some (if exec_time r \<noteq> form_seconds newtime then ruleSettingsModified e else e))"

definition ruleSpinBoxRepeatTimesChanged :: "int \<Rightarrow> RuleEditor \<Rightarrow> RuleEditor option" where
  "ruleSpinBoxRepeatTimesChanged newValue e =
     (case current_rule e of
        None \<Rightarrow> None
      | Some r \<Rightarrow>
          let e = (if wrap32 (repeatTimes r) \<noteq> newValue then ruleSettingsModified e else e)
          in Some (e\<lparr>e_form := (e_form e)\<lparr>periodEnabled := newValue \<noteq> 0\<rparr>\<rparr>))"

definition ruleSpinBoxRepeatPeriodChanged :: "int \<Rightarrow> RuleEditor \<Rightarrow> RuleEditor option" where
  "ruleSpinBoxRepeatPeriodChanged newValue e =
     (case current_rule e of
        None \<Rightarrow> None
      | Some r \<Rightarrow> Some (if repeatPeriodMn r \<noteq> newValue then ruleSettingsModified e else e))"

text \<open>An invalid \<open>QTime\<close> is not set.\<close>

definition set_time :: "int \<Rightarrow> int \<Rightarrow> RuleEditor \<Rightarrow> RuleEditor option" where
  "set_time h m e =
     (if 0 \<le> h \<and> h < 24 \<and> 0 \<le> m \<and> m < 60 \<and> timeExec (e_form e) \<noteq> (h, m)
      then ruleTimeExecTimeChanged (h, m) (e\<lparr>e_form := (e_form e)\<lparr>timeExec := (h, m)\<rparr>\<rparr>)
      else Some e)"

definition set_repeatTimes :: "int \<Rightarrow> RuleEditor \<Rightarrow> RuleEditor option" where
  "set_repeatTimes v e =
     (let v = max 0 (min 1439 v) in
      if spin_repeatTimes (e_form e) \<noteq> v
      then ruleSpinBoxRepeatTimesChanged v (e\<lparr>e_form := (e_form e)\<lparr>spin_repeatTimes := v\<rparr>\<rparr>)
      else Some e)"

definition set_repeatPeriod :: "int \<Rightarrow> RuleEditor \<Rightarrow> RuleEditor option" where
  "set_repeatPeriod v e =
     (let v = max 1 (min 1439 v) in
      if spin_repeatPeriod (e_form e) \<noteq> v
      then ruleSpinBoxRepeatPeriodChanged v (e\<lparr>e_form := (e_form e)\<lparr>spin_repeatPeriod := v\<rparr>\<rparr>)
      else Some e)"

definition validateRuleAction :: "qt_number \<Rightarrow> RuleEditor \<Rightarrow> bool \<times> RuleEditor" where
  "validateRuleAction q e =
     (let f = e_form e;
          struck = (if comboText (actionIndex f) = ''Send'' then \<not> validateAction (actionText f)
                    else if comboText (actionIndex f) = ''Set'' then \<not> isValidValue q (QV_String (actionText f))
                    else False)
      in (\<not> struck, e\<lparr>e_form := f\<lparr>actionStruck := struck\<rparr>\<rparr>))"

definition ruleComboBoxActionIndexChanged :: "qt_number \<Rightarrow> string \<Rightarrow> RuleEditor \<Rightarrow> RuleEditor" where
  "ruleComboBoxActionIndexChanged q action e =
     snd (validateRuleAction q
       (e\<lparr>e_form := (e_form e)\<lparr>actionVisible := (action = ''Send'' \<or> action = ''Set'')\<rparr>\<rparr>))"

text \<open>An index without an item clears the combo box.\<close>

definition set_actionIndex :: "qt_number \<Rightarrow> int \<Rightarrow> RuleEditor \<Rightarrow> RuleEditor" where
  "set_actionIndex q i e =
     (let i = (if 0 \<le> i \<and> i < 4 then i else -1) in
      if actionIndex (e_form e) \<noteq> i
      then ruleComboBoxActionIndexChanged q (comboText i) (e\<lparr>e_form := (e_form e)\<lparr>actionIndex := i\<rparr>\<rparr>)
      else e)"

section \<open>Slots of the user's changes\<close>

definition ruleLineEditActionTextChanged :: "qt_number \<Rightarrow> RuleEditor \<Rightarrow> RuleEditor" where
  "ruleLineEditActionTextChanged q e =
     (let (valid, e) = validateRuleAction q e in if valid then ruleSettingsModified e else e)"

definition validateRuleAddress :: "qt_number \<Rightarrow> RuleEditor \<Rightarrow> bool \<times> RuleEditor" where
  "validateRuleAddress q e =
     (let address = addressText (e_form e);
          valid = validateAddress q address
      in (valid, e\<lparr>e_form := (e_form e)\<lparr>addressText := to_upper address, addressStruck := \<not> valid\<rparr>\<rparr>))"

definition ruleLineEditAddressTextChanged :: "qt_number \<Rightarrow> RuleEditor \<Rightarrow> RuleEditor" where
  "ruleLineEditAddressTextChanged q e =
     (let (valid, e) = validateRuleAddress q e in if valid then ruleSettingsModified e else e)"

section \<open>Showing a rule\<close>

definition c_mod :: "int \<Rightarrow> int \<Rightarrow> int" where
  "c_mod a b = a - b * c_div a b"

definition ruleHour :: "Rule \<Rightarrow> int" where
  "ruleHour r = wrap32 (wrapu32 (c_div (exec_time r) 3600))"

definition ruleMinute :: "Rule \<Rightarrow> int" where
  "ruleMinute r = c_div (c_mod (exec_time r) 3600) 60"

definition show_nothing :: "qt_number \<Rightarrow> RuleEditor \<Rightarrow> RuleEditor option" where
  "show_nothing q e = do {
     e \<leftarrow> set_time 0 0 (e\<lparr>e_form := (e_form e)\<lparr>groupEnabled := False, checkBoxEnabled := False,
                                                addressStruck := False, addressText := ''''\<rparr>\<rparr>);
     let e = set_actionIndex q 0 (ruleButtonClear e);
     let e = e\<lparr>e_form := (e_form e)\<lparr>actionStruck := False, actionText := ''''\<rparr>\<rparr>;
     e \<leftarrow> set_repeatTimes 0 e;
     e \<leftarrow> set_repeatPeriod 0 e;
     Some (e\<lparr>e_form := (e_form e)\<lparr>periodEnabled := False\<rparr>\<rparr>)
   }"

definition show_days :: "int \<Rightarrow> RuleForm \<Rightarrow> RuleForm" where
  "show_days p f =
     f\<lparr>checkBox_Mon := period_has p MONDAY, checkBox_Tue := period_has p TUESDAY,
       checkBox_Wed := period_has p WEDNESDAY, checkBox_Thu := period_has p THURSDAY,
       checkBox_Fri := period_has p FRIDAY, checkBox_Sat := period_has p SATURDAY,
       checkBox_Sun := period_has p SUNDAY\<rparr>"

definition show_rule :: "qt_number \<Rightarrow> Rule \<Rightarrow> RuleEditor \<Rightarrow> RuleEditor option" where
  "show_rule q rule e = do {
     e \<leftarrow> set_time (ruleHour rule) (ruleMinute rule)
            (e\<lparr>e_form := (e_form e)\<lparr>groupEnabled := True, checkBoxEnabled := enabled rule,
                                     addressText := raddress rule\<rparr>\<rparr>);
     let e = set_actionIndex q (actionType rule) (e\<lparr>e_form := show_days (period rule) (e_form e)\<rparr>);
     let e = e\<lparr>e_form := (e_form e)\<lparr>actionStruck := False, actionText := raction rule\<rparr>\<rparr>;
     e \<leftarrow> set_repeatTimes (wrap32 (repeatTimes rule)) e;
     e \<leftarrow> set_repeatPeriod (repeatPeriodMn rule) e;
     Some (e\<lparr>e_form := (e_form e)\<lparr>periodEnabled := repeatTimes rule \<noteq> 0\<rparr>\<rparr>)
   }"

text \<open>The rule that is shown is a copy, taken before the form changes.\<close>

definition loadRule :: "qt_number \<Rightarrow> int \<Rightarrow> RuleEditor \<Rightarrow> RuleEditor option" where
  "loadRule q index e =
     (if index = -1 then show_nothing q e
      else if index < 0 \<or> int (length (e_rules e)) \<le> index then None
      else show_rule q (e_rules e ! nat index) e)"

section \<open>The list\<close>

text \<open>Selecting a row; the signal comes only when the row is another one.\<close>

definition select_row :: "qt_number \<Rightarrow> int \<Rightarrow> RuleEditor \<Rightarrow> RuleEditor option" where
  "select_row q r e = (if e_row e = r then Some e else loadRule q r (e\<lparr>e_row := r\<rparr>))"

definition ruleButtonAdd :: "qt_number \<Rightarrow> (int \<Rightarrow> tm) \<Rightarrow> int \<Rightarrow> RuleEditor \<Rightarrow> RuleEditor option" where
  "ruleButtonAdd q lt now e =
     (let newRule = Rule_new lt now;
          e = e\<lparr>e_rules := e_rules e @ [newRule], e_texts := e_texts e @ [getDisplayText newRule]\<rparr>
      in do {
        e \<leftarrow> select_row q (int (length (e_texts e)) - 1) e;
        Some (e\<lparr>e_removeEnabled := True\<rparr>)
      })"

text \<open>
  The list makes another row the current one before it takes the item out: the next row, or the one
  before when there is none, or no row when the item is the only one.
\<close>

definition other_row :: "int \<Rightarrow> int \<Rightarrow> int" where
  "other_row index n = (if index + 1 < n then index + 1 else index - 1)"

definition drop_nth :: "nat \<Rightarrow> 'a list \<Rightarrow> 'a list" where
  "drop_nth i xs = take i xs @ drop (Suc i) xs"

definition ruleButtonRem :: "qt_number \<Rightarrow> RuleEditor \<Rightarrow> RuleEditor option" where
  "ruleButtonRem q e =
     (let index = e_row e in
      if index = -1 then Some e
      else do {
        e \<leftarrow> select_row q (other_row index (int (length (e_texts e)))) e;
        let e = e\<lparr>e_texts := drop_nth (nat index) (e_texts e),
                  e_rules := drop_nth (nat index) (e_rules e),
                  e_row := (if index < e_row e then e_row e - 1 else e_row e)\<rparr>;
        Some (if e_texts e = [] then e\<lparr>e_removeEnabled := False\<rparr> else e)
      })"

text \<open>
  \<open>rulesToCfg\<close>, also when the rules come back from the service: the list is filled anew and has no
  current row, for which there is no signal; the form stays as it is.
\<close>

definition rules_to_list :: "RuleEditor \<Rightarrow> RuleEditor" where
  "rules_to_list e =
     e\<lparr>e_texts := map getDisplayText (e_rules e), e_row := -1, e_removeEnabled := e_rules e \<noteq> []\<rparr>"

section \<open>What showing does to the rules\<close>

lemma form_period_show_days:
  assumes "0 \<le> p" and "p < 128"
  shows "form_period (show_days p f) = p"
proof -
  let ?days = "\<lambda>p :: int. of_bool (p AND 2 \<noteq> 0) * 2 + of_bool (p AND 4 \<noteq> 0) * 4 + of_bool (p AND 8 \<noteq> 0) * 8
    + of_bool (p AND 16 \<noteq> 0) * 16 + of_bool (p AND 32 \<noteq> 0) * 32 + of_bool (p AND 64 \<noteq> 0) * 64
    + of_bool (p AND 1 \<noteq> 0)"
  have "list_all (\<lambda>p. ?days p = p) [0..127]" by code_simp
  then have "\<forall>p \<in> {0..127}. ?days p = p" by (simp only: list_all_iff set_upto)
  with assms have "?days p = p" by simp
  then show ?thesis by (simp add: form_period_def show_days_def period_has_def)
qed

text \<open>What the form can hold: a time within the day, a number of repeats and a period.\<close>

definition showable :: "Rule \<Rightarrow> bool" where
  "showable r \<longleftrightarrow>
     0 \<le> exec_time r \<and> exec_time r < SECS_IN_DAY \<and> 0 \<le> repeatTimes r \<and> repeatTimes r \<le> 1439 \<and>
     1 \<le> repeatPeriodMn r \<and> repeatPeriodMn r \<le> 1439"

lemma shown_time:
  assumes "showable r"
  shows "ruleHour r = exec_time r div 3600" and "ruleMinute r = exec_time r mod 3600 div 60"
    and "0 \<le> ruleHour r" "ruleHour r < 24" "0 \<le> ruleMinute r" "ruleMinute r < 60"
    and "form_seconds (ruleHour r, ruleMinute r) = exec_time r - exec_time r mod 60"
proof -
  have e: "0 \<le> exec_time r" "exec_time r < 86400" using assms by (simp_all add: showable_def SECS_IN_DAY_def)
  then have b: "0 \<le> exec_time r div 3600" "exec_time r div 3600 < 24" by auto
  then show h: "ruleHour r = exec_time r div 3600"
    using e by (simp add: ruleHour_def c_div_nonneg wrap32_def wrapu32_def)
  have "c_mod (exec_time r) 3600 = exec_time r mod 3600"
    using e by (simp add: c_mod_def c_div_nonneg minus_mult_div_eq_mod)
  then show m: "ruleMinute r = exec_time r mod 3600 div 60"
    using e by (simp add: ruleMinute_def c_div_nonneg)
  show "0 \<le> ruleHour r" "ruleHour r < 24" "0 \<le> ruleMinute r" "ruleMinute r < 60"
    using b by (simp_all add: h m)
  show "form_seconds (ruleHour r, ruleMinute r) = exec_time r - exec_time r mod 60"
  proof -
    have "exec_time r mod 3600 mod 60 = exec_time r mod 60" by (simp add: mod_mod_cancel)
    then show ?thesis
      using mult_div_mod_eq [of 3600 "exec_time r"] mult_div_mod_eq [of 60 "exec_time r mod 3600"]
      unfolding form_seconds_def h m fst_conv snd_conv by linarith
  qed
qed

text \<open>Setting a field to what the current rule has emits no signal that saves.\<close>

lemma current_rule_form [simp]: "current_rule (e\<lparr>e_form := f\<rparr>) = current_rule e"
  by (simp add: current_rule_def)

lemma set_time_agreeing:
  assumes "current_rule e = Some r" and "exec_time r = form_seconds (h, m)"
    and "0 \<le> h" "h < 24" "0 \<le> m" "m < 60"
  shows "set_time h m e = Some (e\<lparr>e_form := (e_form e)\<lparr>timeExec := (h, m)\<rparr>\<rparr>)"
  using assms by (auto simp: set_time_def ruleTimeExecTimeChanged_def)

lemma set_repeatTimes_agreeing:
  assumes "current_rule e = Some r" and "repeatTimes r = v" and "0 \<le> v" "v \<le> 1439"
  shows "set_repeatTimes v e = Some (e\<lparr>e_form := (e_form e)\<lparr>spin_repeatTimes := v,
           periodEnabled := (if spin_repeatTimes (e_form e) = v then periodEnabled (e_form e) else v \<noteq> 0)\<rparr>\<rparr>)"
proof -
  have v: "max 0 (min 1439 v) = v" and w: "wrap32 v = v" using assms by (simp_all add: wrap32_def)
  have "e\<lparr>e_form := (e_form e)\<lparr>spin_repeatTimes := v, periodEnabled := periodEnabled (e_form e)\<rparr>\<rparr> = e"
    if "spin_repeatTimes (e_form e) = v"
    using that by (cases e; cases "e_form e") simp
  then show ?thesis
    unfolding set_repeatTimes_def Let_def v
    using assms(1,2) w by (simp add: ruleSpinBoxRepeatTimesChanged_def)
qed

lemma set_repeatPeriod_agreeing:
  assumes "current_rule e = Some r" and "repeatPeriodMn r = v" and "1 \<le> v" "v \<le> 1439"
  shows "set_repeatPeriod v e = Some (e\<lparr>e_form := (e_form e)\<lparr>spin_repeatPeriod := v\<rparr>\<rparr>)"
proof -
  have v: "max 1 (min 1439 v) = v" using assms by simp
  have "e\<lparr>e_form := (e_form e)\<lparr>spin_repeatPeriod := v\<rparr>\<rparr> = e" if "spin_repeatPeriod (e_form e) = v"
    using that by (cases e; cases "e_form e") simp
  then show ?thesis
    unfolding set_repeatPeriod_def Let_def v
    using assms(1,2) by (simp add: ruleSpinBoxRepeatPeriodChanged_def)
qed

text \<open>The combo box changes the form only.\<close>

lemma validateRuleAction_form:
  "snd (validateRuleAction q e) = e\<lparr>e_form := (e_form e)\<lparr>actionStruck := \<not> fst (validateRuleAction q e)\<rparr>\<rparr>"
  by (simp add: validateRuleAction_def Let_def)

lemma set_actionIndex_form:
  assumes "0 \<le> i" and "i < 4"
  obtains v s where
    "set_actionIndex q i e = e\<lparr>e_form := (e_form e)\<lparr>actionIndex := i, actionVisible := v, actionStruck := s\<rparr>\<rparr>"
proof (cases "actionIndex (e_form e) = i")
  case True
  with assms have "set_actionIndex q i e = e\<lparr>e_form := (e_form e)\<lparr>actionIndex := i,
      actionVisible := actionVisible (e_form e), actionStruck := actionStruck (e_form e)\<rparr>\<rparr>"
    by (cases e; cases "e_form e") (simp add: set_actionIndex_def)
  then show ?thesis by (rule that)
next
  case False
  let ?a = "comboText i"
  let ?e = "e\<lparr>e_form := (e_form e)\<lparr>actionIndex := i, actionVisible := (?a = ''Send'' \<or> ?a = ''Set'')\<rparr>\<rparr>"
  from False assms have "set_actionIndex q i e = snd (validateRuleAction q ?e)"
    by (simp add: set_actionIndex_def ruleComboBoxActionIndexChanged_def Let_def)
  also have "\<dots> = ?e\<lparr>e_form := (e_form ?e)\<lparr>actionStruck := \<not> fst (validateRuleAction q ?e)\<rparr>\<rparr>"
    by (rule validateRuleAction_form)
  finally show ?thesis by (intro that) simp
qed

text \<open>The rules the editor makes itself.\<close>

definition plain_rule :: "Rule \<Rightarrow> bool" where
  "plain_rule r \<longleftrightarrow> showable r \<and> 0 \<le> period r \<and> period r < 128 \<and> 0 \<le> actionType r \<and> actionType r < 4"

lemma form_to_rule_same:
  assumes "checkBoxEnabled f = enabled r" and "addressStruck f \<or> addressText f = raddress r"
    and "form_seconds (timeExec f) = exec_time r" and "form_period f = period r"
    and "actionIndex f = actionType r" and "actionStruck f \<or> actionText f = raction r"
    and "wrapu32 (spin_repeatTimes f) = repeatTimes r" and "spin_repeatPeriod f = repeatPeriodMn r"
  shows "form_to_rule f r = r"
  using assms by (cases r) (auto simp: form_to_rule_def)

text \<open>The form that shows a rule, when nothing is saved on the way.\<close>

definition shown_form :: "Rule \<Rightarrow> bool \<Rightarrow> RuleForm \<Rightarrow> RuleForm" where
  "shown_form r v f =
     (show_days (period r) (f\<lparr>groupEnabled := True, checkBoxEnabled := enabled r, addressText := raddress r,
        timeExec := (ruleHour r, ruleMinute r)\<rparr>))
       \<lparr>actionIndex := actionType r, actionVisible := v, actionStruck := False, actionText := raction r,
        spin_repeatTimes := repeatTimes r, spin_repeatPeriod := repeatPeriodMn r,
        periodEnabled := repeatTimes r \<noteq> 0\<rparr>"

text \<open>The rest of \<open>loadRule\<close> after the time, for a current rule with the repeats that are shown.\<close>

lemma show_rule_rest:
  assumes s: "plain_rule r" and t: "set_time (ruleHour r) (ruleMinute r) (e\<lparr>e_form := (e_form e)\<lparr>groupEnabled := True,
        checkBoxEnabled := enabled r, addressText := raddress r\<rparr>\<rparr>)
      = Some (e'\<lparr>e_form := f\<lparr>groupEnabled := True, checkBoxEnabled := enabled r,
          addressText := raddress r, timeExec := (ruleHour r, ruleMinute r)\<rparr>\<rparr>)"
    and c: "current_rule e' = Some r'" "repeatTimes r' = repeatTimes r" "repeatPeriodMn r' = repeatPeriodMn r"
  shows "\<exists>v. show_rule q r e = Some (e'\<lparr>e_form := shown_form r v f\<rparr>)"
proof -
  from s have r: "wrap32 (repeatTimes r) = repeatTimes r" "0 \<le> repeatTimes r" "repeatTimes r \<le> 1439"
    "1 \<le> repeatPeriodMn r" "repeatPeriodMn r \<le> 1439" "0 \<le> actionType r" "actionType r < 4"
    by (simp_all add: plain_rule_def showable_def wrap32_def)
  let ?e1 = "e'\<lparr>e_form := show_days (period r) (f\<lparr>groupEnabled := True, checkBoxEnabled := enabled r,
          addressText := raddress r, timeExec := (ruleHour r, ruleMinute r)\<rparr>)\<rparr>"
  obtain v st where a: "set_actionIndex q (actionType r) ?e1
      = ?e1\<lparr>e_form := (e_form ?e1)\<lparr>actionIndex := actionType r, actionVisible := v, actionStruck := st\<rparr>\<rparr>"
    using set_actionIndex_form [OF r(6,7)] by blast
  note times = set_repeatTimes_agreeing [OF _ c(2) r(2,3)] and per = set_repeatPeriod_agreeing [OF _ c(3) r(4,5)]
  have "show_rule q r e = Some (e'\<lparr>e_form := shown_form r v f\<rparr>)"
    using a unfolding show_rule_def t
    by (simp add: times c(1) r(1) per shown_form_def)
  then show ?thesis ..
qed

lemma form_period_shown:
  assumes "plain_rule r"
  shows "form_period (shown_form r v f) = period r"
proof -
  let ?f = "f\<lparr>groupEnabled := True, checkBoxEnabled := enabled r, addressText := raddress r,
        timeExec := (ruleHour r, ruleMinute r)\<rparr>"
  have "form_period (shown_form r v f) = form_period (show_days (period r) ?f)"
    by (simp add: shown_form_def form_period_def)
  with form_period_show_days [of "period r" ?f] assms show ?thesis by (simp add: plain_rule_def)
qed

section \<open>Properties\<close>

text \<open>C33: selecting a rule of whole minutes that the form can hold changes no rule, and saving what the
  form then shows gives the same rules.\<close>

theorem viewing_a_rule_keeps_it:
  assumes "current_rule e = Some r" and "plain_rule r" and "exec_time r mod 60 = 0"
  shows "\<exists>e'. loadRule q (e_row e) e = Some e' \<and> e_rules e' = e_rules e \<and>
    e_rules (ruleButtonSave e') = e_rules e"
proof -
  let ?f = "e_form e"
  have s: "showable r" using assms(2) by (simp add: plain_rule_def)
  note time = shown_time [OF s]
  have row: "0 \<le> e_row e" "e_row e < int (length (e_rules e))" "e_rules e ! nat (e_row e) = r"
    using assms(1) by (auto simp: current_rule_def split: if_splits)
  let ?g = "?f\<lparr>groupEnabled := True, checkBoxEnabled := enabled r, addressText := raddress r\<rparr>"
  have "current_rule (e\<lparr>e_form := ?g\<rparr>) = Some r" using assms(1) by (simp only: current_rule_form)
  moreover have "exec_time r = form_seconds (ruleHour r, ruleMinute r)" using time(7) assms(3) by simp
  ultimately have "set_time (ruleHour r) (ruleMinute r) (e\<lparr>e_form := ?g\<rparr>)
      = Some (e\<lparr>e_form := ?g, e_form := (e_form (e\<lparr>e_form := ?g\<rparr>))\<lparr>timeExec := (ruleHour r, ruleMinute r)\<rparr>\<rparr>)"
    by (rule set_time_agreeing [OF _ _ time(3-6)])
  then have "set_time (ruleHour r) (ruleMinute r) (e\<lparr>e_form := ?g\<rparr>)
      = Some (e\<lparr>e_form := ?g\<lparr>timeExec := (ruleHour r, ruleMinute r)\<rparr>\<rparr>)"
    by simp
  from show_rule_rest [OF assms(2) this assms(1) refl refl, of q] obtain v where
    v: "show_rule q r e = Some (e\<lparr>e_form := shown_form r v ?f\<rparr>)" by blast
  have "form_to_rule (shown_form r v ?f) r = r"
    using form_period_shown [OF assms(2), of v ?f] time(7) assms(3) s
    by (intro form_to_rule_same)
       (simp_all add: shown_form_def show_days_def showable_def wrapu32_def)
  then have "e_rules (ruleButtonSave (e\<lparr>e_form := shown_form r v ?f\<rparr>)) = e_rules e"
    using row by (auto simp: ruleButtonSave_def saveRule_def Let_def list_update_same_conv)
  with v row show ?thesis by (simp add: loadRule_def)
qed

definition sample_rule :: Rule where
  "sample_rule = \<lparr>enabled = True, raddress = ''E5'', exec_time = 22 * 3600, period = WEEK, actionType = AT_OFF,
     raction = '''', repeatTimes = 0, repeatPeriodMn = 60, nextExecTime = MAX_TIMET\<rparr>"

definition sample_form :: RuleForm where
  "sample_form = \<lparr>checkBoxEnabled = False, addressText = '''', addressStruck = False, timeExec = (22, 38),
     checkBox_Mon = False, checkBox_Tue = False, checkBox_Wed = False, checkBox_Thu = False,
     checkBox_Fri = False, checkBox_Sat = False, checkBox_Sun = False, actionIndex = 0, actionText = '''',
     actionStruck = False, actionVisible = False, spin_repeatTimes = 0, spin_repeatPeriod = 60,
     periodEnabled = True, groupEnabled = False\<rparr>"

definition sample_editor :: "Rule \<Rightarrow> RuleEditor" where
  "sample_editor r = \<lparr>e_rules = [r], e_texts = [getDisplayText r], e_row = 0, e_form = sample_form,
     e_removeEnabled = True\<rparr>"

lemma sample_rule_plain: "plain_rule sample_rule"
  by (simp add: plain_rule_def showable_def sample_rule_def SECS_IN_DAY_def WEEK_def WEEKDAYS_def)

theorem viewing_a_rule_keeps_it_witness:
  "\<exists>e'. loadRule std_number 0 (sample_editor sample_rule) = Some e' \<and> e_rules e' = [sample_rule]"
  using viewing_a_rule_keeps_it [OF _ sample_rule_plain, of "sample_editor sample_rule" std_number]
  by (auto simp: sample_editor_def current_rule_def sample_rule_def)

lemma form_period_updates [simp]:
  "form_period (f\<lparr>groupEnabled := b\<rparr>) = form_period f" "form_period (f\<lparr>checkBoxEnabled := b\<rparr>) = form_period f"
  "form_period (f\<lparr>addressText := s\<rparr>) = form_period f" "form_period (f\<lparr>timeExec := t\<rparr>) = form_period f"
  by (simp_all add: form_period_def)

text \<open>A rule with seconds, which the service accepts, is changed by being selected: the form sets
  its time, which saves the rule while the days and the action are still those of the rule shown
  before; when the repeats are the same nothing puts them right.\<close>

lemma viewing_seconds_changes_the_rule:
  assumes "current_rule e = Some r" and "plain_rule r" and "exec_time r mod 60 \<noteq> 0"
    and "timeExec (e_form e) \<noteq> (ruleHour r, ruleMinute r)"
    and "spin_repeatTimes (e_form e) = repeatTimes r" and "spin_repeatPeriod (e_form e) = repeatPeriodMn r"
  shows "\<exists>e'. loadRule q (e_row e) e = Some e' \<and>
    e_rules e' = (e_rules e)[nat (e_row e) :=
      r\<lparr>exec_time := exec_time r - exec_time r mod 60, period := form_period (e_form e),
        actionType := actionIndex (e_form e),
        raction := (if actionStruck (e_form e) then raction r else actionText (e_form e))\<rparr>]"
proof -
  let ?f = "e_form e"
  let ?f1 = "?f\<lparr>groupEnabled := True, checkBoxEnabled := enabled r, addressText := raddress r,
        timeExec := (ruleHour r, ruleMinute r)\<rparr>"
  have s: "showable r" using assms(2) by (simp add: plain_rule_def)
  note time = shown_time [OF s]
  have row: "0 \<le> e_row e" "nat (e_row e) < length (e_rules e)" "e_rules e ! nat (e_row e) = r"
    using assms(1) by (auto simp: current_rule_def split: if_splits)
  define e' where "e' = ruleSettingsModified (e\<lparr>e_form := ?f1\<rparr>)"
  let ?r = "form_to_rule ?f1 r"
  have "wrapu32 (repeatTimes r) = repeatTimes r" using s by (simp add: showable_def wrapu32_def)
  then have r: "?r = r\<lparr>exec_time := exec_time r - exec_time r mod 60, period := form_period ?f,
      actionType := actionIndex ?f, raction := (if actionStruck ?f then raction r else actionText ?f)\<rparr>"
    using time(7) assms(5,6) by (cases r) (simp add: form_to_rule_def)
  have e': "e' = e\<lparr>e_rules := (e_rules e)[nat (e_row e) := ?r],
      e_texts := (e_texts e)[nat (e_row e) := getDisplayText ?r], e_form := ?f1\<lparr>addressStruck := False\<rparr>\<rparr>"
    using row by (simp add: e'_def ruleSettingsModified_def saveRule_def Let_def current_rule_def)
  have "set_time (ruleHour r) (ruleMinute r) (e\<lparr>e_form := ?f\<lparr>groupEnabled := True, checkBoxEnabled := enabled r,
        addressText := raddress r\<rparr>\<rparr>) = Some e'"
    using assms(1,3,4) time by (simp add: set_time_def ruleTimeExecTimeChanged_def e'_def)
  also have "e' = e'\<lparr>e_form := (?f\<lparr>addressStruck := False\<rparr>)\<lparr>groupEnabled := True, checkBoxEnabled := enabled r,
          addressText := raddress r, timeExec := (ruleHour r, ruleMinute r)\<rparr>\<rparr>"
    by (simp add: e')
  finally have t: "set_time (ruleHour r) (ruleMinute r) (e\<lparr>e_form := ?f\<lparr>groupEnabled := True,
        checkBoxEnabled := enabled r, addressText := raddress r\<rparr>\<rparr>) = Some \<dots>" .
  have "current_rule e' = Some ?r" using row by (simp add: e' current_rule_def)
  from show_rule_rest [OF assms(2) t this, of q] have "\<exists>v. show_rule q r e
      = Some (e'\<lparr>e_form := shown_form r v (?f\<lparr>addressStruck := False\<rparr>)\<rparr>)"
    by (simp add: r)
  then show ?thesis
    using row by (auto simp: loadRule_def e' r)
qed

text \<open>Setting a field without a current rule.\<close>

lemma no_rule_slots:
  assumes "current_rule e = None"
  shows "set_time 0 0 e = (if timeExec (e_form e) = (0, 0) then Some e else None)"
    and "set_repeatTimes 0 e = (if spin_repeatTimes (e_form e) = 0 then Some e else None)"
    and "set_repeatPeriod 0 e = (if spin_repeatPeriod (e_form e) = 1 then Some e else None)"
  using assms
  by (simp_all add: set_time_def set_repeatTimes_def set_repeatPeriod_def ruleTimeExecTimeChanged_def
      ruleSpinBoxRepeatTimesChanged_def ruleSpinBoxRepeatPeriodChanged_def)

text \<open>The parts that the combo box and clearing the days leave alone.\<close>

definition same_fields :: "RuleEditor \<Rightarrow> RuleEditor \<Rightarrow> bool" where
  "same_fields a b \<longleftrightarrow>
     e_row a = e_row b \<and> e_rules a = e_rules b \<and> e_texts a = e_texts b \<and>
     spin_repeatTimes (e_form a) = spin_repeatTimes (e_form b) \<and>
     spin_repeatPeriod (e_form a) = spin_repeatPeriod (e_form b)"

lemma same_fields_actionIndex: "same_fields (set_actionIndex q i e) e"
  by (simp add: same_fields_def set_actionIndex_def ruleComboBoxActionIndexChanged_def validateRuleAction_def Let_def)

lemma same_fields_clear: "e_row e = -1 \<Longrightarrow> same_fields (ruleButtonClear e) e"
  by (simp add: same_fields_def ruleButtonClear_def ruleSettingsModified_def saveRule_def current_rule_def)

lemma show_nothing_None:
  assumes "e_row e = -1"
  shows "show_nothing q e = None \<longleftrightarrow>
    timeExec (e_form e) \<noteq> (0, 0) \<or> spin_repeatTimes (e_form e) \<noteq> 0 \<or> spin_repeatPeriod (e_form e) \<noteq> 1"
proof -
  define e1 where "e1 = e\<lparr>e_form := (e_form e)\<lparr>groupEnabled := False, checkBoxEnabled := False,
                                                addressStruck := False, addressText := ''''\<rparr>\<rparr>"
  define e2 where "e2 = set_actionIndex q 0 (ruleButtonClear e1)"
  define e3 where "e3 = e2\<lparr>e_form := (e_form e2)\<lparr>actionStruck := False, actionText := ''''\<rparr>\<rparr>"
  have none: "current_rule d = None" if "e_row d = -1" for d using that by (simp add: current_rule_def)
  have e1: "e_row e1 = -1" "timeExec (e_form e1) = timeExec (e_form e)"
    "spin_repeatTimes (e_form e1) = spin_repeatTimes (e_form e)"
    "spin_repeatPeriod (e_form e1) = spin_repeatPeriod (e_form e)"
    using assms by (simp_all add: e1_def)
  from same_fields_actionIndex [of q 0 "ruleButtonClear e1"] same_fields_clear [OF e1(1)]
  have e2: "same_fields e2 e1" by (simp add: e2_def same_fields_def)
  have e3: "e_row e3 = -1" "spin_repeatTimes (e_form e3) = spin_repeatTimes (e_form e)"
    "spin_repeatPeriod (e_form e3) = spin_repeatPeriod (e_form e)"
    using e1 e2 by (simp_all add: same_fields_def e3_def)
  note slots = no_rule_slots [OF none [OF e1(1)]] no_rule_slots [OF none [OF e3(1)]]
  have "show_nothing q e = Option.bind (set_time 0 0 e1) (\<lambda>d.
      Option.bind (set_repeatTimes 0 ((set_actionIndex q 0 (ruleButtonClear d))\<lparr>e_form :=
          (e_form (set_actionIndex q 0 (ruleButtonClear d)))\<lparr>actionStruck := False, actionText := ''''\<rparr>\<rparr>)) (\<lambda>d.
      Option.bind (set_repeatPeriod 0 d) (\<lambda>d. Some (d\<lparr>e_form := (e_form d)\<lparr>periodEnabled := False\<rparr>\<rparr>))))"
    by (simp only: show_nothing_def e1_def Let_def)
  then show ?thesis
    by (simp add: slots(1) e1(2) e2_def [symmetric] e3_def [symmetric] slots(5,6) e3(2,3))
qed

text \<open>Without a current rule the form reads before the first rule: so it does when the only rule is
  removed, unless the form shows midnight, no repeats and a period of one minute, and when the form is
  changed after the rules came back from the service.\<close>

lemma no_current_rule_reads_outside:
  assumes "e_row e = 0" and "length (e_rules e) = 1" and "length (e_texts e) = 1"
  shows "(ruleButtonRem q e = None \<longleftrightarrow>
      timeExec (e_form e) \<noteq> (0, 0) \<or> spin_repeatTimes (e_form e) \<noteq> 0 \<or> spin_repeatPeriod (e_form e) \<noteq> 1) \<and>
    ruleTimeExecTimeChanged t (rules_to_list e) = None \<and>
    ruleSpinBoxRepeatTimesChanged v (rules_to_list e) = None \<and>
    ruleSpinBoxRepeatPeriodChanged v (rules_to_list e) = None"
proof -
  have "ruleButtonRem q e = None \<longleftrightarrow> show_nothing q (e\<lparr>e_row := -1\<rparr>) = None"
    using assms by (cases "show_nothing q (e\<lparr>e_row := -1\<rparr>)")
      (simp_all add: ruleButtonRem_def select_row_def other_row_def loadRule_def Let_def)
  moreover have "current_rule (rules_to_list e) = None"
    by (simp add: rules_to_list_def current_rule_def)
  ultimately show ?thesis
    by (simp add: show_nothing_None ruleTimeExecTimeChanged_def ruleSpinBoxRepeatTimesChanged_def
        ruleSpinBoxRepeatPeriodChanged_def)
qed

end
