(* ===== verification/X10_Cmd.thy ===== *)
theory X10_Cmd
  imports X10_Job
begin

text \<open>
  \<open>cmd/main.cpp\<close>: the command line client. Its arguments choose one or more calls on the bus;
  what it prints is a list of outputs. Whether a process of the service runs (\<open>proc_find\<close> reads
  the process table) is an argument, -1 for none. A reply to \<open>Send\<close> is asynchronous and has not
  arrived when the code asks whether it is an error, so that its message is never printed.
\<close>

datatype cmd_out = Out_usage | Out_version | Out_line string

text \<open>C's \<open>atoi\<close>: white space, a sign, digits, and anything.\<close>

definition is_space :: "char \<Rightarrow> bool" where
  "is_space c \<longleftrightarrow> c = CHR '' '' \<or> 9 \<le> (of_char c :: nat) \<and> (of_char c :: nat) \<le> 13"

fun digits_value :: "int \<Rightarrow> string \<Rightarrow> int" where
  "digits_value acc [] = acc"
| "digits_value acc (c # cs) =
     (if is_digit c then digits_value (10 * acc + int (digit_val c)) cs else acc)"

definition c_atoi :: "string \<Rightarrow> int" where
  "c_atoi s =
     (case dropWhile is_space s of
        [] \<Rightarrow> 0
      | c # cs \<Rightarrow>
          if c = CHR ''-'' then - digits_value 0 cs
          else if c = CHR ''+'' then digits_value 0 cs
          else digits_value 0 (c # cs))"

text \<open>Qt's reading of a number and C's agree on the texts that Qt accepts.\<close>

definition agrees_atoi :: "qt_number \<Rightarrow> bool" where
  "agrees_atoi q \<longleftrightarrow> (\<forall>s i. toInt q s = Some i \<longrightarrow> c_atoi s = i)"

section \<open>The calls\<close>

text \<open>What the client works with: numbers, configuration, bus, local time and clock.\<close>

record cmd_env =
  c_number :: qt_number
  c_config :: Config
  c_bus :: bus
  c_localtime :: "int \<Rightarrow> tm"
  c_now :: int

definition cmd_getProperty :: "cmd_env \<Rightarrow> string \<Rightarrow> IDBus \<Rightarrow> (string \<times> IDBus) option" where
  "cmd_getProperty env property d = do {
     (r, d) \<leftarrow> bus_do (c_bus env) (B_GetProperty property) d;
     Some (case reply_string r of Some s \<Rightarrow> s | None \<Rightarrow> ''NOREPLY'', d)
   }"

definition cmd_setProperty :: "cmd_env \<Rightarrow> string \<Rightarrow> string \<Rightarrow> IDBus \<Rightarrow> (bool \<times> IDBus) option" where
  "cmd_setProperty env property v d = do {
     (r, d) \<leftarrow> bus_do (c_bus env) (B_SetProperty property v) d;
     Some (r \<noteq> NoReply, d)
   }"

definition getFormattedRules :: "cmd_env \<Rightarrow> IDBus \<Rightarrow> (string \<times> IDBus) option" where
  "getFormattedRules env d = do {
     (rules, d) \<leftarrow> cmd_getProperty env PROPERTY_RULES d;
     Some (concat (map (\<lambda>r. CHR 0x0A # ''     '' @ getDisplayText r)
             (deserializeRules (c_number env) (Rule_new (c_localtime env) (c_now env)) rules)), d)
   }"

text \<open>A call whose answer is not looked at.\<close>

definition cmd_call :: "cmd_env \<Rightarrow> bus_call \<Rightarrow> IDBus \<Rightarrow> (cmd_out list \<times> IDBus) option" where
  "cmd_call env c d = map_option (\<lambda>(_, d). ([], d)) (bus_do (c_bus env) c d)"

definition show_property :: "cmd_env \<Rightarrow> string \<Rightarrow> string \<Rightarrow> IDBus \<Rightarrow> (cmd_out list \<times> IDBus) option" where
  "show_property env label property d =
     map_option (\<lambda>(s, d). ([Out_line (label @ s)], d)) (cmd_getProperty env property d)"

definition show_rules :: "cmd_env \<Rightarrow> IDBus \<Rightarrow> (cmd_out list \<times> IDBus) option" where
  "show_rules env d = map_option (\<lambda>(s, d). ([Out_line (''Rules      : '' @ s)], d)) (getFormattedRules env d)"

text \<open>One after the other, collecting the output.\<close>

definition cmd_seq ::
    "(IDBus \<Rightarrow> (cmd_out list \<times> IDBus) option) \<Rightarrow> (IDBus \<Rightarrow> (cmd_out list \<times> IDBus) option)
       \<Rightarrow> IDBus \<Rightarrow> (cmd_out list \<times> IDBus) option" where
  "cmd_seq f g d = do { (o1, d) \<leftarrow> f d; (o2, d) \<leftarrow> g d; Some (o1 @ o2, d) }"

definition cmd_print :: "cmd_out list \<Rightarrow> IDBus \<Rightarrow> (cmd_out list \<times> IDBus) option" where
  "cmd_print ls d = Some (ls, d)"

section \<open>The dispatch\<close>

text \<open>\<open>x10 address ...\<close>: the house and unit of the address, and the arguments behind it.\<close>

definition cmd_address ::
    "cmd_env \<Rightarrow> string \<Rightarrow> char \<Rightarrow> int \<Rightarrow> string list \<Rightarrow> IDBus \<Rightarrow> (cmd_out list \<times> IDBus) option" where
  "cmd_address env arg1 ch u rest =
     (case rest of
        a # _ \<Rightarrow>
          if strcaseeq a ''off'' then cmd_call env (B_Send (to_upper [ch]) (wrapu32 u) ''-'')
          else if strcaseeq a ''on'' then cmd_call env (B_Send (to_upper [ch]) (wrapu32 u) ''+'')
          else if isValidValue (c_number env) (QV_String a)
          then cmd_call env (B_Set (to_upper [ch]) (wrapu32 u) (c_atoi a))
          else if isValidCommand (QV_String a) \<and> a ! 0 \<noteq> CHR ''=''
          then cmd_call env (B_Send (to_upper [ch]) (wrapu32 u) a)
          else cmd_print [Out_line ''   address [-1..7|+|-|b|s]'']
      | [] \<Rightarrow> (\<lambda>d. do {
          (r, d) \<leftarrow> bus_do (c_bus env) (B_GetValue (to_upper arg1)) d;
          Some (case reply_int r of
                  None \<Rightarrow> []
                | Some v \<Rightarrow> [Out_line (''Current value for '' @ arg1 @ '' : '' @
                              (if v = -1 then ''Off'' else dec_int v))], d)
        }))"

definition cmd_smartqueue :: "cmd_env \<Rightarrow> string list \<Rightarrow> IDBus \<Rightarrow> (cmd_out list \<times> IDBus) option" where
  "cmd_smartqueue env rest =
     (let usage = cmd_print [Out_line ('' Usage: x10 '' @ PROPERTY_SMARTQUEUE @ '' {true|false|1|0}'')] in
      case rest of
        [] \<Rightarrow> show_property env ''SmartQueue : '' PROPERTY_SMARTQUEUE
      | [a] \<Rightarrow> (case isValidBoolean (QV_String a) of
                 Some b \<Rightarrow> (\<lambda>d. map_option (\<lambda>(_, d). ([], d))
                              (cmd_setProperty env PROPERTY_SMARTQUEUE (if b then ''1'' else ''0'') d))
               | None \<Rightarrow> usage)
      | _ \<Rightarrow> usage)"

definition cmd_all :: "cmd_env \<Rightarrow> string list \<Rightarrow> IDBus \<Rightarrow> (cmd_out list \<times> IDBus) option" where
  "cmd_all env rest =
     (case rest of
        [] \<Rightarrow> cmd_print []
      | a # _ \<Rightarrow>
          if strcaseeq a ''on'' \<or> a = ''+'' then cmd_call env B_AllOn
          else if strcaseeq a ''off'' \<or> a = ''-'' then cmd_call env B_AllOff
          else cmd_print [Out_line ''   all on|off''])"

definition cmd_dispatch :: "cmd_env \<Rightarrow> string list \<Rightarrow> IDBus \<Rightarrow> (cmd_out list \<times> IDBus) option" where
  "cmd_dispatch env args =
     (let dbus = (\<lambda>d. cmd_print [Out_line (''DBUS       : '' @ m_dbusLocation d)] d);
          status = show_property env ''Status     : '' PROPERTY_STATUS;
          known = show_property env ''Nodes      : '' PROPERTY_NODES;
          smart = show_property env ''SmartQueue : '' PROPERTY_SMARTQUEUE
      in case args of
        [] \<Rightarrow> cmd_seq dbus (cmd_seq status (cmd_seq known (show_rules env)))
      | a # rest \<Rightarrow>
          if strcaseeq a PROPERTY_STATUS
          then cmd_seq dbus (cmd_seq status (cmd_seq known (show_rules env)))
          else if strcaseeq a ''properties'' \<or> strcaseeq a ''p'' \<or> strcaseeq a ''prop''
          then cmd_seq dbus (cmd_seq status (cmd_seq known (cmd_seq smart (show_rules env))))
          else if strcaseeq a PROPERTY_NODES then known
          else if strcaseeq a PROPERTY_RULES then show_rules env
          else if strcaseeq a PROPERTY_SMARTQUEUE then cmd_smartqueue env rest
          else if strcaseeq a ''help'' \<or> strcaseeq a ''--help'' \<or> strcaseeq a ''-h'' then cmd_print [Out_usage]
          else if strcaseeq a ''version'' then cmd_print [Out_version]
          else case sourceToAddress (c_number env) a (CHR 0x00) 0 of
            (True, ch, u) \<Rightarrow> cmd_address env a ch u rest
          | (False, _, _) \<Rightarrow>
              if strcaseeq a ''all'' \<or> a = ''a'' then cmd_all env rest
              else if strcaseeq a ''allon'' then cmd_call env B_AllOn
              else if strcaseeq a ''alloff'' then cmd_call env B_AllOff
              else if strcaseeq a ''start'' then cmd_call env B_Start
              else if strcaseeq a ''restart'' then cmd_call env B_Restart
              else if strcaseeq a ''stop'' then cmd_call env B_Stop
              else if strcaseeq a ''reload'' then cmd_call env B_Reload
              else cmd_print [Out_usage])"

text \<open>The exit status, the output and the connection; \<open>args\<close> are those behind the program's name.\<close>

definition cmd_main ::
    "cmd_env \<Rightarrow> int \<Rightarrow> string list \<Rightarrow> IDBus \<Rightarrow> (int \<times> cmd_out list \<times> IDBus) option" where
  "cmd_main env runningXs args d =
     (if (case args of a # _ \<Rightarrow> strcaseeq a ''quit'' | [] \<Rightarrow> False) then
        (if runningXs = -1 then Some (0, [Out_line ''Not running''], d)
         else do {
           (_, d) \<leftarrow> IDBus_iX10 (c_config env) (c_bus env) d;
           (_, d) \<leftarrow> bus_do (c_bus env) B_Quit d;
           Some (0, [Out_line (''Quitting instance '' @ dec_int runningXs)], d)
         })
      else do {
        (_, d) \<leftarrow> IDBus_iX10 (c_config env) (c_bus env) d;
        (status, d) \<leftarrow> cmd_getProperty env PROPERTY_STATUS d;
        if status = ''NOREPLY''
        then Some (1, [Out_line (''Couldn't connect to specified DBUS : '' @ m_dbusLocation d)], d)
        else do { (ls, d) \<leftarrow> cmd_dispatch env args d; Some (0, ls, d) }
      })"

section \<open>Lemmas\<close>

lemma digits_value_read: "read_dec n s = Some m \<Longrightarrow> digits_value (int n) s = int m"
  by (induction n s rule: read_dec.induct) (auto split: if_splits)

lemma digit_no_space: "is_digit c \<Longrightarrow> \<not> is_space c"
  by (auto simp: is_digit_def is_space_def)

text \<open>The plain reader of decimal numbers agrees with C's.\<close>

lemma std_agrees_atoi: "agrees_atoi std_number"
proof -
  have "c_atoi s = i" if "read_int s = Some i" for s i
  proof (cases s)
    case Nil
    with that show ?thesis by (simp add: read_int_def)
  next
    case (Cons c cs)
    show ?thesis
    proof (cases "c = CHR ''-''")
      case True
      with that Cons obtain m where m: "read_dec 0 cs = Some m" "i = - int m"
        by (auto simp: read_int_def split: if_splits)
      have "\<not> is_space CHR ''-''" by (simp add: is_space_def)
      with m digits_value_read [OF m(1)] Cons True show ?thesis by (simp add: c_atoi_def)
    next
      case False
      with that Cons obtain m where m: "read_dec 0 s = Some m" "i = int m"
        by (auto simp: read_int_def)
      then have d: "is_digit c" using Cons by (auto split: if_splits)
      then have "c \<noteq> CHR ''+''" by (auto simp: is_digit_def)
      with digit_no_space [OF d] digits_value_read [OF m(1)] m(2) Cons False show ?thesis
        by (simp add: c_atoi_def)
    qed
  qed
  then show ?thesis
    by (auto simp: agrees_atoi_def std_number_def in_range_def split: option.splits if_splits)
qed

text \<open>A step of the client goes well when it returns and keeps the calls accepted.\<close>

definition goes_well :: "qt_number \<Rightarrow> (IDBus \<Rightarrow> (cmd_out list \<times> IDBus) option) \<Rightarrow> bool" where
  "goes_well q f \<longleftrightarrow>
     (\<forall>d. m_dbusInterface d \<longrightarrow> list_all (accepted q) (calls d) \<longrightarrow>
        (\<exists>ls d'. f d = Some (ls, d') \<and> m_dbusInterface d' \<and> list_all (accepted q) (calls d')))"

lemma print_well: "goes_well q (cmd_print ls)"
  by (simp add: goes_well_def cmd_print_def)

lemma where_well: "goes_well q (\<lambda>d. cmd_print (f d) d)"
  by (simp add: goes_well_def cmd_print_def)

lemma call_well: "accepted q c \<Longrightarrow> goes_well q (cmd_call env c)"
  by (simp add: goes_well_def cmd_call_def bus_do_Some)

lemma show_property_well: "goes_well q (show_property env label p)"
  by (simp add: goes_well_def show_property_def cmd_getProperty_def bus_do_Some)

lemma show_rules_well: "goes_well q (show_rules env)"
  by (simp add: goes_well_def show_rules_def getFormattedRules_def cmd_getProperty_def bus_do_Some)

lemma seq_well:
  assumes "goes_well q f" and "goes_well q g"
  shows "goes_well q (cmd_seq f g)"
  unfolding goes_well_def
proof (intro allI impI)
  fix d :: IDBus
  assume "m_dbusInterface d" and "list_all (accepted q) (calls d)"
  then obtain o1 d1 where 1: "f d = Some (o1, d1)" "m_dbusInterface d1" "list_all (accepted q) (calls d1)"
    using assms(1) unfolding goes_well_def by blast
  then obtain o2 d2 where 2: "g d1 = Some (o2, d2)" "m_dbusInterface d2" "list_all (accepted q) (calls d2)"
    using assms(2) unfolding goes_well_def by blast
  from 1 2 show "\<exists>ls d'. cmd_seq f g d = Some (ls, d') \<and> m_dbusInterface d' \<and> list_all (accepted q) (calls d')"
    by (simp add: cmd_seq_def)
qed

lemma if_well: "(b \<Longrightarrow> goes_well q f) \<Longrightarrow> (\<not> b \<Longrightarrow> goes_well q g) \<Longrightarrow> goes_well q (if b then f else g)"
  by simp

lemma smartqueue_well: "goes_well q (cmd_smartqueue env rest)"
proof -
  have "goes_well q (\<lambda>d. map_option (\<lambda>(_, d). ([], d)) (cmd_setProperty env p v d))" for p v
    by (simp add: goes_well_def cmd_setProperty_def bus_do_Some)
  then show ?thesis
    by (auto simp: cmd_smartqueue_def Let_def show_property_well print_well split: list.split option.split)
qed

lemma all_well: "goes_well q (cmd_all env rest)"
  by (simp add: cmd_all_def print_well call_well split: list.split)

lemma address_well:
  assumes "agrees_atoi (c_number env)" and "sourceToAddress (c_number env) a ch0 u0 = (True, ch, u)"
  shows "goes_well (c_number env) (cmd_address env a ch u rest)"
proof -
  let ?q = "c_number env"
  have "upper_char ch = ch"
    using sourceToAddress_range [OF assms(2)] house_letter_upper by (auto simp: upper_char_def)
  then have ch: "isValidChannel (QV_String (to_upper [ch]))"
    using address_of_source(1) [OF assms(2)] by (simp add: to_upper_def)
  note u = address_of_source(2,3) [OF assms(2)]
  have val: "level_ok (c_atoi b)" if "isValidValue ?q (QV_String b)" for b
    using that assms(1) by (auto simp: isValidValue_def level_ok_def agrees_atoi_def split: option.splits)
  have get: "goes_well ?q (\<lambda>d. do { (r, d) \<leftarrow> bus_do (c_bus env) (B_GetValue s) d; Some (f r, d) })" for s f
    by (simp add: goes_well_def bus_do_Some)
  have on: "isValidCommand (QV_String ''+'')" and off: "isValidCommand (QV_String ''-'')"
    by (simp_all add: isValidCommand_def)
  show ?thesis
  proof (cases rest)
    case Nil
    then show ?thesis unfolding cmd_address_def list.case by (simp only: list.case) (rule get)
  next
    case (Cons b bs)
    then show ?thesis
      unfolding cmd_address_def Cons list.case
      by (intro if_well call_well print_well accepted_Send accepted_Set ch u on off val) simp_all
  qed
qed

lemma dispatch_well:
  assumes "agrees_atoi (c_number env)"
  shows "goes_well (c_number env) (cmd_dispatch env args)"
proof (cases args)
  case Nil
  then show ?thesis
    unfolding cmd_dispatch_def Let_def Nil list.case
    by (intro seq_well where_well show_property_well show_rules_well)
next
  case (Cons a rest)
  obtain ok ch u where s: "sourceToAddress (c_number env) a (CHR 0x00) 0 = (ok, ch, u)"
    by (cases "sourceToAddress (c_number env) a (CHR 0x00) 0")
  show ?thesis
  proof (cases ok)
    case True
    with s have s': "sourceToAddress (c_number env) a (CHR 0x00) 0 = (True, ch, u)" by simp
    show ?thesis
      unfolding cmd_dispatch_def Let_def Cons list.case s' prod.case bool.case
      by (intro address_well [OF assms s'] if_well seq_well where_well show_property_well show_rules_well print_well smartqueue_well)
  next
    case False
    with s have s': "sourceToAddress (c_number env) a (CHR 0x00) 0 = (False, ch, u)" by simp
    show ?thesis
      unfolding cmd_dispatch_def Let_def Cons list.case s' prod.case bool.case
      by (intro if_well seq_well where_well show_property_well show_rules_well print_well smartqueue_well
          all_well call_well accepted_other)
  qed
qed

section \<open>Properties\<close>

text \<open>C31: whatever its arguments, the command line client returns, and every \<open>Send\<close> and \<open>Set\<close> it makes
  is queued as a command by the service; the number that \<open>Set\<close> sends is the one that was checked.\<close>

theorem command_line_requests_are_accepted:
  assumes "agrees_atoi (c_number env)"
  shows "\<exists>status ls d. cmd_main env runningXs args IDBus_new = Some (status, ls, d)
           \<and> list_all (accepted (c_number env)) (calls d)"
proof -
  let ?q = "c_number env"
  obtain evs d1 where 1: "IDBus_iX10 (c_config env) (c_bus env) IDBus_new = Some (evs, d1)"
      "m_dbusInterface d1" "only_asks IDBus_new d1"
    using IDBus_iX10_Some by blast
  have ok1: "list_all (accepted ?q) (calls d1)"
    using only_asks_accepted [OF 1(3)] by (simp add: IDBus_new_def)
  define d2 where "d2 = d1\<lparr>calls := calls d1 @ [B_GetProperty PROPERTY_STATUS]\<rparr>"
  have 2: "m_dbusInterface d2" "list_all (accepted ?q) (calls d2)" using 1(2) ok1 by (simp_all add: d2_def)
  obtain ls d3 where 3: "cmd_dispatch env args d2 = Some (ls, d3)" "list_all (accepted ?q) (calls d3)"
    using dispatch_well [OF assms, of args] 2 unfolding goes_well_def by blast
  have "\<exists>s. cmd_getProperty env PROPERTY_STATUS d1 = Some (s, d2)"
    by (simp add: cmd_getProperty_def bus_do_Some 1(2) d2_def)
  then show ?thesis
    using 1 ok1 2 3 by (auto simp: cmd_main_def bus_do_Some IDBus_new_def split: list.split)
qed

definition sample_cmd :: cmd_env where
  "sample_cmd = \<lparr>c_number = std_number, c_config = Config_Load std_number (\<lambda>_ _. None),
     c_bus = e_bus sample_env, c_localtime = civil 0, c_now = 0\<rparr>"

theorem command_line_requests_are_accepted_witness:
  "\<exists>status ls d. cmd_main sample_cmd (-1) [''e5'', ''3''] IDBus_new = Some (status, ls, d)
     \<and> list_all (accepted std_number) (calls d)"
  using command_line_requests_are_accepted [of sample_cmd "-1" "[''e5'', ''3'']"] std_agrees_atoi
  by (simp add: sample_cmd_def)

end
