(* ===== verification/X10_Driver.thy ===== *)
theory X10_Driver
  imports X10_Codes
begin

text \<open>
  \<open>controller/x10core/x10plugin-driver.h\<close> and \<open>.cpp\<close>: the plugin that sends commands through
  the device files of the kernel driver. The file system is the environment: \<open>access\<close> and
  whether a file can be opened are functions of the path, and the shell command handed to
  \<open>system\<close> is a result.
\<close>

definition MAX_CONTROLLER :: nat where "MAX_CONTROLLER = 5"

record Driver =
  drv_handles :: "string list"
  drv_status :: bool

text \<open>The constructor; \<open>Status\<close> is not initialised.\<close>

definition Driver_new :: "bool \<Rightarrow> Driver" where
  "Driver_new garbage = \<lparr>drv_handles = replicate MAX_CONTROLLER '''', drv_status = garbage\<rparr>"

definition device_path :: "nat \<Rightarrow> string" where
  "device_path i = ''/dev/cm19a'' @ dec_nat i"

datatype access_mode = F_OK | R_OK | W_OK

text \<open>The loop over the device numbers; \<open>acc p m\<close> says whether \<open>access\<close> returns 0.\<close>

fun has_controller :: "(string \<Rightarrow> access_mode \<Rightarrow> bool) \<Rightarrow> nat list \<Rightarrow> bool \<Rightarrow> bool" where
  "has_controller acc [] found = found"
| "has_controller acc (i # is) found =
     (let devicePath = device_path i in
      if \<not> acc devicePath F_OK then has_controller acc is found
      else if \<not> acc devicePath R_OK then has_controller acc is found
      else if acc devicePath W_OK then has_controller acc is True
      else has_controller acc is found)"

definition HasController :: "(string \<Rightarrow> access_mode \<Rightarrow> bool) \<Rightarrow> bool" where
  "HasController acc = has_controller acc [0..<10] False"

text \<open>
  The first loop of \<open>Open\<close>, which stores the devices it finds one after the other; \<open>None\<close> is a
  write behind the end of the array.
\<close>

fun open_loop ::
    "(string \<Rightarrow> bool) \<Rightarrow> nat list \<Rightarrow> nat \<Rightarrow> string list \<Rightarrow> bool \<Rightarrow> (nat \<times> string list \<times> bool) option" where
  "open_loop exists [] j handles st = Some (j, handles, st)"
| "open_loop exists (i # is) j handles st =
     (let deviceName = device_path i in
      if exists deviceName
      then if j < MAX_CONTROLLER
           then open_loop exists is (Suc j) (handles[j := deviceName]) True
           else None
      else open_loop exists is j handles st)"

fun clear_from :: "nat \<Rightarrow> nat \<Rightarrow> string list \<Rightarrow> string list" where
  "clear_from 0 j handles = handles"
| "clear_from (Suc n) j handles = clear_from n (Suc j) (handles[j := ''''])"

definition Driver_Open :: "(string \<Rightarrow> bool) \<Rightarrow> Driver \<Rightarrow> (bool \<times> Driver) option" where
  "Driver_Open exists d =
     (case open_loop exists [0..<10] 0 (drv_handles d) False of
        None \<Rightarrow> None
      | Some (j, handles, st) \<Rightarrow>
          Some (st, d\<lparr>drv_handles := clear_from (MAX_CONTROLLER - j) j handles, drv_status := st\<rparr>))"

definition Driver_Close :: "Driver \<Rightarrow> Driver" where
  "Driver_Close d = d\<lparr>drv_handles := clear_from MAX_CONTROLLER 0 (drv_handles d)\<rparr>"

text \<open>\<open>recv\<close> returns 0 before the code that would read; its output is not written.\<close>

definition Driver_recv :: "Driver \<Rightarrow> int" where
  "Driver_recv d = 0"

text \<open>The text \<open>send\<close> gives to the shell, \<open>None\<close> when there is no device and it returns -1.\<close>

definition Driver_send :: "Driver \<Rightarrow> x10_ha_command \<Rightarrow> string option" where
  "Driver_send d x =
     (if drv_handles d ! 0 = '''' then None
      else Some (''echo '' @ [CHR 0x22, cmd_code_to_char (ha_cmd x), house_code_to_char (ha_house x)]
                 @ dec_int (unit_code_to_int (ha_unit x)) @ [CHR 0x22] @ '' > '' @ drv_handles d ! 0))"

section \<open>Which devices are opened\<close>

definition found_devices :: "(string \<Rightarrow> bool) \<Rightarrow> nat list \<Rightarrow> string list" where
  "found_devices exists is = filter exists (map device_path is)"

lemma open_loop_eq:
  "length handles = MAX_CONTROLLER \<Longrightarrow> j \<le> MAX_CONTROLLER \<Longrightarrow>
     open_loop exists is j handles st =
       (let ds = found_devices exists is in
        if j + length ds \<le> MAX_CONTROLLER
        then Some (j + length ds, take j handles @ ds @ drop (j + length ds) handles, st \<or> ds \<noteq> [])
        else None)"
proof (induction "is" arbitrary: j handles st)
  case Nil
  then show ?case by (simp add: found_devices_def)
next
  case (Cons i "is")
  show ?case
  proof (cases "exists (device_path i)")
    case False
    with Cons show ?thesis by (simp add: found_devices_def)
  next
    case True
    then show ?thesis
      using Cons.IH [of "handles[j := device_path i]" "Suc j" True] Cons.prems
      by (auto simp: found_devices_def Let_def take_Suc_conv_app_nth take_update_swap list_update_append)
  qed
qed

lemma clear_from_eq:
  "j + n \<le> length handles \<Longrightarrow>
     clear_from n j handles = take j handles @ replicate n '''' @ drop (j + n) handles"
proof (induction n arbitrary: j handles)
  case 0
  then show ?case by simp
next
  case (Suc n)
  then show ?case
    by (simp add: take_Suc_conv_app_nth)
qed

lemma has_controller_eq:
  "has_controller acc is found \<longleftrightarrow>
     found \<or> (\<exists>i \<in> set is. acc (device_path i) F_OK \<and> acc (device_path i) R_OK \<and> acc (device_path i) W_OK)"
  by (induction "is" arbitrary: found) (auto simp: Let_def)

section \<open>Properties\<close>

text \<open>With at most five device files \<open>Open\<close> keeps exactly those that exist, in order, and clears
  the other entries; with more than five it writes behind the end of its array of five.\<close>

lemma driver_open_exact:
  assumes "length (drv_handles d) = MAX_CONTROLLER"
  shows "Driver_Open exists d =
     (let ds = found_devices exists [0..<10] in
      if length ds \<le> MAX_CONTROLLER
      then Some (ds \<noteq> [], \<lparr>drv_handles = ds @ replicate (MAX_CONTROLLER - length ds) '''', drv_status = (ds \<noteq> [])\<rparr>)
      else None)"
  using assms by (auto simp: Driver_Open_def open_loop_eq clear_from_eq Let_def)

end
