(* ===== verification/X10_Libusb.thy ===== *)
theory X10_Libusb
  imports X10_Codes
begin

text \<open>
  \<open>controller/x10core/x10plugin-libusb.h\<close>, \<open>.cpp\<close> and \<open>libusbutils.cpp\<close>: the plugin that talks to
  the USB transceiver. The functions of \<open>libusb\<close> are the environment: what a read returned is
  its result with the bytes it put into the buffer, what a write returned its result. A \<open>char\<close> of a
  buffer is the byte it holds.
\<close>

unbundle bit_operations_syntax

type_synonym byte = "8 word"

abbreviation (input) CAM_X10CMD_LEN :: nat where "CAM_X10CMD_LEN \<equiv> 4"
abbreviation (input) NORM_X10CMD_LEN :: nat where "NORM_X10CMD_LEN \<equiv> 5"
abbreviation (input) NORM_X10CMD_PFX :: byte where "NORM_X10CMD_PFX \<equiv> 0x20"
abbreviation (input) CAM_X10CMD_PFX :: byte where "CAM_X10CMD_PFX \<equiv> 0x14"
abbreviation (input) ACK :: byte where "ACK \<equiv> 0xFF"

section \<open>Finding and opening the device\<close>

text \<open>
  A device of a bus: vendor, product and the handle \<open>usb_open\<close> gives for it. The busses are
  searched in order; the search ends at the first match, even when it cannot be opened.
\<close>

fun first_match :: "int \<Rightarrow> int \<Rightarrow> (int \<times> int \<times> 'h option) list \<Rightarrow> 'h option option" where
  "first_match vendorid productid [] = None"
| "first_match vendorid productid ((v, p, h) # devs) =
     (if v = vendorid \<and> p = productid then Some h else first_match vendorid productid devs)"

fun GetFirstDevice :: "int \<Rightarrow> int \<Rightarrow> (int \<times> int \<times> 'h option) list list \<Rightarrow> 'h option" where
  "GetFirstDevice vendorid productid [] = None"
| "GetFirstDevice vendorid productid (bus # busses) =
     (case first_match vendorid productid bus of
        Some h \<Rightarrow> h
      | None \<Rightarrow> GetFirstDevice vendorid productid busses)"

definition CM19AVendor :: int where "CM19AVendor = 0x0bc7"
definition CM19AProdID :: int where "CM19AProdID = 2"

text \<open>What happens to the device, in order.\<close>

datatype 'h usb_event =
  UsbSetConfiguration 'h int | UsbClaim 'h int | UsbRelease 'h int | UsbClose 'h | UsbWrite 'h "byte list"

definition closeUsbDev :: "'h \<Rightarrow> 'h usb_event list" where
  "closeUsbDev h = [UsbRelease h 0, UsbClose h]"

definition ahpInit :: "'h \<Rightarrow> 'h usb_event list" where
  "ahpInit h =
     [UsbWrite h [0x20, 0x34, 0xcb, 0x58, 0xa7],
      UsbWrite h [0x80, 0x01, 0x00, 0x20, 0x14],
      UsbWrite h [0x80, 0x01, 0x00, 0x00, 0x14, 0x24, 0x20, 0x20]]"

text \<open>\<open>Init\<close> with the results of \<open>usb_set_configuration\<close> and \<open>usb_claim_interface\<close>.\<close>

definition usb_Init ::
    "(int \<times> int \<times> 'h option) list list \<Rightarrow> int \<Rightarrow> int \<Rightarrow> 'h option \<times> 'h usb_event list" where
  "usb_Init busses conf claim =
     (case GetFirstDevice CM19AVendor CM19AProdID busses of
        None \<Rightarrow> (None, [])
      | Some portnum \<Rightarrow>
          if conf < 0 then (None, UsbSetConfiguration portnum 1 # closeUsbDev portnum)
          else if claim < 0
          then (None, [UsbSetConfiguration portnum 1, UsbClaim portnum 0] @ closeUsbDev portnum)
          else (Some portnum, [UsbSetConfiguration portnum 1, UsbClaim portnum 0] @ ahpInit portnum))"

text \<open>The plugin: five handles of which the first is used.\<close>

record 'h Libusb =
  usb_handles :: "'h option list"
  usb_status :: bool

definition Libusb_new :: "bool \<Rightarrow> 'h Libusb" where
  "Libusb_new garbage = \<lparr>usb_handles = replicate 5 None, usb_status = garbage\<rparr>"

definition Libusb_Open ::
    "(int \<times> int \<times> 'h option) list list \<Rightarrow> int \<Rightarrow> int \<Rightarrow> 'h Libusb \<Rightarrow> bool \<times> 'h Libusb \<times> 'h usb_event list" where
  "Libusb_Open busses conf claim p =
     (let (h, evs) = (case usb_handles p ! 0 of
                        None \<Rightarrow> usb_Init busses conf claim
                      | Some h \<Rightarrow> (Some h, []));
          st = (h \<noteq> None)
      in (st, \<lparr>usb_handles = (usb_handles p)[0 := h], usb_status = st\<rparr>, evs))"

fun close_handles :: "'h option list \<Rightarrow> 'h option list \<times> 'h usb_event list" where
  "close_handles [] = ([], [])"
| "close_handles (h # hs) =
     (let (hs', evs) = close_handles hs
      in (None # hs', (case h of None \<Rightarrow> [] | Some p \<Rightarrow> closeUsbDev p) @ evs))"

definition Libusb_Close :: "'h Libusb \<Rightarrow> 'h Libusb \<times> 'h usb_event list" where
  "Libusb_Close p =
     (let (hs, evs) = close_handles (usb_handles p) in (p\<lparr>usb_handles := hs\<rparr>, evs))"

section \<open>Sending\<close>

definition IS_CAM_CODE :: "CmdCode \<Rightarrow> bool" where
  "IS_CAM_CODE code \<longleftrightarrow> code AND NOT 0xFF \<noteq> 0"

definition transmit_bytes :: "x10_ha_command \<Rightarrow> byte list" where
  "transmit_bytes x =
     (if IS_CAM_CODE (ha_cmd x)
      then [CAM_X10CMD_PFX,
            ucast (drop_bit 8 (ha_cmd x) OR ucast (house_code_to_cam_code (ha_house x))),
            ucast (ha_cmd x AND 0xFF),
            ucast (ha_house x)]
      else let b1 = ucast (drop_bit 8 (ha_unit x) OR ha_house x);
               b3 = ucast ((ha_unit x AND 0xFF) OR ha_cmd x)
           in [NORM_X10CMD_PFX, b1, NOT b1, b3, NOT b3])"

text \<open>\<open>x10_transmit_cmd\<close> with the results of the write and of the read of the acknowledgement, of
  which a wrong value is logged only.\<close>

definition x10_transmit_cmd :: "int \<Rightarrow> int \<Rightarrow> x10_ha_command \<Rightarrow> byte list \<times> int" where
  "x10_transmit_cmd writeRes readRes x =
     (let bytes = transmit_bytes x in
      (bytes, if writeRes \<noteq> int (length bytes) then -1 else if readRes < 0 then readRes else 0))"

definition Libusb_send :: "int \<Rightarrow> int \<Rightarrow> 'h Libusb \<Rightarrow> x10_ha_command \<Rightarrow> byte list option \<times> int" where
  "Libusb_send writeRes readRes p x =
     (if usb_handles p ! 0 \<noteq> None
      then (let (bs, r) = x10_transmit_cmd writeRes readRes x in (Some bs, r))
      else (None, -1))"

section \<open>Receiving\<close>

text \<open>
  \<open>reads k\<close> is the result of the \<open>k\<close>-th read of a call with its bytes, which go to the start of
  the buffer; the buffers have nine bytes and begin with whatever the stack holds.
\<close>

type_synonym usb_reads = "nat \<Rightarrow> int \<times> byte list"

definition fill :: "byte list \<Rightarrow> byte list \<Rightarrow> byte list" where
  "fill data buf = take (length buf) (data @ drop (length data) buf)"

definition read_intr_data :: "usb_reads \<Rightarrow> nat \<Rightarrow> byte list \<Rightarrow> int \<times> byte list" where
  "read_intr_data reads k buf =
     (let (size, data) = reads k in (size, if size > 0 then fill data buf else buf))"

text \<open>
  The loop over the repetitions of the command, from read \<open>k\<close> on. The result is what
  \<open>x10_recv\<close> returns at once, or \<open>None\<close> to go on with the decoding; no result means that the loop
  does not end.
\<close>

partial_function (option) recv_loop ::
    "usb_reads \<Rightarrow> int \<Rightarrow> byte list \<Rightarrow> nat \<Rightarrow> int \<Rightarrow> nat \<Rightarrow> byte list \<Rightarrow> int option option" where
  "recv_loop reads red readbuf k i reading addbuf =
     (if i < 4 \<and> reading < 2
      then let (red2, addbuf) = read_intr_data reads k addbuf in
           if red2 < 0 then Some (if i < 3 then Some red2 else None)
           else if red2 = 0
           then if reading = 1
                then if red2 \<noteq> red \<or> take (nat red) readbuf = take (nat red) addbuf then Some None
                     else recv_loop reads red readbuf (Suc k) i 2 addbuf
                else recv_loop reads red readbuf (Suc k) i reading addbuf
           else recv_loop reads red readbuf (Suc k) (i + 1) 1 addbuf
      else Some None)"

definition recv_decode :: "nat \<Rightarrow> byte list \<Rightarrow> x10_ha_command" where
  "recv_decode cmdLen buf =
     (if cmdLen = CAM_X10CMD_LEN
      then \<lparr>ha_cmd = push_bit 8 (ucast (buf ! 1) AND 0xF) OR ucast (buf ! 2),
            ha_house = ucast (buf ! 3),
            ha_unit = UNIT_1\<rparr>
      else \<lparr>ha_cmd = ucast (buf ! 3) AND X10CMD_OFF,
            ha_house = ucast (buf ! 1) AND 0xF0,
            ha_unit = push_bit 8 (ucast (buf ! 1) AND 0xF) OR (ucast (buf ! 3) AND NOT X10CMD_OFF)\<rparr>)"

text \<open>The returned value, with the command where one is stored.\<close>

definition x10_recv :: "usb_reads \<Rightarrow> byte list \<Rightarrow> byte list \<Rightarrow> (int \<times> x10_ha_command option) option" where
  "x10_recv reads junk junk2 =
     (let (red, readbuf) = read_intr_data reads 0 junk in
      if red < 0 then Some (red, None)
      else if red = 1 \<and> readbuf ! 0 \<noteq> CAM_X10CMD_PFX \<and> readbuf ! 0 \<noteq> NORM_X10CMD_PFX then Some (0, None)
      else
        let cmdLen = (if red = 1 then if readbuf ! 0 = CAM_X10CMD_PFX then CAM_X10CMD_LEN
                                      else NORM_X10CMD_LEN
                      else 0);
            (red, readbuf) = read_intr_data reads 1 readbuf
        in if red < 0 then Some (red, None)
           else case recv_loop reads red readbuf 2 0 0 junk2 of
                  None \<Rightarrow> None
                | Some (Some r) \<Rightarrow> Some (r, None)
                | Some None \<Rightarrow> Some (1, Some (recv_decode cmdLen readbuf)))"

definition Libusb_recv :: "usb_reads \<Rightarrow> byte list \<Rightarrow> byte list \<Rightarrow> 'h Libusb \<Rightarrow> (int \<times> x10_ha_command option) option" where
  "Libusb_recv reads junk junk2 p =
     (if usb_handles p ! 0 = None then Some (-1, None) else x10_recv reads junk junk2)"

end
