(* ===== verification/X10_Libusb_Laws.thy ===== *)
theory X10_Libusb_Laws
  imports X10_Libusb
begin

text \<open>
  The frames of the USB plugin: what is sent can be decoded, what is received is decoded at the
  wrong place; and when the loop of \<open>x10_recv\<close> ends.
\<close>

section \<open>Bytes of a frame\<close>

lemma ucast_all_ones [simp]: "ucast (- 1 :: byte) = (0xFF :: 32 word)"
  by code_simp

lemma and_off: "v AND X10CMD_OFF = 0 \<or> v AND X10CMD_OFF = X10CMD_OFF" for v :: "32 word"
proof (cases "bit v 5")
  case True
  then have "v AND 2 ^ 5 = 2 ^ 5" by (intro bit_word_eqI) (auto simp only: bit_and_iff bit_exp_iff)
  then show ?thesis by simp
next
  case False
  then have "v AND 2 ^ 5 = 0" by (intro bit_word_eqI) (auto simp only: bit_and_iff bit_exp_iff bit_0_eq bot_apply bot_bool_def)
  then show ?thesis by simp
qed

lemma house_byte:
  assumes "h \<in> set HouseCodeLut" and "v = 0 \<or> v = 4"
  shows "ucast (ucast (v OR h :: 32 word) :: byte) AND (0xF0 :: 32 word) = h"
    and "ucast (ucast (v OR h :: 32 word) :: byte) AND (0xF :: 32 word) = v"
    and "ucast (NOT (ucast (v OR h :: 32 word) :: byte)) AND (0xF0 :: 32 word) = NOT h AND 0xF0"
  using assms by (auto simp: HouseCodeLut_def)

lemma unit_byte:
  assumes "u \<in> set UnitCodeLut" and "c = X10CMD_ON \<or> c = X10CMD_OFF"
  shows "ucast (ucast ((u AND 0xFF) OR c :: 32 word) :: byte) AND X10CMD_OFF = c"
    and "ucast (ucast ((u AND 0xFF) OR c :: 32 word) :: byte) AND NOT X10CMD_OFF = u AND 0xFF"
    and "ucast (NOT (ucast ((u AND 0xFF) OR c :: 32 word) :: byte)) AND X10CMD_OFF
           = (if c = X10CMD_ON then X10CMD_OFF else X10CMD_ON)"
  using assms by (auto simp: UnitCodeLut_def)

lemma unit_split:
  assumes "u \<in> set UnitCodeLut"
  shows "drop_bit 8 u = 0 \<or> drop_bit 8 u = 4"
    and "push_bit 8 (drop_bit 8 u) OR (u AND 0xFF) = u"
  using assms by (auto simp: UnitCodeLut_def)

lemma not_cam: "c \<in> {X10CMD_ON, X10CMD_OFF, X10CMD_DIM, X10CMD_BRIGHT} \<Longrightarrow> \<not> IS_CAM_CODE c"
  by (auto simp: IS_CAM_CODE_def)

text \<open>A command of the tables, as \<open>new_x10_ha_command\<close> builds it.\<close>

definition table_cmd :: "x10_ha_command \<Rightarrow> bool" where
  "table_cmd x \<longleftrightarrow> ha_house x \<in> set HouseCodeLut \<and> ha_unit x \<in> set UnitCodeLut"

lemma transmit_normal:
  assumes "ha_cmd x \<in> {X10CMD_ON, X10CMD_OFF, X10CMD_DIM, X10CMD_BRIGHT}"
  shows "transmit_bytes x =
     (let b1 = ucast (drop_bit 8 (ha_unit x) OR ha_house x); b3 = ucast ((ha_unit x AND 0xFF) OR ha_cmd x)
      in [NORM_X10CMD_PFX, b1, NOT b1, b3, NOT b3])"
  using not_cam [OF assms] by (simp add: transmit_bytes_def)

lemma decode_transmitted:
  assumes "table_cmd x" and "ha_cmd x = X10CMD_ON \<or> ha_cmd x = X10CMD_OFF"
  shows "recv_decode NORM_X10CMD_LEN (transmit_bytes x) = x"
proof -
  have h: "ha_house x \<in> set HouseCodeLut" and u: "ha_unit x \<in> set UnitCodeLut"
    using assms(1) by (simp_all add: table_cmd_def)
  note b1 = house_byte [OF h unit_split(1) [OF u]] and b3 = unit_byte [OF u assms(2)]
  have "transmit_bytes x =
     (let b1 = ucast (drop_bit 8 (ha_unit x) OR ha_house x); b3 = ucast ((ha_unit x AND 0xFF) OR ha_cmd x)
      in [NORM_X10CMD_PFX, b1, NOT b1, b3, NOT b3])"
    by (rule transmit_normal) (use assms(2) in auto)
  then show ?thesis
    using b1(1,2) b3(1,2) unit_split(2) [OF u] by (cases x) (simp add: recv_decode_def Let_def)
qed

section \<open>The loop\<close>

lemma recv_loop_zero:
  "recv_loop reads red readbuf k i reading addbuf = Some r \<Longrightarrow>
     \<not> ((\<forall>j \<ge> k. fst (reads j) = 0) \<and> i < 4 \<and> reading = 0)"
proof (induction rule: recv_loop.raw_induct [rotated, consumes 1, case_names loop])
  case (loop rec reads red readbuf k i reading addbuf r)
  show ?case
  proof
    assume a: "(\<forall>j \<ge> k. fst (reads j) = 0) \<and> i < 4 \<and> reading = 0"
    then obtain d where "reads k = (0, d)" by (cases "reads k") auto
    then have "read_intr_data reads k addbuf = (0, addbuf)" by (simp add: read_intr_data_def)
    then have "rec reads red readbuf (Suc k) i reading addbuf = Some r" using loop(2) a by simp
    from loop(1) [OF this] have "\<not> ((\<forall>j \<ge> Suc k. fst (reads j) = 0) \<and> i < 4 \<and> reading = 0)" .
    moreover have "\<forall>j \<ge> Suc k. fst (reads j) = 0" using a by (meson Suc_leD)
    ultimately show False using a by blast
  qed
qed

lemma recv_loop_step:
  assumes "0 < fst (reads k)" and "i < 4" and "reading < 2"
  shows "recv_loop reads red readbuf k i reading addbuf =
    recv_loop reads red readbuf (Suc k) (i + 1) 1 (snd (read_intr_data reads k addbuf))"
  using assms
  by (subst recv_loop.simps) (simp add: read_intr_data_def case_prod_beta)

lemma recv_loop_end: "\<not> (i < 4 \<and> reading < 2) \<Longrightarrow> recv_loop reads red readbuf k i reading addbuf = Some None"
  by (subst recv_loop.simps) (simp only: if_False)

lemma recv_loop_error:
  assumes "fst (reads k) < 0" and "i < 4" and "reading < 2"
  shows "recv_loop reads red readbuf k i reading addbuf = Some (if i < 3 then Some (fst (reads k)) else None)"
  using assms by (subst recv_loop.simps) (simp add: read_intr_data_def case_prod_beta)

text \<open>Repeats that are all there.\<close>

lemma recv_loop_repeats:
  assumes "\<forall>j \<in> {2, 3, 4, 5}. 0 < fst (reads j)"
  shows "recv_loop reads red readbuf 2 0 0 addbuf = Some None"
  using assms
  by (simp add: recv_loop_step eval_nat_numeral) (simp add: recv_loop_end)

lemma recv_loop_terminates:
  "\<forall>j \<ge> k. fst (reads j) \<noteq> 0 \<Longrightarrow> reading < 2 \<Longrightarrow> recv_loop reads red readbuf k i reading addbuf \<noteq> None"
proof (induction "nat (4 - i)" arbitrary: k i reading addbuf)
  case 0
  then show ?case by (simp add: recv_loop_end)
next
  case (Suc n)
  then have i: "i < 4" by simp
  consider "fst (reads k) < 0" | "0 < fst (reads k)" using Suc.prems(1) by force
  then show ?case
  proof cases
    case 1
    then show ?thesis using recv_loop_error [of reads k i reading] i Suc.prems(2) by simp
  next
    case 2
    have "recv_loop reads red readbuf (Suc k) (i + 1) 1 (snd (read_intr_data reads k addbuf)) \<noteq> None"
      by (rule Suc.hyps(1)) (use Suc i in auto)
    then show ?thesis using recv_loop_step [of reads k i reading] 2 i Suc.prems(2) by simp
  qed
qed

section \<open>Properties\<close>

text \<open>The five bytes sent for an on or off command are the prefix and two bytes each followed by
  its complement, and the decoding of the plugin applied to the frame gives the command back.\<close>

lemma transmitted_frame_decodes:
  assumes "table_cmd x" and "ha_cmd x = X10CMD_ON \<or> ha_cmd x = X10CMD_OFF"
  shows "recv_decode NORM_X10CMD_LEN (transmit_bytes x) = x
    \<and> length (transmit_bytes x) = NORM_X10CMD_LEN
    \<and> transmit_bytes x ! 2 = NOT (transmit_bytes x ! 1) \<and> transmit_bytes x ! 4 = NOT (transmit_bytes x ! 3)"
  using decode_transmitted [OF assms] transmit_normal [of x] assms(2) by (auto simp: Let_def)

definition e5_on :: x10_ha_command where
  "e5_on = \<lparr>ha_cmd = X10CMD_ON, ha_house = HOUSE_E, ha_unit = 0x040\<rparr>"

lemma e5_on_table: "table_cmd e5_on"
  by (simp add: table_cmd_def e5_on_def HouseCodeLut_def UnitCodeLut_def)

text \<open>C18: a frame read from the device is decoded one byte off, because the bytes behind the prefix
  are read over it: for every on or off command the house that is stored is the complement of the
  one that was sent, and on is taken for off and off for on.\<close>

theorem received_command_is_inverted:
  assumes "table_cmd x" and "ha_cmd x = X10CMD_ON \<or> ha_cmd x = X10CMD_OFF"
    and "reads 0 = (1, [transmit_bytes x ! 0])" and "reads 1 = (4, drop 1 (transmit_bytes x))"
    and "\<forall>j \<in> {2, 3, 4, 5}. 0 < fst (reads j)" and "length junk = 9"
  shows "\<exists>u. x10_recv reads junk junk2 =
     Some (1, Some \<lparr>ha_cmd = (if ha_cmd x = X10CMD_ON then X10CMD_OFF else X10CMD_ON),
                    ha_house = NOT (ha_house x) AND 0xF0, ha_unit = u\<rparr>)"
proof -
  have h: "ha_house x \<in> set HouseCodeLut" and u: "ha_unit x \<in> set UnitCodeLut"
    using assms(1) by (simp_all add: table_cmd_def)
  define b1 :: byte where "b1 = ucast (drop_bit 8 (ha_unit x) OR ha_house x)"
  define b3 :: byte where "b3 = ucast ((ha_unit x AND 0xFF) OR ha_cmd x)"
  have t: "transmit_bytes x = [NORM_X10CMD_PFX, b1, NOT b1, b3, NOT b3]"
    using transmit_normal [of x] assms(2) by (auto simp: b1_def b3_def Let_def)
  obtain j0 j1 j2 j3 js where junk: "junk = j0 # j1 # j2 # j3 # js" and js: "length js = 5"
    using assms(6) by (auto simp: length_Suc_conv eval_nat_numeral)
  have r0: "read_intr_data reads 0 junk = (1, NORM_X10CMD_PFX # j1 # j2 # j3 # js)"
    by (simp add: read_intr_data_def assms(3) t fill_def junk)
  have r1: "read_intr_data reads 1 (NORM_X10CMD_PFX # j1 # j2 # j3 # js) = (4, b1 # NOT b1 # b3 # NOT b3 # js)"
    using assms(4) by (simp add: read_intr_data_def t fill_def)
  have "x10_recv reads junk junk2 = Some (1, Some (recv_decode NORM_X10CMD_LEN (b1 # NOT b1 # b3 # NOT b3 # js)))"
    using recv_loop_repeats [OF assms(5)]
    by (simp add: x10_recv_def r0 r1 del: One_nat_def)
  moreover have "ucast (NOT b1) AND (0xF0 :: 32 word) = NOT (ha_house x) AND 0xF0"
    unfolding b1_def by (rule house_byte(3) [OF h unit_split(1) [OF u]])
  moreover have "ucast (NOT b3) AND X10CMD_OFF = (if ha_cmd x = X10CMD_ON then X10CMD_OFF else X10CMD_ON)"
    unfolding b3_def by (rule unit_byte(3) [OF u assms(2)])
  ultimately show ?thesis by (simp add: recv_decode_def)
qed

definition e5_reads :: usb_reads where
  "e5_reads k = (if k = 0 then (1, [0x20]) else (4, drop 1 (transmit_bytes e5_on)))"

theorem received_command_is_inverted_witness:
  "\<exists>u. x10_recv e5_reads (replicate 9 0) (replicate 9 0) =
     Some (1, Some \<lparr>ha_cmd = X10CMD_OFF, ha_house = HOUSE_B, ha_unit = u\<rparr>)"
  using received_command_is_inverted [OF e5_on_table, of e5_reads "replicate 9 0" "replicate 9 0"]
    transmit_normal [of e5_on]
  by (simp add: e5_reads_def) (simp add: e5_on_def Let_def)

text \<open>A frame with the normal prefix is never decoded to anything but on or off, so the dim and
  bright commands of a remote are not seen as such.\<close>

lemma normal_frames_decode_to_on_or_off:
  assumes "reads 0 = (1, [NORM_X10CMD_PFX])" and "length junk = 9"
    and "x10_recv reads junk junk2 = Some (r, Some x)"
  shows "ha_cmd x = X10CMD_ON \<or> ha_cmd x = X10CMD_OFF"
proof -
  have "read_intr_data reads 0 junk = (1, NORM_X10CMD_PFX # tl junk)"
    using assms(1,2) by (cases junk) (simp_all add: read_intr_data_def fill_def)
  with assms(3) obtain buf where "x = recv_decode NORM_X10CMD_LEN buf"
    by (auto simp: x10_recv_def Let_def split: prod.splits if_splits option.splits)
  then show ?thesis using and_off [of "ucast (buf ! 3)"] by (simp add: recv_decode_def)
qed

text \<open>The loop of \<open>x10_recv\<close> ends when no read of it returns 0, and never ends when every read
  returns 0 after the body of the command, where the thread holds the mutex of the queue.\<close>

lemma recv_ends_unless_reads_are_empty:
  assumes "reads 0 = (1, [NORM_X10CMD_PFX])" and "0 \<le> fst (reads 1)" and "length junk = 9"
  shows "((\<forall>j \<ge> 2. fst (reads j) \<noteq> 0) \<longrightarrow> x10_recv reads junk junk2 \<noteq> None)
    \<and> ((\<forall>j \<ge> 2. fst (reads j) = 0) \<longrightarrow> x10_recv reads junk junk2 = None)"
proof -
  have r0: "read_intr_data reads 0 junk = (1, NORM_X10CMD_PFX # tl junk)"
    using assms(1,3) by (cases junk) (simp_all add: read_intr_data_def fill_def)
  obtain red buf where r1: "read_intr_data reads 1 (NORM_X10CMD_PFX # tl junk) = (red, buf)" by fastforce
  then have "0 \<le> red" using assms(2) by (auto simp: read_intr_data_def split: prod.splits simp del: One_nat_def)
  have eq: "x10_recv reads junk junk2 = (case recv_loop reads red buf 2 0 0 junk2 of
                  None \<Rightarrow> None
                | Some (Some r) \<Rightarrow> Some (r, None)
                | Some None \<Rightarrow> Some (1, Some (recv_decode NORM_X10CMD_LEN buf)))"
    using r1 \<open>0 \<le> red\<close> by (simp add: x10_recv_def r0 del: One_nat_def)
  show ?thesis
  proof (intro conjI impI)
    assume "\<forall>j \<ge> 2. fst (reads j) \<noteq> 0"
    then have "recv_loop reads red buf 2 0 0 junk2 \<noteq> None" by (rule recv_loop_terminates) simp
    then show "x10_recv reads junk junk2 \<noteq> None" by (auto simp: eq split: option.splits)
  next
    assume "\<forall>j \<ge> 2. fst (reads j) = 0"
    then have "recv_loop reads red buf 2 0 0 junk2 = None"
      using recv_loop_zero [of reads red buf 2 0 0 junk2] by (cases "recv_loop reads red buf 2 0 0 junk2") auto
    then show "x10_recv reads junk junk2 = None" by (simp add: eq)
  qed
qed

end
