(* ===== verification/X10_Controller.thy ===== *)
theory X10_Controller
  imports X10_Driver X10_Libusb_Laws
begin

text \<open>
  \<open>controller/x10core/x10controller.h\<close>, \<open>.cpp\<close> and \<open>x10plugin.h\<close>: the controller, which chooses a
  plugin and sends commands through it. What goes to the plugin's \<open>send\<close> is an output; \<open>None\<close> as
  the result of an operation is a read outside the table of unit codes or a write outside the
  array of device names.
\<close>

datatype X10_PLUGIN_TYPE = LIBUSB | CM19A_DRV | NONE

datatype 'h plugin = P_libusb "'h Libusb" | P_driver Driver

record 'h X10Controller =
  m_driver :: "'h plugin option"
  IsOperational :: bool
  m_lastHouse :: HouseCode
  m_lastUnit :: UnitCode

text \<open>The constructor initialises \<open>m_driver\<close> only.\<close>

definition X10Controller_new :: "bool \<Rightarrow> HouseCode \<Rightarrow> UnitCode \<Rightarrow> 'h X10Controller" where
  "X10Controller_new g1 g2 g3 =
     \<lparr>m_driver = None, IsOperational = g1, m_lastHouse = g2, m_lastUnit = g3\<rparr>"

definition detectPluginType :: "(string \<Rightarrow> access_mode \<Rightarrow> bool) \<Rightarrow> X10_PLUGIN_TYPE" where
  "detectPluginType acc = (if HasController acc then CM19A_DRV else LIBUSB)"

definition plugin_close :: "'h plugin \<Rightarrow> 'h usb_event list" where
  "plugin_close p = (case p of P_libusb u \<Rightarrow> snd (Libusb_Close u) | P_driver d \<Rightarrow> [])"

definition Controller_Unload :: "'h X10Controller \<Rightarrow> 'h X10Controller \<times> 'h usb_event list" where
  "Controller_Unload c =
     (c\<lparr>m_driver := None, IsOperational := False\<rparr>,
      case m_driver c of None \<Rightarrow> [] | Some p \<Rightarrow> plugin_close p)"

text \<open>
  \<open>Load\<close> with the environment of the plugins: the file system, the busses and the results of the
  two calls that prepare the USB device; \<open>garbage\<close> is the \<open>Status\<close> of a new plugin.
\<close>

definition Controller_Load ::
    "(string \<Rightarrow> access_mode \<Rightarrow> bool) \<Rightarrow> (string \<Rightarrow> bool) \<Rightarrow> (int \<times> int \<times> 'h option) list list
       \<Rightarrow> int \<Rightarrow> int \<Rightarrow> bool \<Rightarrow> 'h X10Controller \<Rightarrow> (bool \<times> 'h X10Controller \<times> 'h usb_event list) option" where
  "Controller_Load acc exists busses conf claim garbage c0 =
     (let (c, evs) = Controller_Unload c0 in
      case detectPluginType acc of
        LIBUSB \<Rightarrow>
          (let (st, u, evs') = Libusb_Open busses conf claim (Libusb_new garbage)
           in Some (st, c\<lparr>m_driver := Some (P_libusb u), IsOperational := st\<rparr>, evs @ evs'))
      | CM19A_DRV \<Rightarrow>
          (case Driver_Open exists (Driver_new garbage) of
             None \<Rightarrow> None
           | Some (st, d) \<Rightarrow> Some (st, c\<lparr>m_driver := Some (P_driver d), IsOperational := st\<rparr>, evs))
      | NONE \<Rightarrow> Some (False, c, evs))"

text \<open>
  The part of \<open>x10_send\<close> behind its test for a switched-off unit: the command goes to the plugin
  with its unit code made anew, one number lower for dim and bright, and the house and unit are
  remembered.
\<close>

definition send_now :: "'h X10Controller \<Rightarrow> x10_ha_command \<Rightarrow> (x10_ha_command list \<times> 'h X10Controller) option" where
  "send_now c x =
     (let hack = (ha_cmd x = X10CMD_DIM \<or> ha_cmd x = X10CMD_BRIGHT) in
      case int_to_unit_code (unit_code_to_int (ha_unit x) - (if hack then 1 else 0)) of
        None \<Rightarrow> None
      | Some u \<Rightarrow> Some ([x\<lparr>ha_unit := u\<rparr>], c\<lparr>m_lastHouse := ha_house x, m_lastUnit := ha_unit x\<rparr>))"

text \<open>
  \<open>x10_send\<close>, with the commands handed to the plugin. It calls itself with an on command before a
  dim or bright for another unit than the last; that inner call does not call itself again, since
  its command is neither.
\<close>

definition x10_send ::
    "'h X10Controller \<Rightarrow> x10_ha_command option \<Rightarrow> (int \<times> x10_ha_command list \<times> 'h X10Controller) option" where
  "x10_send c cmd =
     (case cmd of
        None \<Rightarrow> Some (-1, [], c)
      | Some x \<Rightarrow>
          if \<not> IsOperational c then Some (-1, [], c)
          else if (ha_house x \<noteq> m_lastHouse c \<or> ha_unit x \<noteq> m_lastUnit c)
                  \<and> (ha_cmd x = X10CMD_DIM \<or> ha_cmd x = X10CMD_BRIGHT)
          then (case send_now c (x\<lparr>ha_cmd := X10CMD_ON\<rparr>) of
                  None \<Rightarrow> None
                | Some (sent1, c1) \<Rightarrow>
                    (case send_now c1 x of
                       None \<Rightarrow> None
                     | Some (sent2, c2) \<Rightarrow> Some (0, sent1 @ sent2, c2)))
          else (case send_now c x of None \<Rightarrow> None | Some (sent, c1) \<Rightarrow> Some (0, sent, c1)))"

definition Controller_recv ::
    "usb_reads \<Rightarrow> byte list \<Rightarrow> byte list \<Rightarrow> 'h X10Controller \<Rightarrow> (int \<times> x10_ha_command option) option" where
  "Controller_recv reads junk junk2 c =
     (if \<not> IsOperational c then Some (-1, None)
      else case m_driver c of
             None \<Rightarrow> None
           | Some (P_libusb u) \<Rightarrow> Libusb_recv reads junk junk2 u
           | Some (P_driver d) \<Rightarrow> Some (Driver_recv d, None))"

definition Controller_Type :: "'h X10Controller \<Rightarrow> X10_PLUGIN_TYPE" where
  "Controller_Type c =
     (case m_driver c of None \<Rightarrow> NONE | Some (P_libusb u) \<Rightarrow> LIBUSB | Some (P_driver d) \<Rightarrow> CM19A_DRV)"

section \<open>Loading and unloading\<close>

text \<open>An operational controller has a plugin whose \<open>Status\<close> is true.\<close>

definition controller_ok :: "'h X10Controller \<Rightarrow> bool" where
  "controller_ok c \<longleftrightarrow> (IsOperational c \<longrightarrow>
     (case m_driver c of None \<Rightarrow> False
      | Some (P_libusb u) \<Rightarrow> length (usb_handles u) = 5 \<and> usb_handles u ! 0 \<noteq> None
      | Some (P_driver d) \<Rightarrow> length (drv_handles d) = 5 \<and> drv_handles d ! 0 \<noteq> ''''))"

lemma controller_ok_unload: "controller_ok (fst (Controller_Unload c))"
  by (simp add: controller_ok_def Controller_Unload_def)

lemma found_devices_nonempty: "p \<in> set (found_devices exists is) \<Longrightarrow> p \<noteq> ''''"
  by (auto simp: found_devices_def device_path_def)

lemma controller_ok_load:
  assumes "Controller_Load acc exists busses conf claim garbage c = Some (b, c', evs)"
  shows "controller_ok c' \<and> (b \<longleftrightarrow> IsOperational c')"
proof (cases "detectPluginType acc")
  case LIBUSB
  with assms show ?thesis
    by (auto simp: Controller_Load_def Controller_Unload_def controller_ok_def Libusb_Open_def Libusb_new_def
        Let_def split: prod.splits)
next
  case CM19A_DRV
  with assms obtain d where d: "Driver_Open exists (Driver_new garbage) = Some (b, d)"
    and c': "c' = (fst (Controller_Unload c))\<lparr>m_driver := Some (P_driver d), IsOperational := b\<rparr>"
    by (auto simp: Controller_Load_def Let_def split: prod.splits option.splits)
  let ?ds = "found_devices exists [0..<10]"
  from d have b: "b \<longleftrightarrow> ?ds \<noteq> []" and l: "length ?ds \<le> MAX_CONTROLLER"
    and h: "drv_handles d = ?ds @ replicate (MAX_CONTROLLER - length ?ds) ''''"
    using open_loop_eq [of "replicate MAX_CONTROLLER ''''" 0 exists "[0..<10]" False]
    by (auto simp: Driver_Open_def Driver_new_def Let_def clear_from_eq split: if_splits)
  have "?ds \<noteq> [] \<Longrightarrow> ?ds ! 0 \<noteq> ''''" using found_devices_nonempty nth_mem by blast
  with b l h c' show ?thesis
    by (auto simp: controller_ok_def nth_append MAX_CONTROLLER_def)
next
  case NONE
  then show ?thesis by (simp add: detectPluginType_def split: if_splits)
qed

section \<open>What reaches the plugin\<close>

lemma send_now_table:
  assumes "1 \<le> u" and "u \<le> 16" and "ha_unit x = UnitCodeLut ! nat (u - 1)"
  defines "v \<equiv> (if u \<le> 8 then u else u - 8)"
  shows "send_now c x =
     (if ha_cmd x = X10CMD_DIM \<or> ha_cmd x = X10CMD_BRIGHT
      then if v = 1 then None
           else Some ([x\<lparr>ha_unit := UnitCodeLut ! nat (v - 2)\<rparr>],
                      c\<lparr>m_lastHouse := ha_house x, m_lastUnit := ha_unit x\<rparr>)
      else Some ([x\<lparr>ha_unit := UnitCodeLut ! nat (v - 1)\<rparr>],
                 c\<lparr>m_lastHouse := ha_house x, m_lastUnit := ha_unit x\<rparr>))"
proof -
  have "unit_code_to_int (ha_unit x) = v" using unit_code_to_int_nth [OF assms(1,2)] assms(3) by (simp add: v_def)
  moreover have "1 \<le> v" and "v \<le> 8" using assms(1,2) by (auto simp: v_def)
  ultimately show ?thesis by (auto simp: send_now_def int_to_unit_code_eq Let_def)
qed

lemma new_command_unit:
  "new_x10_ha_command code h u = Some x \<Longrightarrow>
     1 \<le> u \<and> u \<le> 16 \<and> ha_unit x = UnitCodeLut ! nat (u - 1) \<and> ha_cmd x = code"
  by (auto simp: new_x10_ha_command_eq split: if_splits)

section \<open>Properties\<close>

text \<open>\<open>Load\<close> leaves the controller operational exactly when it returns true, and then it has a
  plugin with a device to talk to; \<open>Unload\<close> leaves it not operational.\<close>

lemma loaded_controller_has_a_device:
  assumes "Controller_Load acc exists busses conf claim garbage c = Some (b, c', evs)"
  shows "(b \<longleftrightarrow> IsOperational c') \<and> controller_ok c' \<and> \<not> IsOperational (fst (Controller_Unload c'))"
  using controller_ok_load [OF assms] by (simp add: Controller_Unload_def)

text \<open>The units 9 to 16 cannot be reached: an on or off command for one of them goes to the
  plugin as the command for the unit eight lower.\<close>

lemma upper_units_are_sent_as_lower:
  assumes "new_x10_ha_command code h u = Some x" and "code = X10CMD_ON \<or> code = X10CMD_OFF"
    and "9 \<le> u" and "IsOperational c"
  shows "map_option (\<lambda>(r, sent, c'). (r, sent)) (x10_send c (Some x)) =
     map_option (\<lambda>y. (0, [y])) (new_x10_ha_command code h (u - 8))"
  using assms new_command_unit [OF assms(1)] send_now_table [of u x c]
  by (auto simp: x10_send_def new_x10_ha_command_eq split: if_splits)

definition live_controller :: "nat X10Controller" where
  "live_controller = \<lparr>m_driver = Some (P_libusb \<lparr>usb_handles = [Some 7, None, None, None, None], usb_status = True\<rparr>),
     IsOperational = True, m_lastHouse = HOUSE_A, m_lastUnit = UNIT_1\<rparr>"

lemma house_E: "is_house CHR ''E''"
  by (simp add: is_house_def of_char_upper)

text \<open>A dim or bright command for unit 1, or for unit 9 that is taken for it, reads the table of
  unit codes before its first entry. For the other units it goes out with the unit one lower,
  after an on command for the unit itself where that is not the one addressed last.\<close>

lemma dim_reads_outside_the_table:
  assumes "new_x10_ha_command code h u = Some x" and "code = X10CMD_DIM \<or> code = X10CMD_BRIGHT"
    and "IsOperational c"
  shows "(x10_send c (Some x) = None \<longleftrightarrow> u = 1 \<or> u = 9)
    \<and> (u \<noteq> 1 \<and> u \<noteq> 9 \<longrightarrow>
        (let v = (if u \<le> 8 then u else u - 8) in
         map_option (\<lambda>(r, sent, c'). sent) (x10_send c (Some x)) =
           Some ((if ha_house x \<noteq> m_lastHouse c \<or> ha_unit x \<noteq> m_lastUnit c
                  then [x\<lparr>ha_cmd := X10CMD_ON, ha_unit := UnitCodeLut ! nat (v - 1)\<rparr>] else [])
                 @ [x\<lparr>ha_unit := UnitCodeLut ! nat (v - 2)\<rparr>])))"
proof -
  note n = new_command_unit [OF assms(1)]
  have on: "send_now c' (x\<lparr>ha_cmd := X10CMD_ON\<rparr>) =
      Some ([x\<lparr>ha_cmd := X10CMD_ON, ha_unit := UnitCodeLut ! nat ((if u \<le> 8 then u else u - 8) - 1)\<rparr>],
            c'\<lparr>m_lastHouse := ha_house x, m_lastUnit := ha_unit x\<rparr>)" for c' :: "'a X10Controller"
    using send_now_table [of u "x\<lparr>ha_cmd := X10CMD_ON\<rparr>" c'] n by simp
  have dim: "send_now c' x =
      (if (if u \<le> 8 then u else u - 8) = 1 then None
       else Some ([x\<lparr>ha_unit := UnitCodeLut ! nat ((if u \<le> 8 then u else u - 8) - 2)\<rparr>],
                  c'\<lparr>m_lastHouse := ha_house x, m_lastUnit := ha_unit x\<rparr>))" for c' :: "'a X10Controller"
    using send_now_table [of u x c'] n assms(2) by auto
  have first: "(if u \<le> 8 then u else u - 8) = 1 \<longleftrightarrow> u = 1 \<or> u = 9" by auto
  have code: "ha_cmd x = X10CMD_DIM \<or> ha_cmd x = X10CMD_BRIGHT" using n assms(2) by simp
  show ?thesis
    using assms(3) code by (auto simp: x10_send_def on dim first Let_def)
qed

end
