(* ===== verification/X10_Kernel_Codes.thy ===== *)
theory X10_Kernel_Codes
  imports X10_Codes
begin

text \<open>
  The part of the kernel driver \<open>controller/linux/drivers/usb/comm/x10-cm19a.c\<close> that computes: its
  own copy of the code tables, the construction of a command, the bytes it puts on the device, the
  decoding of what it received, and the texts its device file takes and gives. A \<open>char\<close> or
  \<open>unsigned char\<close> of a buffer is the byte it holds; enumerations are 32-bit values.
\<close>

unbundle bit_operations_syntax

type_synonym kbyte = "8 word"

section \<open>Code tables\<close>

definition k_house_code_to_char :: "HouseCode \<Rightarrow> char" where
  "k_house_code_to_char code =
     (if code = HOUSE_A then CHR ''a''
      else if code = HOUSE_B then CHR ''b''
      else if code = HOUSE_C then CHR ''c''
      else if code = HOUSE_D then CHR ''d''
      else if code = HOUSE_E then CHR ''e''
      else if code = HOUSE_F then CHR ''f''
      else if code = HOUSE_G then CHR ''g''
      else if code = HOUSE_H then CHR ''h''
      else if code = HOUSE_I then CHR ''i''
      else if code = HOUSE_J then CHR ''j''
      else if code = HOUSE_K then CHR ''k''
      else if code = HOUSE_L then CHR ''l''
      else if code = HOUSE_M then CHR ''m''
      else if code = HOUSE_N then CHR ''n''
      else if code = HOUSE_O then CHR ''o''
      else if code = HOUSE_P then CHR ''p''
      else CHR ''?'')"

definition k_HouseCodeLut :: "HouseCode list" where
  "k_HouseCodeLut =
     [HOUSE_A, HOUSE_B, HOUSE_C, HOUSE_D, HOUSE_E, HOUSE_F, HOUSE_G, HOUSE_H,
      HOUSE_I, HOUSE_J, HOUSE_K, HOUSE_L, HOUSE_M, HOUSE_N, HOUSE_O, HOUSE_P]"

definition k_house_code_to_cam_code :: "HouseCode \<Rightarrow> kbyte" where
  "k_house_code_to_cam_code code =
     (if code = HOUSE_A then 0x90
      else if code = HOUSE_B then 0xA0
      else if code = HOUSE_C then 0x70
      else if code = HOUSE_D then 0x80
      else if code = HOUSE_E then 0xB0
      else if code = HOUSE_F then 0xC0
      else if code = HOUSE_G then 0xD0
      else if code = HOUSE_H then 0xE0
      else if code = HOUSE_I then 0x10
      else if code = HOUSE_J then 0x20
      else if code = HOUSE_K then 0xF0
      else if code = HOUSE_L then 0x00
      else if code = HOUSE_M then 0x30
      else if code = HOUSE_N then 0x40
      else if code = HOUSE_O then 0x50
      else if code = HOUSE_P then 0x60
      else 0x90)"

definition k_UnitCodeLut :: "UnitCode list" where
  "k_UnitCodeLut =
     [0x000, 0x010, 0x008, 0x018, 0x040, 0x050, 0x048, 0x058,
      0x400, 0x410, 0x408, 0x418, 0x440, 0x450, 0x448, 0x458]"

definition k_unit_code_to_int :: "UnitCode \<Rightarrow> int" where
  "k_unit_code_to_int code =
     (let unit = drop_bit 7 code AND 0x8;
          unit = unit OR (drop_bit 4 code AND 0x4);
          unit = unit OR (drop_bit 2 code AND 0x2);
          unit = unit OR (drop_bit 4 code AND 0x1)
      in uint unit + 1)"

definition k_parse_cmd_code :: "char \<Rightarrow> CmdCode" where
  "k_parse_cmd_code c =
     (if c = CHR ''+'' then X10CMD_ON
      else if c = CHR ''-'' then X10CMD_OFF
      else if c = CHR ''u'' then X10CMD_UP
      else if c = CHR ''d'' then X10CMD_DOWN
      else if c = CHR ''l'' then X10CMD_LEFT
      else if c = CHR ''r'' then X10CMD_RIGHT
      else if c = CHR ''b'' then X10CMD_BRIGHT
      else if c = CHR ''s'' then X10CMD_DIM
      else X10CMD_INVALID)"

definition k_cmd_code_to_char :: "CmdCode \<Rightarrow> char" where
  "k_cmd_code_to_char code =
     (if code = X10CMD_ON then CHR ''+''
      else if code = X10CMD_OFF then CHR ''-''
      else if code = X10CMD_DIM then CHR ''s''
      else if code = X10CMD_BRIGHT then CHR ''b''
      else if code = X10CMD_UP then CHR ''u''
      else if code = X10CMD_RIGHT then CHR ''r''
      else if code = X10CMD_DOWN then CHR ''d''
      else if code = X10CMD_LEFT then CHR ''l''
      else CHR ''?'')"

text \<open>The first argument says whether \<open>kmalloc\<close> returns memory; the macros are those of \<open>X10_Codes\<close>.\<close>

definition k_new_x10_ha_command ::
    "bool \<Rightarrow> CmdCode \<Rightarrow> char \<Rightarrow> int \<Rightarrow> x10_ha_command option" where
  "k_new_x10_ha_command mem cmd house0 unit =
     (let house = wrap8 (TO_LOWER (c_char house0)) in
      if OUT_OF_BOUNDS house HOUSE_MIN HOUSE_MAX then None
      else if OUT_OF_BOUNDS unit UNIT_MIN UNIT_MAX then None
      else if \<not> mem then None
      else Some \<lparr>ha_cmd = cmd,
                 ha_house = k_HouseCodeLut ! nat (house - HOUSE_MIN),
                 ha_unit = k_UnitCodeLut ! nat (unit - UNIT_MIN)\<rparr>)"

section \<open>Bytes on the device\<close>

definition k_IS_CAM_CODE :: "CmdCode \<Rightarrow> bool" where
  "k_IS_CAM_CODE code \<longleftrightarrow> code AND NOT 0xFF \<noteq> 0"

definition NORM_CMD_LEN :: nat where "NORM_CMD_LEN = 5"
definition CAM_CMD_LEN :: nat where "CAM_CMD_LEN = 4"
definition MAX_CMD_LEN :: nat where "MAX_CMD_LEN = NORM_CMD_LEN"

abbreviation (input) NORM_CMD_PFX :: kbyte where "NORM_CMD_PFX \<equiv> 0x20"
abbreviation (input) CAM_CMD_PFX :: kbyte where "CAM_CMD_PFX \<equiv> 0x14"

text \<open>The first \<open>cmdLen\<close> bytes of \<open>cmdBuf\<close> as \<open>x10_transmit_cmd\<close> fills it.\<close>

definition k_cmdBuf :: "x10_ha_command \<Rightarrow> kbyte list" where
  "k_cmdBuf x =
     (if k_IS_CAM_CODE (ha_cmd x)
      then [CAM_CMD_PFX,
            ucast (drop_bit 8 (ha_cmd x) OR ucast (k_house_code_to_cam_code (ha_house x))),
            ucast (ha_cmd x AND 0xFF),
            ucast (ha_house x)]
      else let b1 = ucast (drop_bit 8 (ha_unit x) OR ha_house x);
               b3 = ucast ((ha_unit x AND 0xFF) OR ha_cmd x)
           in [NORM_CMD_PFX, b1, NOT b1, b3, NOT b3])"

text \<open>The end of \<open>x10_recv\<close>, on the bytes of \<open>intrInBuf\<close>.\<close>

definition k_decode :: "nat \<Rightarrow> kbyte list \<Rightarrow> x10_ha_command" where
  "k_decode cmdLen buf =
     (if cmdLen = CAM_CMD_LEN
      then \<lparr>ha_cmd = push_bit 8 (ucast (buf ! 1) AND 0xF) OR ucast (buf ! 2),
            ha_house = ucast (buf ! 3),
            ha_unit = UNIT_1\<rparr>
      else \<lparr>ha_cmd = ucast (buf ! 3) AND X10CMD_OFF,
            ha_house = ucast (buf ! 1) AND 0xF0,
            ha_unit = push_bit 8 (ucast (buf ! 1) AND 0xF) OR (ucast (buf ! 3) AND NOT X10CMD_OFF)\<rparr>)"

section \<open>Texts of the device file\<close>

text \<open>
  What \<open>devf_read\<close> prints; \<open>%02d\<close> of a unit from 1 to 16. Ten characters are enough for it.
\<close>

definition unit_digits :: "int \<Rightarrow> string" where
  "unit_digits i = (let s = dec_int i in if length s < 2 then CHR ''0'' # s else s)"

definition k_print :: "x10_ha_command \<Rightarrow> string" where
  "k_print x =
     (if ha_cmd x = X10CMD_ON \<or> ha_cmd x = X10CMD_OFF
      then [k_cmd_code_to_char (ha_cmd x), k_house_code_to_char (ha_house x)]
           @ unit_digits (k_unit_code_to_int (ha_unit x)) @ [CHR 0x0A]
      else [k_cmd_code_to_char (ha_cmd x), k_house_code_to_char (ha_house x), CHR 0x0A])"

text \<open>
  What \<open>devf_write\<close> reads out of the copied buffer: the code, the house and the unit, which is an
  octet. A final newline becomes a zero; after an illegal second digit the code goes on.
\<close>

definition k_parse :: "string \<Rightarrow> (CmdCode \<times> char \<times> int) option" where
  "k_parse txt =
     (let bufLen = length txt;
          buf = txt @ [CHR 0x00];
          (buf, cmdLen) = (if buf ! (bufLen - 1) = CHR 0x0A
                           then (buf[bufLen - 1 := CHR 0x00], bufLen - 1)
                           else (buf, bufLen));
          cmdCode = k_parse_cmd_code (buf ! 0)
      in if cmdCode = X10CMD_INVALID then None
         else let house = buf ! 1 in
              if 2 < cmdLen
              then let c = c_char (buf ! 2) in
                   if c < 48 \<or> c > 57 then None
                   else let unit = c - 48 in
                        if 3 < cmdLen
                        then let c = c_char (buf ! 3) in
                             if c \<noteq> 0 \<and> (c < 48 \<or> c > 57) then Some (cmdCode, house, unit)
                             else Some (cmdCode, house, (unit * 10 mod 256 + (c - 48)) mod 256)
                        else Some (cmdCode, house, unit)
              else if cmdCode = X10CMD_ON \<or> cmdCode = X10CMD_OFF then None
              else Some (cmdCode, house, 255))"

section \<open>The tables of the kernel and of the service\<close>

lemma kernel_tables:
  "k_house_code_to_char = house_code_to_char" "k_HouseCodeLut = HouseCodeLut"
  "k_UnitCodeLut = UnitCodeLut" "k_house_code_to_cam_code = house_code_to_cam_code"
  "k_parse_cmd_code = parse_cmd_code" "k_cmd_code_to_char = cmd_code_to_char"
  by (simp_all add: fun_eq_iff k_house_code_to_char_def house_code_to_char_def k_HouseCodeLut_def
      HouseCodeLut_def k_UnitCodeLut_def UnitCodeLut_def k_house_code_to_cam_code_def
      house_code_to_cam_code_def k_parse_cmd_code_def parse_cmd_code_def k_cmd_code_to_char_def
      cmd_code_to_char_def)

lemma kernel_new_command: "k_new_x10_ha_command mem = new_x10_ha_command_alloc mem"
  by (simp add: fun_eq_iff k_new_x10_ha_command_def new_x10_ha_command_alloc_def kernel_tables Let_def)

text \<open>The numbers of the units, where the shift of the kernel is the right one.\<close>

lemma kernel_unit_number:
  assumes "1 \<le> u" and "u \<le> 16"
  shows "k_unit_code_to_int (UnitCodeLut ! nat (u - 1)) = u"
  using unit_cases [OF assms] by (auto simp: UnitCodeLut_def k_unit_code_to_int_def)

lemma digit_zero: "digit_char 0 = CHR ''0''"
  by (subst char_eq_of_char) (simp add: digit_char_def)

lemma unit_digits_eq:
  assumes "1 \<le> u" and "u \<le> 16"
  shows "unit_digits u = [digit_char (nat (u div 10)), digit_char (nat (u mod 10))]"
  using unit_cases [OF assms]
  by (auto simp: unit_digits_def dec_int_def dec_nat.simps digit_zero)

end
