(* ===== verification/X10_Kernel.thy ===== *)
theory X10_Kernel
  imports X10_Kernel_Codes
begin

text \<open>
  The device side of the kernel driver \<open>controller/linux/drivers/usb/comm/x10-cm19a.c\<close>: the
  structure of a transceiver with its locks, buffers and reference count, the transfers with their
  callbacks, and the operations of the device file and of the USB driver.

  The kernel is the environment. A call that may sleep takes a list of wake-ups: the result of the
  call, the interrupts that arrived while it slept, and the value of \<open>jiffies\<close> after it; when the
  list is at its end, or a lock is never given back, the call \<open>Blocks\<close>. The requests to the USB core
  are kept in the order they are made. A null pointer or a freed one that is used, and a second
  release, is \<open>Faults\<close>. Spin locks and memory barriers have no counterpart, since an interrupt is
  handled as a whole; interrupts arrive while a call sleeps or between two calls.
\<close>

unbundle bit_operations_syntax

section \<open>Results and parameters\<close>

datatype 'a outcome = Returns 'a | Blocks | Faults

definition andThen :: "'a outcome \<Rightarrow> ('a \<Rightarrow> 'b outcome) \<Rightarrow> 'b outcome" where
  "andThen m f = (case m of Returns x \<Rightarrow> f x | Blocks \<Rightarrow> Blocks | Faults \<Rightarrow> Faults)"

lemma andThen_simps [simp]:
  "andThen (Returns x) f = f x" "andThen Blocks f = Blocks" "andThen Faults f = Faults"
  by (simp_all add: andThen_def)

lemma andThen_Returns:
  "andThen m f = Returns y \<longleftrightarrow> (\<exists>x. m = Returns x \<and> f x = Returns y)"
  by (cases m) simp_all

abbreviation (input) ENOENT :: int where "ENOENT \<equiv> 2"
abbreviation (input) EIO :: int where "EIO \<equiv> 5"
abbreviation (input) EAGAIN :: int where "EAGAIN \<equiv> 11"
abbreviation (input) EFAULT :: int where "EFAULT \<equiv> 14"
abbreviation (input) EBUSY :: int where "EBUSY \<equiv> 16"
abbreviation (input) ENODEV :: int where "ENODEV \<equiv> 19"
abbreviation (input) EINVAL :: int where "EINVAL \<equiv> 22"
abbreviation (input) ECONNRESET :: int where "ECONNRESET \<equiv> 104"
abbreviation (input) ESHUTDOWN :: int where "ESHUTDOWN \<equiv> 108"
abbreviation (input) ETIMEDOUT :: int where "ETIMEDOUT \<equiv> 110"
abbreviation (input) ERESTARTSYS :: int where "ERESTARTSYS \<equiv> 512"

definition ReadBufSz :: nat where "ReadBufSz = 480"
definition PktTimeout :: int where "PktTimeout = 50"
definition MAX_MAX_TSCVR_CNT :: int where "MAX_MAX_TSCVR_CNT = 256"

text \<open>The parameters of the module, and the ticks of the kernel in a second.\<close>

record module_params =
  MaxTscvrCnt :: int
  ReadTimeout :: int
  ReadRepeat :: int
  HZ :: int

type_synonym jiffies = "64 word"

definition time_after :: "jiffies \<Rightarrow> jiffies \<Rightarrow> bool" where
  "time_after a b \<longleftrightarrow> sint (b - a) < 0"

section \<open>The structure of a transceiver\<close>

datatype 'a kptr = Null | Live 'a | Freed

fun kfree :: "'a kptr \<Rightarrow> 'a kptr outcome" where
  "kfree Null = Returns Null"
| "kfree (Live x) = Returns Freed"
| "kfree Freed = Faults"

datatype usb_request =
  SubmitIn | SubmitOut "kbyte list" | KillIn | KillOut | RegisterDev | DeregisterDev | PutDev

text \<open>
  \<open>intfdata\<close> belongs to the interface: whether its data pointer is the structure. \<open>requests\<close> is what
  was asked of the USB core. The spin locks and the fields that are not used, or in messages only, are left out.
\<close>

record x10_cm19a_device =
  kmutex :: bool
  usbDev :: bool
  usbIntf :: bool
  readBuf :: "kbyte list kptr"
  readBufLen :: nat
  readPktLen :: nat
  pktTimeoutJiffies :: int
  readLastArrival :: jiffies
  intrInEpAddr :: kbyte
  intrInUrb :: "unit kptr"
  intrInInterval :: int
  intrInConnected :: bool
  intrInDone :: bool
  intrInBuf :: "kbyte list kptr"
  intrInSz :: nat
  intrOutEpAddr :: kbyte
  intrOutUrb :: "unit kptr"
  intrOutInterval :: int
  intrOutBusy :: bool
  kernRef :: int
  present :: bool
  devfOpened :: bool
  idx :: int
  intfdata :: bool
  requests :: "usb_request list"

definition request :: "usb_request \<Rightarrow> x10_cm19a_device \<Rightarrow> x10_cm19a_device" where
  "request r d = d\<lparr>requests := requests d @ [r]\<rparr>"

text \<open>The structure after \<open>memset\<close>.\<close>

definition zeroed :: "x10_cm19a_device \<Rightarrow> x10_cm19a_device" where
  "zeroed d =
     \<lparr>kmutex = False, usbDev = False, usbIntf = False, readBuf = Null, readBufLen = 0, readPktLen = 0,
      pktTimeoutJiffies = 0, readLastArrival = 0, intrInEpAddr = 0, intrInUrb = Null,
      intrInInterval = 0, intrInConnected = False, intrInDone = False, intrInBuf = Null, intrInSz = 0,
      intrOutEpAddr = 0, intrOutUrb = Null, intrOutInterval = 0, intrOutBusy = False, kernRef = 0,
      present = False, devfOpened = False, idx = 0, intfdata = intfdata d, requests = requests d\<rparr>"

text \<open>
  \<open>init_x10_cm19a_device\<close> with what the three allocations returned; a failure releases what was
  allocated, but the pointers stay.
\<close>

definition init_x10_cm19a_device ::
    "module_params \<Rightarrow> jiffies \<Rightarrow> kbyte list option \<Rightarrow> bool \<Rightarrow> bool \<Rightarrow> x10_cm19a_device \<Rightarrow> x10_cm19a_device" where
  "init_x10_cm19a_device p now rb inUrb outUrb d =
     (let d = (zeroed d)\<lparr>kernRef := 1, pktTimeoutJiffies := c_div (PktTimeout * HZ p) 1000,
                         readLastArrival := now\<rparr>
      in case rb of
           None \<Rightarrow> d
         | Some junk \<Rightarrow>
             if \<not> inUrb then d\<lparr>readBuf := Freed\<rparr>
             else if \<not> outUrb then d\<lparr>readBuf := Freed, intrInUrb := Freed\<rparr>
             else d\<lparr>readBuf := Live junk, intrInUrb := Live (), intrOutUrb := Live (), present := True\<rparr>)"

definition abort_xfers :: "x10_cm19a_device \<Rightarrow> x10_cm19a_device outcome" where
  "abort_xfers d =
     andThen
       (if intrInConnected d
        then let d = d\<lparr>intrInConnected := False\<rparr> in
             if intrInUrb d \<noteq> Null \<and> usbDev d
             then if intrInUrb d = Freed then Faults else Returns (request KillIn d)
             else Returns d
        else Returns d)
       (\<lambda>d. if intrOutBusy d \<and> intrOutUrb d \<noteq> Null \<and> usbDev d
            then if intrOutUrb d = Freed then Faults
                 else Returns ((request KillOut d)\<lparr>intrOutBusy := False\<rparr>)
            else Returns d)"

definition uninit_x10_cm19a_device :: "x10_cm19a_device \<Rightarrow> x10_cm19a_device outcome" where
  "uninit_x10_cm19a_device d =
     andThen (abort_xfers d) (\<lambda>d.
     andThen (kfree (readBuf d)) (\<lambda>rb.
     andThen (kfree (intrInBuf d)) (\<lambda>ib.
     andThen (kfree (intrInUrb d)) (\<lambda>iu.
     andThen (kfree (intrOutUrb d)) (\<lambda>ou.
       Returns ((request PutDev d)\<lparr>readBuf := rb, intrInBuf := ib, intrInUrb := iu, intrOutUrb := ou,
                                   present := False\<rparr>))))))"

text \<open>\<open>kref_put\<close> with \<open>release_x10_cm19a_device\<close>.\<close>

definition kref_put :: "x10_cm19a_device \<Rightarrow> x10_cm19a_device outcome" where
  "kref_put d =
     (let d = d\<lparr>kernRef := kernRef d - 1\<rparr> in
      if kernRef d = 0 then uninit_x10_cm19a_device d else Returns d)"

section \<open>Interrupts\<close>

definition overwrite :: "nat \<Rightarrow> kbyte list \<Rightarrow> kbyte list \<Rightarrow> kbyte list" where
  "overwrite off src buf = take off buf @ src @ drop (off + length src) buf"

text \<open>The controller has put the packet into \<open>intrInBuf\<close> when the callback of the transfer runs.\<close>

definition deliver :: "kbyte list \<Rightarrow> x10_cm19a_device \<Rightarrow> x10_cm19a_device" where
  "deliver data d =
     (case intrInBuf d of Live ib \<Rightarrow> d\<lparr>intrInBuf := Live (overwrite 0 data ib)\<rparr> | _ \<Rightarrow> d)"

definition store_packet :: "jiffies \<Rightarrow> nat \<Rightarrow> x10_cm19a_device \<Rightarrow> x10_cm19a_device outcome" where
  "store_packet now n d =
     (if readBufLen d + n < ReadBufSz
      then case (readBuf d, intrInBuf d) of
             (Live rb, Live ib) \<Rightarrow>
               Returns (d\<lparr>readBuf := Live (overwrite (readBufLen d) (take n ib) rb),
                          readBufLen := readBufLen d + n, readLastArrival := now\<rparr>)
           | _ \<Rightarrow> Faults
      else Returns d)"

definition read_intr_cb :: "jiffies \<Rightarrow> int \<Rightarrow> nat \<Rightarrow> x10_cm19a_device \<Rightarrow> x10_cm19a_device outcome" where
  "read_intr_cb now status n d =
     (if status = -ENOENT \<or> status = -ECONNRESET \<or> status = -ESHUTDOWN
      then Returns (d\<lparr>intrInDone := True\<rparr>)
      else andThen
        (if status = 0 \<and> n > 0 then store_packet now n d else Returns d)
        (\<lambda>d. let d = (if intrInConnected d \<and> usbDev d then request SubmitIn d else d)
             in Returns (d\<lparr>intrInDone := True\<rparr>)))"

definition write_intr_cb :: "x10_cm19a_device \<Rightarrow> x10_cm19a_device" where
  "write_intr_cb d = d\<lparr>intrOutBusy := False\<rparr>"

text \<open>The end of a transfer: time, status and packet of one from the device, or one to it.\<close>

datatype irq = In_irq jiffies int "kbyte list" | Out_irq

fun handle_irq :: "irq \<Rightarrow> x10_cm19a_device \<Rightarrow> x10_cm19a_device outcome" where
  "handle_irq (In_irq now status data) d = read_intr_cb now status (length data) (deliver data d)"
| "handle_irq Out_irq d = Returns (write_intr_cb d)"

fun handle_irqs :: "irq list \<Rightarrow> x10_cm19a_device \<Rightarrow> x10_cm19a_device outcome" where
  "handle_irqs [] d = Returns d"
| "handle_irqs (q # qs) d = andThen (handle_irq q d) (handle_irqs qs)"

type_synonym wakeup = "int \<times> irq list \<times> jiffies"

text \<open>
  \<open>mutex_lock_interruptible\<close>: a result other than 0 is a signal. Whoever else holds the lock does
  not give it back, so that the call sleeps until a signal comes.
\<close>

fun lock_dev :: "wakeup list \<Rightarrow> x10_cm19a_device \<Rightarrow> (bool \<times> jiffies \<times> x10_cm19a_device \<times> wakeup list) outcome" where
  "lock_dev [] d = Blocks"
| "lock_dev ((r, qs, now) # ws) d =
     andThen (handle_irqs qs d) (\<lambda>d.
       if r \<noteq> 0 then Returns (False, now, d, ws)
       else if kmutex d then Blocks
       else Returns (True, now, d\<lparr>kmutex := True\<rparr>, ws))"

definition unlock :: "x10_cm19a_device \<Rightarrow> x10_cm19a_device" where
  "unlock d = d\<lparr>kmutex := False\<rparr>"

section \<open>Transfers\<close>

definition check_read_buffer :: "jiffies \<Rightarrow> x10_cm19a_device \<Rightarrow> x10_cm19a_device" where
  "check_read_buffer now d =
     (let d = (if PktTimeout = 0 \<or> time_after now (readLastArrival d + of_int (pktTimeoutJiffies d))
                  \<or> readBufLen d = ReadBufSz
               then d\<lparr>readPktLen := readBufLen d\<rparr> else d)
      in d\<lparr>intrInDone := False\<rparr>)"

text \<open>
  The loop of \<open>read_intr_data\<close> that waits for data: \<open>Some r\<close> is the result it leaves with,
  \<open>None\<close> that there is a packet. \<open>nb\<close> is the flag \<open>O_NONBLOCK\<close> of the file.
\<close>

fun wait_for_data ::
    "module_params \<Rightarrow> bool \<Rightarrow> jiffies \<Rightarrow> wakeup list \<Rightarrow> x10_cm19a_device
       \<Rightarrow> (int option \<times> x10_cm19a_device \<times> wakeup list) outcome" where
  "wait_for_data p nb timeout [] d =
     (if readPktLen d \<noteq> 0 then Returns (None, d, [])
      else if nb then Returns (Some (-EAGAIN), d, []) else Blocks)"
| "wait_for_data p nb timeout ((r, qs, now) # ws) d =
     (if readPktLen d \<noteq> 0 then Returns (None, d, (r, qs, now) # ws)
      else if nb then Returns (Some (-EAGAIN), d, (r, qs, now) # ws)
      else andThen (handle_irqs qs d) (\<lambda>d.
        if r < 0 then Returns (Some r, d, ws)
        else let timeout = (if ReadTimeout p \<noteq> 0 \<and> (readBufLen d \<noteq> 0 \<or> intrOutBusy d)
                            then now + of_int (c_div (ReadTimeout p * HZ p) 1000) else timeout)
             in if ReadTimeout p \<noteq> 0 \<and> time_after now timeout
                then Returns (Some (-ETIMEDOUT), d, ws)
                else wait_for_data p nb timeout ws (check_read_buffer now d)))"

text \<open>The packet is moved out of \<open>readBuf\<close>; nothing is copied to the caller.\<close>

definition take_packet :: "nat \<Rightarrow> x10_cm19a_device \<Rightarrow> x10_cm19a_device outcome" where
  "take_packet n d =
     (case readBuf d of
        Live rb \<Rightarrow>
          if n \<le> readBufLen d \<and> n \<le> readPktLen d
          then Returns (d\<lparr>readBuf := Live (overwrite 0 (take (readBufLen d - n) (drop n rb)) rb),
                          readBufLen := readBufLen d - n, readPktLen := readPktLen d - n\<rparr>)
          else Faults
      | _ \<Rightarrow> Faults)"

definition k_read_intr_data ::
    "module_params \<Rightarrow> bool \<Rightarrow> nat \<Rightarrow> wakeup list \<Rightarrow> x10_cm19a_device
       \<Rightarrow> (int \<times> x10_cm19a_device \<times> wakeup list) outcome" where
  "k_read_intr_data p nb readLen ws d =
     andThen (lock_dev ws d) (\<lambda>(locked, now, d, ws).
       if \<not> locked then Returns (-ERESTARTSYS, d, ws)
       else if \<not> usbDev d then Returns (-ENODEV, unlock d, ws)
       else if readLen = 0 then Returns (0, unlock d, ws)
       else let timeout = (if ReadTimeout p \<noteq> 0
                           then now + of_int (c_div (ReadTimeout p * HZ p) 1000) else 0)
            in andThen (wait_for_data p nb timeout ws (check_read_buffer now d)) (\<lambda>(left, d, ws).
              case left of
                Some r \<Rightarrow> Returns (r, unlock d, ws)
              | None \<Rightarrow>
                  let bytesToRead = min readLen (readPktLen d) in
                  andThen (take_packet bytesToRead d) (\<lambda>d. Returns (int bytesToRead, unlock d, ws))))"

text \<open>The loop of \<open>write_intr_data\<close> that waits for the transfer before: \<open>Some r\<close> as above.\<close>

fun wait_for_output ::
    "bool \<Rightarrow> wakeup list \<Rightarrow> x10_cm19a_device \<Rightarrow> (int option \<times> x10_cm19a_device \<times> wakeup list) outcome" where
  "wait_for_output nb [] d =
     (if \<not> intrOutBusy d then Returns (None, d, [])
      else if nb then Returns (Some (-EAGAIN), d, []) else Blocks)"
| "wait_for_output nb ((r, qs, now) # ws) d =
     (if \<not> intrOutBusy d then Returns (None, d, (r, qs, now) # ws)
      else if nb then Returns (Some (-EAGAIN), d, (r, qs, now) # ws)
      else andThen (handle_irqs qs d) (\<lambda>d.
        if r \<noteq> 0 then Returns (Some r, d, ws) else wait_for_output nb ws d))"

text \<open>The results of \<open>usb_alloc_coherent\<close> and of \<open>usb_submit_urb\<close> are arguments.\<close>

definition write_intr_data ::
    "bool \<Rightarrow> int \<Rightarrow> bool \<Rightarrow> kbyte list \<Rightarrow> wakeup list \<Rightarrow> x10_cm19a_device
       \<Rightarrow> (int \<times> x10_cm19a_device \<times> wakeup list) outcome" where
  "write_intr_data alloc submit nb inpBuf ws d =
     andThen (lock_dev ws d) (\<lambda>(locked, now, d, ws).
       if \<not> locked then Returns (-ERESTARTSYS, d, ws)
       else if \<not> usbDev d then Returns (-ENODEV, unlock d, ws)
       else if length inpBuf = 0 then Returns (0, unlock d, ws)
       else andThen (wait_for_output nb ws d) (\<lambda>(left, d, ws).
         case left of
           Some r \<Rightarrow> Returns (r, unlock d, ws)
         | None \<Rightarrow>
             if intrOutUrb d \<noteq> Live () then Faults
             else if \<not> alloc then Returns (0, unlock d, ws)
             else let d = request (SubmitOut inpBuf) (d\<lparr>intrOutBusy := True\<rparr>) in
                  if submit \<noteq> 0 then Returns (submit, unlock (d\<lparr>intrOutBusy := False\<rparr>), ws)
                  else Returns (int (length inpBuf), unlock d, ws)))"

section \<open>Commands\<close>

text \<open>A wrong acknowledgement is only logged, but the first byte of \<open>intrInBuf\<close> is read.\<close>

definition k_transmit_cmd ::
    "module_params \<Rightarrow> bool \<Rightarrow> int \<Rightarrow> bool \<Rightarrow> x10_ha_command \<Rightarrow> wakeup list \<Rightarrow> x10_cm19a_device
       \<Rightarrow> (int \<times> x10_cm19a_device \<times> wakeup list) outcome" where
  "k_transmit_cmd p alloc submit nb x ws d =
     (let cmdBuf = k_cmdBuf x in
      andThen (write_intr_data alloc submit nb cmdBuf ws d) (\<lambda>(writeRes, d, ws).
        if writeRes \<noteq> int (length cmdBuf) then Returns (-1, d, ws)
        else andThen (k_read_intr_data p nb 1 ws d) (\<lambda>(readRes, d, ws).
          if readRes < 0 then Returns (-1, d, ws)
          else case intrInBuf d of
                 Live (b # bs) \<Rightarrow> Returns (0, d, ws)
               | _ \<Rightarrow> Faults)))"

fun init_writes ::
    "(nat \<Rightarrow> bool) \<Rightarrow> (nat \<Rightarrow> int) \<Rightarrow> nat \<Rightarrow> kbyte list list \<Rightarrow> wakeup list \<Rightarrow> x10_cm19a_device
       \<Rightarrow> (int \<times> x10_cm19a_device \<times> wakeup list) outcome" where
  "init_writes alloc submit k [] ws d = Returns (0, d, ws)"
| "init_writes alloc submit k (bs # bss) ws d =
     andThen (write_intr_data (alloc k) (submit k) False bs ws d) (\<lambda>(writeRes, d, ws).
       if writeRes = int (length bs) then init_writes alloc submit (Suc k) bss ws d
       else Returns (-EIO, d, ws))"

definition init_remotes ::
    "(nat \<Rightarrow> bool) \<Rightarrow> (nat \<Rightarrow> int) \<Rightarrow> wakeup list \<Rightarrow> x10_cm19a_device
       \<Rightarrow> (int \<times> x10_cm19a_device \<times> wakeup list) outcome" where
  "init_remotes alloc submit =
     init_writes alloc submit 0
       [[0x20, 0x34, 0xcb, 0x58, 0xa7],
        [0x80, 0x01, 0x00, 0x20, 0x14],
        [0x80, 0x01, 0x00, 0x00, 0x14, 0x24, 0x20, 0x20]]"

text \<open>Every transfer uses up a wake-up.\<close>

lemma lock_dev_shrinks: "lock_dev ws d = Returns (b, now, d', ws') \<Longrightarrow> length ws' < length ws"
  by (cases ws) (auto simp: andThen_Returns split: if_splits prod.splits)

lemma wait_for_data_shrinks:
  "wait_for_data p nb t ws d = Returns (r, d', ws') \<Longrightarrow> length ws' \<le> length ws"
  by (induction ws arbitrary: t d)
     (force simp: andThen_Returns Let_def split: if_splits prod.splits)+

lemma k_read_intr_data_shrinks:
  assumes "k_read_intr_data p nb n ws d = Returns (r, d', ws')"
  shows "length ws' < length ws"
proof -
  from assms obtain b now d1 ws1 where l: "lock_dev ws d = Returns (b, now, d1, ws1)"
    by (auto simp: k_read_intr_data_def andThen_Returns)
  with assms have "length ws' \<le> length ws1"
    by (auto simp: k_read_intr_data_def andThen_Returns Let_def dest!: wait_for_data_shrinks
        split: if_splits option.splits)
  with lock_dev_shrinks [OF l] show ?thesis by simp
qed

text \<open>
  The loop of \<open>x10_recv\<close> over the repetitions of the command: \<open>Some r\<close> is the result it returns
  with, \<open>None\<close> that the command is decoded.
\<close>

function k_recv_loop ::
    "module_params \<Rightarrow> bool \<Rightarrow> nat \<Rightarrow> int \<Rightarrow> int \<Rightarrow> wakeup list \<Rightarrow> x10_cm19a_device
       \<Rightarrow> (int option \<times> x10_cm19a_device \<times> wakeup list) outcome" where
  "k_recv_loop p nb cmdLen i reading ws d =
     (if i < 5 \<and> reading < 2
      then case k_read_intr_data p nb cmdLen ws d of
             Returns (red, d', ws') \<Rightarrow>
               if red < 0 then Returns (Some red, d', ws')
               else if red = 0
               then k_recv_loop p nb cmdLen (i - 1 + 1) (if reading = 1 then 2 else reading) ws' d'
               else k_recv_loop p nb cmdLen (i + 1) (ReadRepeat p) ws' d'
           | Blocks \<Rightarrow> Blocks
           | Faults \<Rightarrow> Faults
      else Returns (None, d, ws))"
  by pat_completeness auto
termination
  by (relation "measure (\<lambda>(p, nb, n, i, r, ws, d). length ws)") (auto dest: k_read_intr_data_shrinks)

declare k_recv_loop.simps [simp del]

text \<open>
  The part of \<open>x10_recv\<close> after the prefix: the remainder of the command, whose result is overwritten,
  the repetitions, and the decoding of what is then in \<open>intrInBuf\<close>. A length of 0 asks for the
  largest \<open>size_t\<close>.
\<close>

definition k_recv_rest ::
    "module_params \<Rightarrow> bool \<Rightarrow> nat \<Rightarrow> wakeup list \<Rightarrow> x10_cm19a_device
       \<Rightarrow> (int \<times> x10_ha_command option \<times> x10_cm19a_device \<times> wakeup list) outcome" where
  "k_recv_rest p nb cmdLen ws d =
     (let readLen = (if cmdLen = 0 then 2 ^ 64 - 1 else cmdLen - 1) in
      andThen (k_read_intr_data p nb readLen ws d) (\<lambda>(red, d, ws).
      andThen (k_recv_loop p nb cmdLen 0 0 ws d) (\<lambda>(left, d, ws).
        case left of
          Some r \<Rightarrow> Returns (r, None, d, ws)
        | None \<Rightarrow>
            (case intrInBuf d of
               Live buf \<Rightarrow>
                 if length buf < max 4 cmdLen then Faults
                 else Returns (0, Some (k_decode cmdLen buf), d, ws)
             | _ \<Rightarrow> Faults))))"

definition k_recv ::
    "module_params \<Rightarrow> bool \<Rightarrow> wakeup list \<Rightarrow> x10_cm19a_device
       \<Rightarrow> (int \<times> x10_ha_command option \<times> x10_cm19a_device \<times> wakeup list) outcome" where
  "k_recv p nb ws d =
     andThen (k_read_intr_data p nb 1 ws d) (\<lambda>(red, d, ws).
       if red < 0 then Returns (red, None, d, ws)
       else if red \<noteq> 1 then k_recv_rest p nb 0 ws d
       else case intrInBuf d of
              Live (pfx # rest) \<Rightarrow>
                if pfx = CAM_CMD_PFX then k_recv_rest p nb CAM_CMD_LEN ws d
                else if pfx = NORM_CMD_PFX then k_recv_rest p nb NORM_CMD_LEN ws d
                else Returns (-1, None, d, ws)
            | _ \<Rightarrow> Faults)"

section \<open>Operations of the device file\<close>

text \<open>
  The result with the text that is copied to the reader, whose length \<open>bufLen\<close> is not looked at.
  \<open>copy\<close> says whether the copy succeeds.
\<close>

definition devf_read ::
    "module_params \<Rightarrow> bool \<Rightarrow> bool \<Rightarrow> wakeup list \<Rightarrow> x10_cm19a_device
       \<Rightarrow> ((int \<times> string) \<times> x10_cm19a_device \<times> wakeup list) outcome" where
  "devf_read p copy nb ws d =
     andThen (k_recv p nb ws d) (\<lambda>(r, x, d, ws).
       case x of
         None \<Rightarrow> Returns ((0, ''''), d, ws)
       | Some x \<Rightarrow>
           let txt = k_print x in
           if copy then Returns ((int (length txt), txt), d, ws) else Returns ((-EFAULT, ''''), d, ws))"

text \<open>
  \<open>copy\<close> and \<open>mem\<close> say whether the copy from the writer and the allocation succeed; the result of the
  transmission is not looked at.
\<close>

definition devf_write ::
    "module_params \<Rightarrow> bool \<Rightarrow> bool \<Rightarrow> bool \<Rightarrow> int \<Rightarrow> bool \<Rightarrow> string \<Rightarrow> wakeup list \<Rightarrow> x10_cm19a_device
       \<Rightarrow> (int \<times> x10_cm19a_device \<times> wakeup list) outcome" where
  "devf_write p copy mem alloc submit nb txt ws d =
     (let bufLen = length txt in
      if bufLen = 0 then Returns (0, d, ws)
      else if bufLen < 3 then Returns (int bufLen, d, ws)
      else if bufLen > MAX_CMD_LEN then Returns (int bufLen, d, ws)
      else if \<not> copy then Returns (int bufLen, d, ws)
      else case k_parse txt of
             None \<Rightarrow> Returns (int bufLen, d, ws)
           | Some (cmdCode, house, unit) \<Rightarrow>
               (case k_new_x10_ha_command mem cmdCode house unit of
                  None \<Rightarrow> Returns (int bufLen, d, ws)
                | Some x \<Rightarrow>
                    andThen (k_transmit_cmd p alloc submit nb x ws d)
                      (\<lambda>(r, d, ws). Returns (int bufLen, d, ws))))"

definition devf_readdir :: int where
  "devf_readdir = -EINVAL"

definition devf_poll :: "jiffies \<Rightarrow> x10_cm19a_device \<Rightarrow> 32 word \<times> x10_cm19a_device" where
  "devf_poll now d =
     (let d = check_read_buffer now d;
          mask = 0;
          mask = (if readPktLen d > 0 then mask OR (0x01 OR 0x40) else mask);
          mask = (if \<not> intrOutBusy d then mask OR (0x04 OR 0x100) else mask)
      in (mask, d))"

text \<open>
  Opening, with the state of \<open>disconnMutex\<close>: whether the interface is found, the result of the
  submission. The way out after a second open does not give the lock of the structure back.
\<close>

definition devf_open ::
    "bool \<Rightarrow> int \<Rightarrow> wakeup list \<Rightarrow> bool \<times> x10_cm19a_device
       \<Rightarrow> (int \<times> (bool \<times> x10_cm19a_device) \<times> wakeup list) outcome" where
  "devf_open found submit ws s =
     (let (disconnMutex, d) = s in
      if disconnMutex then Blocks
      else if \<not> found \<or> \<not> intfdata d then Returns (-ENODEV, (False, d), ws)
      else andThen (lock_dev ws d) (\<lambda>(locked, now, d, ws).
        if \<not> locked then Returns (-ERESTARTSYS, (False, d), ws)
        else if intrInUrb d \<noteq> Live () then Faults
        else let d = request SubmitIn (d\<lparr>intrInConnected := True, intrInDone := False\<rparr>) in
             if submit \<noteq> 0 then Returns (submit, (False, unlock (d\<lparr>intrInConnected := False\<rparr>)), ws)
             else if devfOpened d then Returns (-EBUSY, (False, d), ws)
             else Returns (0, (False, unlock (d\<lparr>devfOpened := True, kernRef := kernRef d + 1\<rparr>)), ws)))"

text \<open>The wait for the output has a limit of two seconds; its result is not looked at.\<close>

definition wait_for_end :: "wakeup list \<Rightarrow> x10_cm19a_device \<Rightarrow> (x10_cm19a_device \<times> wakeup list) outcome" where
  "wait_for_end ws d =
     (if intrOutBusy d
      then case ws of
             [] \<Rightarrow> Blocks
           | (r, qs, now) # ws \<Rightarrow> andThen (handle_irqs qs d) (\<lambda>d. Returns (d, ws))
      else Returns (d, ws))"

definition devf_release ::
    "wakeup list \<Rightarrow> x10_cm19a_device \<Rightarrow> (int \<times> x10_cm19a_device \<times> wakeup list) outcome" where
  "devf_release ws d =
     andThen (lock_dev ws d) (\<lambda>(locked, now, d, ws).
       if \<not> locked then Returns (-ERESTARTSYS, d, ws)
       else andThen (wait_for_end ws d) (\<lambda>(d, ws).
            andThen (abort_xfers d) (\<lambda>d.
            andThen (kref_put (unlock (d\<lparr>devfOpened := False\<rparr>))) (\<lambda>d.
              Returns (0, d, ws)))))"

section \<open>Operations of the USB driver\<close>

record endpoint =
  bEndpointAddress :: kbyte
  bmAttributes :: kbyte
  wMaxPacketSize :: nat
  bInterval :: int

text \<open>The result says whether the buffer could be allocated, where an allocation was made.\<close>

fun scan_endpoints ::
    "(nat \<Rightarrow> kbyte list option) \<Rightarrow> endpoint list \<Rightarrow> x10_cm19a_device \<Rightarrow> bool \<times> x10_cm19a_device" where
  "scan_endpoints kmalloc [] d = (True, d)"
| "scan_endpoints kmalloc (e # es) d =
     (let int_in = intrInEpAddr d = 0 \<and> bEndpointAddress e AND 0x80 = 0x80 \<and> bmAttributes e AND 0x03 = 3;
          d = (if int_in
               then d\<lparr>intrInInterval := bInterval e, intrInSz := wMaxPacketSize e,
                      intrInEpAddr := bEndpointAddress e,
                      intrInBuf := (case kmalloc (wMaxPacketSize e) of None \<Rightarrow> Null | Some b \<Rightarrow> Live b)\<rparr>
               else d)
      in if int_in \<and> intrInBuf d = Null then (False, d)
         else let d = (if intrOutEpAddr d = 0 \<and> bEndpointAddress e AND 0x80 = 0 \<and> bmAttributes e AND 0x03 = 3
                       then d\<lparr>intrOutEpAddr := bEndpointAddress e, intrOutInterval := bInterval e\<rparr>
                       else d)
              in scan_endpoints kmalloc es d)"

text \<open>
  What a probe meets: the interface, the results of the allocations, of the three initial writes
  and of the registration.
\<close>

record probe_env =
  pe_interface :: int
  pe_endpoints :: "endpoint list"
  pe_readBuf :: "kbyte list option"
  pe_inUrb :: bool
  pe_outUrb :: bool
  pe_kmalloc :: "nat \<Rightarrow> kbyte list option"
  pe_alloc :: "nat \<Rightarrow> bool"
  pe_submit :: "nat \<Rightarrow> int"
  pe_register :: int
  pe_now :: jiffies

text \<open>\<open>find_free_dev_struct\<close>: the first free entry; the array has \<open>MaxTscvrCnt\<close>.\<close>

fun find_free_dev_struct :: "nat \<Rightarrow> x10_cm19a_device list \<Rightarrow> nat option" where
  "find_free_dev_struct i [] = None"
| "find_free_dev_struct i (d # ds) = (if present d then find_free_dev_struct (Suc i) ds else Some i)"

text \<open>The part of the probe after the entry is found, with what the error label does.\<close>

definition probe_failed :: "x10_cm19a_device \<times> wakeup list \<Rightarrow> (int \<times> x10_cm19a_device \<times> wakeup list) outcome" where
  "probe_failed = (\<lambda>(d, ws). andThen (kref_put d) (\<lambda>d. Returns (-EIO, d, ws)))"

definition probe_dev ::
    "module_params \<Rightarrow> probe_env \<Rightarrow> wakeup list \<Rightarrow> x10_cm19a_device
       \<Rightarrow> (int \<times> x10_cm19a_device \<times> wakeup list) outcome" where
  "probe_dev p pe ws d =
     (let d = init_x10_cm19a_device p (pe_now pe) (pe_readBuf pe) (pe_inUrb pe) (pe_outUrb pe) d;
          d = d\<lparr>usbDev := True, usbIntf := True\<rparr>;
          (allocated, d) = scan_endpoints (pe_kmalloc pe) (pe_endpoints pe) d
      in if \<not> allocated then probe_failed (d, ws)
         else if intrInEpAddr d = 0 \<or> intrOutEpAddr d = 0 then probe_failed (d, ws)
         else andThen (init_remotes (pe_alloc pe) (pe_submit pe) ws d) (\<lambda>(initRes, d, ws).
           if initRes < 0 then probe_failed (d, ws)
           else let d = request RegisterDev d in
                if 0 \<le> pe_register pe
                then Returns (0, d\<lparr>present := True, intfdata := True\<rparr>, ws)
                else probe_failed (d, ws)))"

definition x10_cm19a_probe ::
    "module_params \<Rightarrow> probe_env \<Rightarrow> wakeup list \<Rightarrow> x10_cm19a_device list
       \<Rightarrow> (int \<times> x10_cm19a_device list \<times> wakeup list) outcome" where
  "x10_cm19a_probe p pe ws ds =
     (if pe_interface pe \<noteq> 0 then Returns (-EIO, ds, ws)
      else case find_free_dev_struct 0 ds of
             None \<Rightarrow> Returns (-EIO, ds, ws)
           | Some i \<Rightarrow>
               andThen (probe_dev p pe ws (ds ! i)) (\<lambda>(r, d, ws). Returns (r, ds[i := d], ws)))"

text \<open>
  The transceiver is unplugged. \<open>mutex_lock\<close> sleeps without regard to signals; the lock of the
  structure is not given back and the pointer to the device not cleared.
\<close>

definition x10_cm19a_disconn :: "bool \<times> x10_cm19a_device \<Rightarrow> (bool \<times> x10_cm19a_device) outcome" where
  "x10_cm19a_disconn s =
     (let (disconnMutex, d) = s in
      if \<not> intfdata d then Returns s
      else if disconnMutex then Blocks
      else let d = d\<lparr>intfdata := False\<rparr> in
           if kmutex d then Blocks
           else let d = request DeregisterDev (d\<lparr>kmutex := True\<rparr>);
                    d = request DeregisterDev d
                in andThen (kref_put d) (\<lambda>d. Returns (False, d)))"

text \<open>
  Loading the module: the array is not cleared, \<open>junk\<close> is what the allocation returned. The result
  comes with the array, \<open>None\<close> when there is none.
\<close>

fun number_entries :: "int \<Rightarrow> x10_cm19a_device list \<Rightarrow> x10_cm19a_device list" where
  "number_entries i [] = []"
| "number_entries i (d # ds) = d\<lparr>present := False, idx := i\<rparr> # number_entries (i + 1) ds"

definition x10_cm19a_init ::
    "module_params \<Rightarrow> x10_cm19a_device list option \<Rightarrow> int \<Rightarrow> int \<times> x10_cm19a_device list option" where
  "x10_cm19a_init p junk usbRegRet =
     (if MAX_MAX_TSCVR_CNT < MaxTscvrCnt p then (-1, None)
      else case junk of
             None \<Rightarrow> (-1, None)
           | Some ds \<Rightarrow>
               let Tscvrs = number_entries 0 (take (nat (MaxTscvrCnt p)) ds) in
               if usbRegRet \<noteq> 0 then (usbRegRet, Some Tscvrs) else (0, Some Tscvrs))"

section \<open>The life of a transceiver\<close>

text \<open>
  After a probe a transceiver is opened and closed by processes, read, written and polled through
  the files they opened, interrupted, and unplugged. \<open>kfiles\<close> counts the open files; closing one
  takes it away from the process whatever \<open>devf_release\<close> returns. An interrupt of the device comes
  only before its structure is given up, which the USB core sees to.
\<close>

record kstate =
  kdisconn :: bool
  kdev :: x10_cm19a_device
  kfiles :: nat

datatype kop =
  K_open bool int "wakeup list"
| K_read bool bool "wakeup list"
| K_write bool bool bool int bool string "wakeup list"
| K_poll jiffies
| K_close "wakeup list"
| K_irq irq
| K_unplug

fun kop_run :: "module_params \<Rightarrow> kop \<Rightarrow> kstate \<Rightarrow> kstate outcome" where
  "kop_run p (K_open found submit ws) s =
     andThen (devf_open found submit ws (kdisconn s, kdev s)) (\<lambda>(r, (dm, d), ws).
       Returns (s\<lparr>kdisconn := dm, kdev := d, kfiles := kfiles s + (if r = 0 then 1 else 0)\<rparr>))"
| "kop_run p (K_read copy nb ws) s =
     (if kfiles s = 0 then Returns s
      else andThen (devf_read p copy nb ws (kdev s)) (\<lambda>(r, d, ws). Returns (s\<lparr>kdev := d\<rparr>)))"
| "kop_run p (K_write copy mem alloc submit nb txt ws) s =
     (if kfiles s = 0 then Returns s
      else andThen (devf_write p copy mem alloc submit nb txt ws (kdev s))
             (\<lambda>(r, d, ws). Returns (s\<lparr>kdev := d\<rparr>)))"
| "kop_run p (K_poll now) s =
     (if kfiles s = 0 then Returns s else Returns (s\<lparr>kdev := snd (devf_poll now (kdev s))\<rparr>))"
| "kop_run p (K_close ws) s =
     (if kfiles s = 0 then Returns s
      else andThen (devf_release ws (kdev s))
             (\<lambda>(r, d, ws). Returns (s\<lparr>kdev := d, kfiles := kfiles s - 1\<rparr>)))"
| "kop_run p (K_irq q) s =
     (if \<not> present (kdev s) then Returns s
      else andThen (handle_irq q (kdev s)) (\<lambda>d. Returns (s\<lparr>kdev := d\<rparr>)))"
| "kop_run p K_unplug s =
     andThen (x10_cm19a_disconn (kdisconn s, kdev s)) (\<lambda>(dm, d).
       Returns (s\<lparr>kdisconn := dm, kdev := d\<rparr>))"

fun kops_run :: "module_params \<Rightarrow> kop list \<Rightarrow> kstate \<Rightarrow> kstate outcome" where
  "kops_run p [] s = Returns s"
| "kops_run p (a # acts) s = andThen (kop_run p a s) (kops_run p acts)"

end
