(* ===== verification/X10_Kernel_Laws.thy ===== *)
theory X10_Kernel_Laws
  imports X10_Kernel
begin

text \<open>
  What the kernel driver promises of a transceiver, and where it does not keep it: its buffers are
  never overrun and no pointer is misused, whatever the processes and the interrupts do; but a second
  open, and unplugging an open device, lose the lock of the structure for ever.
\<close>

section \<open>Reasoning about results\<close>

definition safe :: "('a \<Rightarrow> bool) \<Rightarrow> 'a outcome \<Rightarrow> bool" where
  "safe P m \<longleftrightarrow> (case m of Returns x \<Rightarrow> P x | Blocks \<Rightarrow> True | Faults \<Rightarrow> False)"

named_theorems safe_intros "safety of the operations of the driver"

lemma safe_simps [simp]: "safe P (Returns x) = P x" "safe P Blocks" "\<not> safe P Faults"
  by (simp_all add: safe_def)

lemma safe_andThen:
  assumes "safe Q m" and "\<And>x. Q x \<Longrightarrow> safe P (f x)"
  shows "safe P (andThen m f)"
  using assms by (cases m) simp_all

lemma safe_mono: "safe Q m \<Longrightarrow> (\<And>x. Q x \<Longrightarrow> P x) \<Longrightarrow> safe P m"
  by (cases m) simp_all

lemma safe_if: "(b \<Longrightarrow> safe P m) \<Longrightarrow> (\<not> b \<Longrightarrow> safe P m') \<Longrightarrow> safe P (if b then m else m')"
  by simp

section \<open>A sound transceiver\<close>

text \<open>
  The invariant of a live structure: \<open>n\<close> is the size of the input buffer, \<open>k\<close> the reference count,
  \<open>i\<close> whether the interface knows it. The packets of the USB core fit the buffer it was given.
\<close>

definition sound :: "nat \<Rightarrow> int \<Rightarrow> bool \<Rightarrow> x10_cm19a_device \<Rightarrow> bool" where
  "sound n k i d \<longleftrightarrow>
     (\<exists>rb ib. readBuf d = Live rb \<and> length rb = ReadBufSz \<and> intrInBuf d = Live ib \<and> length ib = n)
     \<and> 5 \<le> n \<and> intrInUrb d = Live () \<and> intrOutUrb d = Live ()
     \<and> readPktLen d \<le> readBufLen d \<and> readBufLen d < ReadBufSz \<and> usbDev d \<and> present d
     \<and> kernRef d = k \<and> intfdata d = i"

fun irq_ok :: "nat \<Rightarrow> irq \<Rightarrow> bool" where
  "irq_ok n (In_irq now status data) \<longleftrightarrow> length data \<le> n"
| "irq_ok n Out_irq \<longleftrightarrow> True"

definition wakes_ok :: "nat \<Rightarrow> wakeup list \<Rightarrow> bool" where
  "wakes_ok n ws \<longleftrightarrow> (\<forall>(r, qs, now) \<in> set ws. \<forall>q \<in> set qs. irq_ok n q)"

lemma wakes_ok_simps [simp]:
  "wakes_ok n []"
  "wakes_ok n ((r, qs, now) # ws) \<longleftrightarrow> (\<forall>q \<in> set qs. irq_ok n q) \<and> wakes_ok n ws"
  by (simp_all add: wakes_ok_def)

lemma length_overwrite: "off + length src \<le> length buf \<Longrightarrow> length (overwrite off src buf) = length buf"
  by (simp add: overwrite_def)

text \<open>Updates of the fields that the invariant does not mention.\<close>

lemma sound_updates [simp]:
  "sound n k i (d\<lparr>kmutex := b\<rparr>) = sound n k i d"
  "sound n k i (d\<lparr>intrInDone := b\<rparr>) = sound n k i d"
  "sound n k i (d\<lparr>intrInConnected := b\<rparr>) = sound n k i d"
  "sound n k i (d\<lparr>intrOutBusy := b\<rparr>) = sound n k i d"
  "sound n k i (d\<lparr>devfOpened := b\<rparr>) = sound n k i d"
  "sound n k i (request r d) = sound n k i d"
  "sound n k i (unlock d) = sound n k i d"
  "sound n k i (write_intr_cb d) = sound n k i d"
  by (simp_all add: sound_def request_def unlock_def write_intr_cb_def)

lemma sound_deliver:
  assumes "sound n k i d" and "length data \<le> n"
  shows "sound n k i (deliver data d)"
  using assms by (auto simp: sound_def deliver_def length_overwrite)

lemma sound_store_packet:
  assumes "sound n k i d" and "m \<le> n"
  shows "safe (sound n k i) (store_packet now m d)"
  using assms by (auto simp: sound_def store_packet_def length_overwrite)

lemma sound_handle_irq:
  assumes s: "sound n k i d" and q: "irq_ok n q"
  shows "safe (sound n k i) (handle_irq q d)"
proof (cases q)
  case (In_irq now status data)
  with q have "length data \<le> n" by simp
  then have "safe (sound n k i) (store_packet now (length data) (deliver data d))"
    by (intro sound_store_packet sound_deliver s)
  with s \<open>length data \<le> n\<close> show ?thesis
    by (auto simp: In_irq read_intr_cb_def Let_def intro!: safe_andThen sound_deliver)
next
  case Out_irq
  with s show ?thesis by simp
qed

lemma sound_handle_irqs:
  "sound n k i d \<Longrightarrow> \<forall>q \<in> set qs. irq_ok n q \<Longrightarrow> safe (sound n k i) (handle_irqs qs d)"
  by (induction qs arbitrary: d) (auto intro: safe_andThen [OF sound_handle_irq])

text \<open>A result whose device is sound and whose further wake-ups are good.\<close>

definition keeps :: "nat \<Rightarrow> int \<Rightarrow> bool \<Rightarrow> 'a \<times> x10_cm19a_device \<times> wakeup list \<Rightarrow> bool" where
  "keeps n k i = (\<lambda>(r, d, ws). sound n k i d \<and> wakes_ok n ws)"

lemma keeps_simp [simp]: "keeps n k i (r, d, ws) \<longleftrightarrow> sound n k i d \<and> wakes_ok n ws"
  by (simp add: keeps_def)

lemma sound_lock_dev:
  assumes "sound n k i d" and "wakes_ok n ws"
  shows "safe (\<lambda>(b, now, d, ws). sound n k i d \<and> wakes_ok n ws) (lock_dev ws d)"
proof (cases ws)
  case (Cons w ws')
  obtain r qs now where w: "w = (r, qs, now)" by (cases w) auto
  from assms Cons w have "safe (sound n k i) (handle_irqs qs d)"
    by (auto intro: sound_handle_irqs)
  with assms Cons w show ?thesis by (auto intro!: safe_andThen)
qed simp

section \<open>Transfers of a sound transceiver\<close>

lemma sound_check_read_buffer: "sound n k i d \<Longrightarrow> sound n k i (check_read_buffer now d)"
  by (simp add: check_read_buffer_def Let_def) (simp add: sound_def)

lemma sound_wait_for_data:
  "sound n k i d \<Longrightarrow> wakes_ok n ws \<Longrightarrow>
     safe (keeps n k i) (wait_for_data p nb t ws d)"
proof (induction ws arbitrary: t d nb)
  case (Cons w ws)
  obtain r qs now where w: "w = (r, qs, now)" by (cases w) auto
  from Cons.prems w have "safe (sound n k i) (handle_irqs qs d)"
    by (auto intro: sound_handle_irqs)
  with Cons w show ?case
    by (auto simp: Let_def intro!: safe_andThen Cons.IH sound_check_read_buffer)
qed simp

lemma sound_take_packet:
  assumes "sound n k i d" and "m \<le> readPktLen d"
  shows "safe (sound n k i) (take_packet m d)"
  using assms by (auto simp: sound_def take_packet_def length_overwrite)

lemma sound_read:
  assumes "sound n k i d" and "wakes_ok n ws"
  shows "safe (keeps n k i) (k_read_intr_data p nb m ws d)"
  unfolding k_read_intr_data_def
  by (rule safe_andThen [OF sound_lock_dev [OF assms]])
     (auto simp: Let_def split: option.split
       intro!: safe_andThen [OF sound_wait_for_data] safe_andThen [OF sound_take_packet] sound_check_read_buffer)

lemma sound_wait_for_output:
  "sound n k i d \<Longrightarrow> wakes_ok n ws \<Longrightarrow> safe (keeps n k i) (wait_for_output nb ws d)"
proof (induction ws arbitrary: d nb)
  case (Cons w ws)
  obtain r qs now where w: "w = (r, qs, now)" by (cases w) auto
  from Cons.prems w have "safe (sound n k i) (handle_irqs qs d)"
    by (auto intro: sound_handle_irqs)
  with Cons w show ?case by (auto intro!: safe_andThen Cons.IH)
qed simp

lemma sound_urbs:
  assumes "sound n k i d"
  shows "intrOutUrb d = Live ()" and "intrInUrb d = Live ()"
  using assms by (simp_all add: sound_def)

lemma sound_write:
  assumes "sound n k i d" and "wakes_ok n ws"
  shows "safe (keeps n k i) (write_intr_data alloc submit nb bs ws d)"
  unfolding write_intr_data_def
  by (rule safe_andThen [OF sound_lock_dev [OF assms]])
     (auto simp: Let_def sound_urbs [of n k i] split: option.split intro!: safe_andThen [OF sound_wait_for_output])

lemma sound_intrInBuf:
  assumes "sound n k i d"
  obtains b bs where "intrInBuf d = Live (b # bs)" and "4 \<le> length bs"
proof -
  from assms obtain ib where "intrInBuf d = Live ib" "5 \<le> length ib" by (auto simp: sound_def)
  with that show thesis by (cases ib) auto
qed

section \<open>Operations of a sound transceiver\<close>

lemma safe_first_byte:
  assumes "sound n k i d" and "\<And>b bs. intrInBuf d = Live (b # bs) \<Longrightarrow> 4 \<le> length bs \<Longrightarrow> safe P (f b bs)"
  shows "safe P (case intrInBuf d of Live (b # bs) \<Rightarrow> f b bs | _ \<Rightarrow> Faults)"
  using sound_intrInBuf [OF assms(1)] assms(2) by fastforce

lemma sound_transmit:
  assumes "sound n k i d" and "wakes_ok n ws"
  shows "safe (keeps n k i) (k_transmit_cmd p alloc submit nb x ws d)"
  unfolding k_transmit_cmd_def Let_def
  by (rule safe_andThen [OF sound_write [OF assms]])
     (auto intro!: safe_andThen [OF sound_read] safe_first_byte safe_if simp del: not_less)

lemma sound_recv_loop:
  "sound n k i d \<Longrightarrow> wakes_ok n ws \<Longrightarrow> safe (keeps n k i) (k_recv_loop p nb m j r ws d)"
proof (induction p nb m j r ws d rule: k_recv_loop.induct)
  case (1 p nb m j r ws d)
  have read: "safe (keeps n k i) (k_read_intr_data p nb m ws d)"
    by (rule sound_read) fact+
  show ?case
  proof (cases "j < 5 \<and> r < 2")
    case True
    show ?thesis
    proof (cases "k_read_intr_data p nb m ws d")
      case (Returns y)
      obtain red d' ws' where y: "y = (red, d', ws')" by (cases y) auto
      from read Returns y have s: "sound n k i d'" "wakes_ok n ws'" by simp_all
      have "safe (keeps n k i) (k_recv_loop p nb m (j + 1) (ReadRepeat p) ws' d')"
        if "\<not> red < 0" "red \<noteq> 0"
        using "1.IH"(2) [OF True Returns y [symmetric] refl] that s by simp
      moreover have "safe (keeps n k i) (k_recv_loop p nb m (j - 1 + 1) (if r = 1 then 2 else r) ws' d')"
        if "red = 0"
        using "1.IH"(1) [OF True Returns y [symmetric] refl] that s by simp
      ultimately show ?thesis
        using True Returns y s by (simp add: k_recv_loop.simps [of p nb m j r ws d])
    qed (use read True in \<open>simp_all add: k_recv_loop.simps [of p nb m j r ws d]\<close>)
  qed (use 1(3,4) in \<open>auto simp: k_recv_loop.simps [of p nb m j r ws d]\<close>)
qed

lemma cmd_lens: "CAM_CMD_LEN = 4" "NORM_CMD_LEN = 5"
  by (simp_all add: CAM_CMD_LEN_def NORM_CMD_LEN_def)

lemma sound_recv_end:
  assumes "sound n k i d" and "wakes_ok n ws" and "m \<le> 5"
  shows "safe (\<lambda>(r, x, d, ws). sound n k i d \<and> wakes_ok n ws)
    (case left of Some r \<Rightarrow> Returns (r, None, d, ws)
     | None \<Rightarrow> (case intrInBuf d of
                  Live buf \<Rightarrow> if length buf < max 4 m then Faults
                              else Returns (0, Some (k_decode m buf), d, ws)
                | _ \<Rightarrow> Faults))"
  using assms by (auto simp: sound_def split: option.split)

lemma sound_recv_rest:
  assumes "sound n k i d" and "wakes_ok n ws" and "m \<le> 5"
  shows "safe (\<lambda>(r, x, d, ws). sound n k i d \<and> wakes_ok n ws) (k_recv_rest p nb m ws d)"
  unfolding k_recv_rest_def Let_def
  by (rule safe_andThen [OF sound_read [OF assms(1,2)]])
     (auto intro!: safe_andThen [OF sound_recv_loop] sound_recv_end [OF _ _ assms(3)] simp del: max_less_iff_conj)

lemma sound_recv:
  assumes "sound n k i d" and "wakes_ok n ws"
  shows "safe (\<lambda>(r, x, d, ws). sound n k i d \<and> wakes_ok n ws) (k_recv p nb ws d)"
  unfolding k_recv_def
  by (rule safe_andThen [OF sound_read [OF assms]])
     (auto intro!: safe_first_byte safe_if sound_recv_rest simp: cmd_lens)

lemma sound_devf_read:
  assumes "sound n k i d" and "wakes_ok n ws"
  shows "safe (keeps n k i) (devf_read p copy nb ws d)"
  unfolding devf_read_def
  by (rule safe_andThen [OF sound_recv [OF assms]]) (auto simp: Let_def split: option.split)

lemma sound_devf_write:
  assumes "sound n k i d" and "wakes_ok n ws"
  shows "safe (keeps n k i) (devf_write p copy mem alloc submit nb txt ws d)"
  using assms unfolding devf_write_def Let_def
  by (auto split: option.split prod.split intro!: safe_andThen [OF sound_transmit])

section \<open>The life of a transceiver\<close>

text \<open>
  The invariant of a transceiver with its files: the count of references covers the open files and
  the interface; when it has come to 0 the structure is given up, and nothing can reach it.
\<close>

definition live :: "nat \<Rightarrow> x10_cm19a_device \<Rightarrow> bool" where
  "live n d \<longleftrightarrow> sound n (kernRef d) (intfdata d) d"

definition kinv :: "nat \<Rightarrow> kstate \<Rightarrow> bool" where
  "kinv n s \<longleftrightarrow>
     \<not> kdisconn s \<and>
     (if present (kdev s)
      then 1 \<le> kernRef (kdev s) \<and>
           int (kfiles s) + (if intfdata (kdev s) then 1 else 0) \<le> kernRef (kdev s) \<and>
           live n (kdev s)
      else kfiles s = 0 \<and> \<not> intfdata (kdev s))"

fun kop_ok :: "nat \<Rightarrow> kop \<Rightarrow> bool" where
  "kop_ok n (K_open found submit ws) \<longleftrightarrow> wakes_ok n ws"
| "kop_ok n (K_read copy nb ws) \<longleftrightarrow> wakes_ok n ws"
| "kop_ok n (K_write copy mem alloc submit nb txt ws) \<longleftrightarrow> wakes_ok n ws"
| "kop_ok n (K_poll now) \<longleftrightarrow> True"
| "kop_ok n (K_close ws) \<longleftrightarrow> wakes_ok n ws"
| "kop_ok n (K_irq q) \<longleftrightarrow> irq_ok n q"
| "kop_ok n K_unplug \<longleftrightarrow> True"

text \<open>For the life of a structure the parts of the invariant are split.\<close>

lemma sound_split: "sound n k i d \<longleftrightarrow> live n d \<and> kernRef d = k \<and> intfdata d = i"
  by (auto simp: live_def sound_def)

lemma live_present: "live n d \<Longrightarrow> present d"
  by (simp add: live_def sound_def)

declare live_present [simp]

lemma kinv_live:
  "kinv n s \<Longrightarrow> 0 < kfiles s \<or> present (kdev s) \<Longrightarrow>
     sound n (kernRef (kdev s)) (intfdata (kdev s)) (kdev s)"
  by (auto simp: kinv_def sound_split split: if_splits)

lemma kinv_keep:
  assumes "kinv n s" and "sound n (kernRef (kdev s)) (intfdata (kdev s)) d"
    and "0 < kfiles s \<or> present (kdev s)"
  shows "kinv n (s\<lparr>kdev := d\<rparr>)"
  using assms by (auto simp: kinv_def sound_split split: if_splits)

lemma sound_abort_xfers:
  assumes "sound n k i d"
  shows "safe (sound n k i) (abort_xfers d)"
  using assms by (auto simp: abort_xfers_def Let_def sound_urbs [of n k i] intro!: safe_andThen [of "sound n k i"])

lemma uninit_sound:
  assumes "sound n k i d"
  shows "safe (\<lambda>d. \<not> present d \<and> intfdata d = i) (uninit_x10_cm19a_device d)"
  unfolding uninit_x10_cm19a_device_def
  by (rule safe_andThen [OF sound_abort_xfers [OF assms]])
     (auto simp: sound_def request_def)

text \<open>After a reference is given back: the structure is live with one less, or given up.\<close>

definition dropped :: "nat \<Rightarrow> int \<Rightarrow> bool \<Rightarrow> x10_cm19a_device \<Rightarrow> bool" where
  "dropped n k i d \<longleftrightarrow> intfdata d = i \<and> (if k = 1 then \<not> present d else live n d \<and> kernRef d = k - 1)"

lemma kref_put_sound:
  assumes "sound n k i d"
  shows "safe (dropped n k i) (kref_put d)"
proof -
  have s: "sound n (k - 1) i (d\<lparr>kernRef := kernRef d - 1\<rparr>)" and "kernRef d = k"
    using assms by (auto simp: sound_def)
  have "safe (dropped n k i) (uninit_x10_cm19a_device (d\<lparr>kernRef := kernRef d - 1\<rparr>))" if "k = 1"
    by (rule safe_mono [OF uninit_sound [OF s]]) (simp add: dropped_def that)
  with s \<open>kernRef d = k\<close> show ?thesis
    by (auto simp: kref_put_def Let_def dropped_def sound_split)
qed

lemma sound_wait_for_end:
  assumes "sound n k i d" and "wakes_ok n ws"
  shows "safe (\<lambda>(d, ws). sound n k i d \<and> wakes_ok n ws) (wait_for_end ws d)"
proof (cases ws)
  case (Cons w ws')
  obtain r qs now where w: "w = (r, qs, now)" by (cases w) auto
  from assms Cons w have "safe (sound n k i) (handle_irqs qs d)" by (auto intro: sound_handle_irqs)
  with assms Cons w show ?thesis by (auto simp: wait_for_end_def intro!: safe_andThen)
qed (use assms in \<open>simp add: wait_for_end_def\<close>)

lemma devf_release_sound:
  assumes "sound n k i d" and "wakes_ok n ws"
  shows "safe (\<lambda>(r, d, ws). sound n k i d \<or> dropped n k i d) (devf_release ws d)"
  unfolding devf_release_def
  by (rule safe_andThen [OF sound_lock_dev [OF assms]])
     (auto intro!: safe_andThen [OF sound_wait_for_end] safe_andThen [OF sound_abort_xfers]
       safe_andThen [OF kref_put_sound])

lemma devf_open_sound:
  assumes "sound n k i d" and "wakes_ok n ws"
  shows "safe (\<lambda>(r, (dm, d), ws). \<not> dm \<and> sound n (if r = 0 then k + 1 else k) i d)
           (devf_open found submit ws (dm, d))"
  unfolding devf_open_def Let_def prod.case
  by (auto simp: sound_urbs [of n k i] assms intro!: safe_andThen [OF sound_lock_dev [OF assms]])
     (auto simp: sound_def unlock_def request_def)

lemma disconn_sound:
  assumes "sound n k i d"
  shows "safe (\<lambda>(dm', d). if i then \<not> dm' \<and> dropped n k False d else dm' = dm \<and> sound n k i d)
           (x10_cm19a_disconn (dm, d))"
proof (cases i)
  case True
  have "sound n k False (request DeregisterDev (request DeregisterDev (d\<lparr>intfdata := False, kmutex := True\<rparr>)))"
    using assms by (auto simp: sound_def request_def)
  moreover have "intfdata d" using assms True by (simp add: sound_split)
  ultimately show ?thesis
    using True by (auto simp: x10_cm19a_disconn_def Let_def intro!: safe_andThen [OF kref_put_sound])
qed (use assms in \<open>auto simp: x10_cm19a_disconn_def sound_split\<close>)

lemma kinv_open:
  assumes "kinv n s" and "wakes_ok n ws"
  shows "safe (kinv n) (kop_run p (K_open found submit ws) s)"
proof (cases "present (kdev s)")
  case True
  then show ?thesis
    unfolding kop_run.simps
    by (intro safe_andThen [OF devf_open_sound [OF kinv_live]])
       (use assms in \<open>auto simp: kinv_def sound_split split: if_splits\<close>)
qed (use assms in \<open>auto simp: kinv_def devf_open_def\<close>)

lemma kinv_close:
  assumes "kinv n s" and "wakes_ok n ws"
  shows "safe (kinv n) (kop_run p (K_close ws) s)"
proof (cases "kfiles s = 0")
  case False
  show ?thesis
    using False unfolding kop_run.simps
    by (auto intro!: safe_andThen [OF devf_release_sound [OF kinv_live]] assms)
       (use assms False in \<open>auto simp: kinv_def sound_split dropped_def split: if_splits\<close>)
qed (use assms in simp)

lemma kinv_unplug:
  assumes "kinv n s"
  shows "safe (kinv n) (kop_run p K_unplug s)"
proof (cases "present (kdev s)")
  case True
  then show ?thesis
    unfolding kop_run.simps
    by (intro safe_andThen [OF disconn_sound [OF kinv_live]])
       (use assms in \<open>auto simp: kinv_def sound_split dropped_def split: if_splits\<close>)
qed (use assms in \<open>auto simp: kinv_def x10_cm19a_disconn_def\<close>)

lemma kinv_op:
  assumes "kinv n s" and "kop_ok n a"
  shows "safe (kinv n) (kop_run p a s)"
proof (cases a)
  case (K_read copy nb ws)
  with assms show ?thesis
    by (auto intro!: safe_andThen [OF sound_devf_read [OF kinv_live]] kinv_keep)
next
  case (K_write copy mem alloc submit nb str ws)
  with assms show ?thesis
    by (auto intro!: safe_andThen [OF sound_devf_write [OF kinv_live]] kinv_keep)
next
  case (K_poll now)
  with assms show ?thesis
    by (auto simp: devf_poll_def Let_def intro!: kinv_keep sound_check_read_buffer kinv_live)
next
  case (K_irq q)
  with assms show ?thesis
    by (auto intro!: safe_andThen [OF sound_handle_irq [OF kinv_live]] kinv_keep)
qed (use assms kinv_open kinv_close kinv_unplug in \<open>simp_all del: kop_run.simps\<close>)

lemma kinv_ops: "kinv n s \<Longrightarrow> \<forall>a \<in> set acts. kop_ok n a \<Longrightarrow> safe (kinv n) (kops_run p acts s)"
  by (induction acts arbitrary: s) (auto intro: safe_andThen [OF kinv_op])

section \<open>The probe\<close>

definition scanned :: "x10_cm19a_device \<Rightarrow> bool" where
  "scanned d \<longleftrightarrow> (intrInEpAddr d \<noteq> 0 \<longrightarrow>
     (\<exists>b. intrInBuf d = Live b \<and> length b = intrInSz d \<and> 5 \<le> intrInSz d))"

lemma scan_endpoints_scanned:
  assumes "scan_endpoints kmalloc es d = (True, d')" and "scanned d"
    and "\<forall>m b. kmalloc m = Some b \<longrightarrow> length b = m" and "\<forall>e \<in> set es. 5 \<le> wMaxPacketSize e"
  shows "scanned d'"
  using assms
proof (induction es arbitrary: d)
  case (Cons e es)
  then show ?case
    by (auto simp: Let_def scanned_def split: if_splits option.splits)
qed simp

lemma scan_endpoints_keeps:
  "scan_endpoints kmalloc es d = (b, d') \<Longrightarrow>
     readBuf d' = readBuf d \<and> readBufLen d' = readBufLen d \<and> readPktLen d' = readPktLen d \<and>
     intrInUrb d' = intrInUrb d \<and> intrOutUrb d' = intrOutUrb d \<and> usbDev d' = usbDev d \<and>
     present d' = present d \<and> kernRef d' = kernRef d \<and> intfdata d' = intfdata d \<and> kmutex d' = kmutex d
     \<and> intrOutBusy d' = intrOutBusy d \<and> requests d' = requests d"
  by (induction es arbitrary: d) (auto simp: Let_def split: if_splits)

text \<open>The allocations of a probe give memory of the size that was asked for, and packets have at
  least the length of a command.\<close>

definition memory_ok :: "probe_env \<Rightarrow> bool" where
  "memory_ok pe \<longleftrightarrow>
     (\<exists>rb. pe_readBuf pe = Some rb \<and> length rb = ReadBufSz) \<and> pe_inUrb pe \<and> pe_outUrb pe \<and>
     (\<forall>m b. pe_kmalloc pe m = Some b \<longrightarrow> length b = m) \<and>
     (\<forall>e \<in> set (pe_endpoints pe). 5 \<le> wMaxPacketSize e)"

text \<open>The structure when the endpoints are known.\<close>

definition probed :: "module_params \<Rightarrow> probe_env \<Rightarrow> x10_cm19a_device \<Rightarrow> bool \<times> x10_cm19a_device" where
  "probed p pe d =
     scan_endpoints (pe_kmalloc pe) (pe_endpoints pe)
       ((init_x10_cm19a_device p (pe_now pe) (pe_readBuf pe) (pe_inUrb pe) (pe_outUrb pe) d)
          \<lparr>usbDev := True, usbIntf := True\<rparr>)"

lemma probe_dev_probed:
  "probe_dev p pe ws d =
     (let (allocated, d) = probed p pe d
      in if \<not> allocated then probe_failed (d, ws)
         else if intrInEpAddr d = 0 \<or> intrOutEpAddr d = 0 then probe_failed (d, ws)
         else andThen (init_remotes (pe_alloc pe) (pe_submit pe) ws d) (\<lambda>(initRes, d, ws).
           if initRes < 0 then probe_failed (d, ws)
           else let d = request RegisterDev d in
                if 0 \<le> pe_register pe
                then Returns (0, d\<lparr>present := True, intfdata := True\<rparr>, ws)
                else probe_failed (d, ws)))"
  by (simp add: probe_dev_def probed_def Let_def)

lemma sound_probed:
  assumes "memory_ok pe" and "probed p pe d = (True, d')" and "intrInEpAddr d' \<noteq> 0"
  shows "sound (intrInSz d') 1 (intfdata d) d'"
proof -
  from assms obtain rb where rb: "pe_readBuf pe = Some rb" "length rb = ReadBufSz"
    by (auto simp: memory_ok_def)
  have "scanned d'"
    using assms by (intro scan_endpoints_scanned [OF assms(2) [unfolded probed_def]])
      (auto simp: memory_ok_def scanned_def init_x10_cm19a_device_def zeroed_def Let_def rb)
  with scan_endpoints_keeps [OF assms(2) [unfolded probed_def]] assms rb show ?thesis
    by (auto simp: sound_def scanned_def memory_ok_def init_x10_cm19a_device_def zeroed_def Let_def ReadBufSz_def)
qed

lemma sound_init_writes:
  "sound n k i d \<Longrightarrow> wakes_ok n ws \<Longrightarrow> safe (keeps n k i) (init_writes alloc submit j bss ws d)"
  by (induction bss arbitrary: j d ws) (auto intro!: safe_andThen [OF sound_write])

lemma probe_failed_nonzero: "probe_failed x \<noteq> Returns (0, y)"
  by (cases x) (auto simp: probe_failed_def andThen_Returns)

lemma wakes_ok_mono: "wakes_ok 0 ws \<Longrightarrow> wakes_ok n ws"
proof -
  have "irq_ok 0 q \<Longrightarrow> irq_ok n q" for q by (cases q) simp_all
  then show "wakes_ok 0 ws \<Longrightarrow> wakes_ok n ws" by (fastforce simp: wakes_ok_def)
qed

definition in_size :: "x10_cm19a_device \<Rightarrow> nat" where
  "in_size d = (case intrInBuf d of Live ib \<Rightarrow> length ib | _ \<Rightarrow> 0)"

definition just_probed :: "x10_cm19a_device \<Rightarrow> kstate" where
  "just_probed d = \<lparr>kdisconn = False, kdev = d, kfiles = 0\<rparr>"

lemma probe_sound:
  assumes pr: "probe_dev p pe ws d = Returns (0, d', ws')" and m: "memory_ok pe"
    and w: "wakes_ok 0 ws"
  shows "kinv (in_size d') (just_probed d')"
proof -
  obtain allocated e where e: "probed p pe d = (allocated, e)" by (cases "probed p pe d")
  with pr have a: "allocated" "intrInEpAddr e \<noteq> 0"
    by (auto simp: probe_dev_probed probe_failed_nonzero split: if_splits)
  define n where "n = intrInSz e"
  from sound_probed [OF m] e a have s: "sound n 1 (intfdata d) e" by (simp add: n_def)
  from pr e a obtain r e' ws1 where i: "init_remotes (pe_alloc pe) (pe_submit pe) ws e = Returns (r, e', ws1)"
    by (auto simp: probe_dev_probed probe_failed_nonzero andThen_Returns split: if_splits)
  with pr e a have d': "d' = (request RegisterDev e')\<lparr>present := True, intfdata := True\<rparr>"
    by (auto simp: probe_dev_probed probe_failed_nonzero Let_def split: if_splits)
  have "safe (keeps n 1 (intfdata d)) (init_remotes (pe_alloc pe) (pe_submit pe) ws e)"
    unfolding init_remotes_def by (rule sound_init_writes [OF s wakes_ok_mono [OF w]])
  with i have "sound n 1 True d'" by (auto simp: d' sound_def request_def)
  then have "live n d'" and "kernRef d' = 1" and "intfdata d'" and "in_size d' = n"
    by (auto simp: sound_split in_size_def) (auto simp: live_def sound_def)
  then show ?thesis by (simp add: kinv_def just_probed_def)
qed

text \<open>A probe that gets no memory goes on: the first initial write uses the transfer that is missing.\<close>

lemma probe_without_memory_faults:
  assumes "pe_readBuf pe = None \<or> \<not> pe_inUrb pe \<or> \<not> pe_outUrb pe"
    and e: "probed p pe d = (True, e)" and "intrInEpAddr e \<noteq> 0" and "intrOutEpAddr e \<noteq> 0"
  shows "probe_dev p pe ((0, [], now) # ws) d = Faults"
proof -
  from scan_endpoints_keeps [OF e [unfolded probed_def]] assms(1)
  have "intrOutUrb e = Null" "usbDev e" "\<not> kmutex e" "\<not> intrOutBusy e"
    by (auto simp: init_x10_cm19a_device_def zeroed_def Let_def split: option.splits)
  moreover have "wait_for_output nb ws e' = Returns (None, e', ws)" if "\<not> intrOutBusy e'" for nb e'
    using that by (cases ws) auto
  ultimately show ?thesis
    using assms(3,4) by (simp add: probe_dev_probed e init_remotes_def write_intr_data_def)
qed

section \<open>The property of the buffers\<close>

text \<open>From a successful probe on, whatever processes do with the device file, whatever packets
  arrive and whenever it is unplugged, no pointer is misused and no buffer overrun; the read buffer
  stays below its size, and the structure is given up only when no file is open.\<close>

lemma transceiver_is_never_overrun:
  assumes "probe_dev p pe ws d = Returns (0, d', ws')" and "memory_ok pe" and "wakes_ok 0 ws"
    and "\<forall>a \<in> set acts. kop_ok (in_size d') a"
  shows "kops_run p acts (just_probed d') \<noteq> Faults \<and>
    (\<forall>s. kops_run p acts (just_probed d') = Returns s \<longrightarrow>
       (if present (kdev s)
        then readPktLen (kdev s) \<le> readBufLen (kdev s) \<and> readBufLen (kdev s) < ReadBufSz \<and>
             int (kfiles s) \<le> kernRef (kdev s)
        else kfiles s = 0))"
proof -
  have safe: "safe (kinv (in_size d')) (kops_run p acts (just_probed d'))"
    using assms by (intro kinv_ops probe_sound)
  have "readPktLen (kdev s) \<le> readBufLen (kdev s) \<and> readBufLen (kdev s) < ReadBufSz \<and>
      int (kfiles s) \<le> kernRef (kdev s)" if "kinv n s" "present (kdev s)" for n s
    using that by (auto simp: kinv_def live_def sound_def split: if_splits)
  with safe show ?thesis by (auto simp: kinv_def)
qed

section \<open>A lost lock\<close>

text \<open>
  What a call leaves when it returns. A structure whose lock nobody gives back keeps its reference
  count and its place in the array, and sends nothing.
\<close>

definition after :: "('a \<Rightarrow> bool) \<Rightarrow> 'a outcome \<Rightarrow> bool" where
  "after P m \<longleftrightarrow> (\<forall>x. m = Returns x \<longrightarrow> P x)"

lemma after_simps [simp]: "after P (Returns x) = P x" "after P Blocks" "after P Faults"
  by (simp_all add: after_def)

lemma after_andThen:
  assumes "after Q m" and "\<And>x. Q x \<Longrightarrow> after P (f x)"
  shows "after P (andThen m f)"
  using assms by (cases m) simp_all

fun is_out :: "usb_request \<Rightarrow> bool" where
  "is_out (SubmitOut bs) = True"
| "is_out _ = False"

definition sent_frames :: "x10_cm19a_device \<Rightarrow> usb_request list" where
  "sent_frames d = filter is_out (requests d)"

definition stuck :: "x10_cm19a_device \<Rightarrow> x10_cm19a_device \<Rightarrow> bool" where
  "stuck d0 d \<longleftrightarrow>
     kmutex d \<and> kernRef d = kernRef d0 \<and> present d = present d0 \<and> sent_frames d = sent_frames d0"

lemma stuck_request [simp]: "\<not> is_out r \<Longrightarrow> stuck d0 (request r d) = stuck d0 d"
  by (simp add: stuck_def request_def sent_frames_def)

lemma stuck_updates [simp]:
  "stuck d0 (d\<lparr>intrInDone := b\<rparr>) = stuck d0 d"
  "stuck d0 (d\<lparr>readPktLen := l\<rparr>) = stuck d0 d"
  "stuck d0 (write_intr_cb d) = stuck d0 d"
  by (simp_all add: stuck_def sent_frames_def write_intr_cb_def)

lemma stuck_deliver [simp]: "stuck d0 (deliver data d) = stuck d0 d"
  by (simp add: deliver_def stuck_def sent_frames_def split: kptr.split)

lemma stuck_store_packet: "stuck d0 d \<Longrightarrow> after (stuck d0) (store_packet now m d)"
  by (simp add: store_packet_def stuck_def sent_frames_def split: kptr.split)

lemma stuck_handle_irq: "stuck d0 d \<Longrightarrow> after (stuck d0) (handle_irq q d)"
proof (cases q)
  case (In_irq now status data)
  assume "stuck d0 d"
  then have "after (stuck d0) (store_packet now m (deliver data d))" for m
    by (simp add: stuck_store_packet)
  with \<open>stuck d0 d\<close> show ?thesis
    by (auto simp: In_irq read_intr_cb_def Let_def intro!: after_andThen)
qed simp

lemma stuck_handle_irqs: "stuck d0 d \<Longrightarrow> after (stuck d0) (handle_irqs qs d)"
  by (induction qs arbitrary: d) (auto intro: after_andThen [OF stuck_handle_irq])

definition no_signal :: "wakeup list \<Rightarrow> bool" where
  "no_signal ws \<longleftrightarrow> (\<forall>(r, qs, now) \<in> set ws. r = 0)"

lemma stuck_lock_dev:
  assumes "stuck d0 d"
  shows "after (\<lambda>(b, now, d, ws'). \<not> b \<and> stuck d0 d \<and> \<not> no_signal ws) (lock_dev ws d)"
proof (cases ws)
  case (Cons w ws')
  obtain r qs now where "w = (r, qs, now)" by (cases w) auto
  with Cons show ?thesis
    by (auto simp: stuck_def no_signal_def intro!: after_andThen [OF stuck_handle_irqs [OF assms]])
qed simp

text \<open>A result of a call on a stuck structure.\<close>

definition still :: "x10_cm19a_device \<Rightarrow> wakeup list \<Rightarrow> ('a \<Rightarrow> bool) \<Rightarrow> 'a \<times> x10_cm19a_device \<times> wakeup list \<Rightarrow> bool" where
  "still d0 ws P = (\<lambda>(r, d, ws'). P r \<and> stuck d0 d \<and> \<not> no_signal ws)"

lemma still_simp [simp]: "still d0 ws P (r, d, ws') \<longleftrightarrow> P r \<and> stuck d0 d \<and> \<not> no_signal ws"
  by (simp add: still_def)

lemma stuck_read: "stuck d0 d \<Longrightarrow> after (still d0 ws (\<lambda>r. r < 0)) (k_read_intr_data p nb m ws d)"
  unfolding k_read_intr_data_def by (rule after_andThen [OF stuck_lock_dev]) auto

lemma stuck_write: "stuck d0 d \<Longrightarrow> after (still d0 ws (\<lambda>r. r < 0)) (write_intr_data alloc submit nb bs ws d)"
  unfolding write_intr_data_def by (rule after_andThen [OF stuck_lock_dev]) auto

lemma stuck_devf_read:
  assumes "stuck d0 d"
  shows "after (still d0 ws (\<lambda>r. r = (0, ''''))) (devf_read p copy nb ws d)"
  unfolding devf_read_def k_recv_def
  by (rule after_andThen [of "\<lambda>(r, x, d, ws'). x = None \<and> stuck d0 d \<and> \<not> no_signal ws"])
     (auto intro!: after_andThen [OF stuck_read [OF assms]])

lemma stuck_devf_write:
  assumes "stuck d0 d"
  shows "after (\<lambda>(r, d, ws'). r = int (length txt) \<and> stuck d0 d) (devf_write p copy mem alloc submit nb txt ws d)"
  using assms unfolding devf_write_def Let_def k_transmit_cmd_def
  by (auto split: option.split intro!: after_andThen [of "\<lambda>(r, d, ws'). stuck d0 d"] after_andThen [OF stuck_write [OF assms]])

lemma stuck_devf_release:
  assumes "stuck d0 d"
  shows "after (still d0 ws (\<lambda>r. r = -ERESTARTSYS)) (devf_release ws d)"
  unfolding devf_release_def by (rule after_andThen [OF stuck_lock_dev [OF assms]]) auto

lemma stuck_devf_open:
  assumes "stuck d0 d"
  shows "after (\<lambda>(r, (dm, d), ws'). r \<noteq> 0 \<and> stuck d0 d) (devf_open found submit ws (dm, d))"
  unfolding devf_open_def Let_def prod.case
  using assms by (auto intro!: after_andThen [OF stuck_lock_dev [OF assms]])

lemma stuck_disconn:
  assumes "stuck d0 d"
  shows "after (\<lambda>(dm, d). stuck d0 d) (x10_cm19a_disconn (dm, d))"
  using assms by (auto simp: x10_cm19a_disconn_def Let_def stuck_def)

lemma stuck_op:
  assumes "stuck d0 (kdev s)"
  shows "after (\<lambda>s'. stuck d0 (kdev s')) (kop_run p a s)"
proof (cases a)
  case (K_open found submit ws)
  then show ?thesis by (auto intro!: after_andThen [OF stuck_devf_open [OF assms]])
next
  case (K_read copy nb ws)
  then show ?thesis using assms by (auto intro!: after_andThen [OF stuck_devf_read [OF assms]])
next
  case (K_write copy mem alloc submit nb str ws)
  then show ?thesis using assms by (auto intro!: after_andThen [OF stuck_devf_write [OF assms]])
next
  case (K_poll now)
  then show ?thesis using assms by (simp add: devf_poll_def check_read_buffer_def Let_def)
next
  case (K_close ws)
  then show ?thesis using assms by (auto intro!: after_andThen [OF stuck_devf_release [OF assms]])
next
  case (K_irq q)
  then show ?thesis using assms by (auto intro!: after_andThen [OF stuck_handle_irq [OF assms]])
next
  case K_unplug
  then show ?thesis by (auto intro!: after_andThen [OF stuck_disconn [OF assms]])
qed

lemma stuck_ops: "stuck d0 (kdev s) \<Longrightarrow> after (\<lambda>s'. stuck d0 (kdev s')) (kops_run p acts s)"
  by (induction acts arbitrary: s) (auto intro: after_andThen [OF stuck_op])

section \<open>A transceiver for the witnesses\<close>

definition sample_params :: module_params where
  "sample_params = \<lparr>MaxTscvrCnt = 4, ReadTimeout = 0, ReadRepeat = 1, HZ = 1000\<rparr>"

definition sample_probe :: probe_env where
  "sample_probe =
     \<lparr>pe_interface = 0,
      pe_endpoints = [\<lparr>bEndpointAddress = 0x81, bmAttributes = 3, wMaxPacketSize = 8, bInterval = 10\<rparr>,
                      \<lparr>bEndpointAddress = 0x02, bmAttributes = 3, wMaxPacketSize = 8, bInterval = 10\<rparr>],
      pe_readBuf = Some (replicate ReadBufSz 0), pe_inUrb = True, pe_outUrb = True,
      pe_kmalloc = (\<lambda>m. Some (replicate m 0)), pe_alloc = (\<lambda>k. True), pe_submit = (\<lambda>k. 0),
      pe_register = 0, pe_now = 0\<rparr>"

definition sample_wakes :: "wakeup list" where
  "sample_wakes = [(0, [], 0), (0, [Out_irq], 0), (0, [Out_irq], 0)]"

definition sample_dev :: x10_cm19a_device where
  "sample_dev =
     \<lparr>kmutex = False, usbDev = True, usbIntf = True, readBuf = Live (replicate ReadBufSz 0),
      readBufLen = 0, readPktLen = 0, pktTimeoutJiffies = 50, readLastArrival = 0,
      intrInEpAddr = 0x81, intrInUrb = Live (), intrInInterval = 10, intrInConnected = False,
      intrInDone = False, intrInBuf = Live (replicate 8 0), intrInSz = 8, intrOutEpAddr = 0x02,
      intrOutUrb = Live (), intrOutInterval = 10, intrOutBusy = True, kernRef = 1, present = True,
      devfOpened = False, idx = 0, intfdata = True,
      requests = [SubmitOut [0x20, 0x34, 0xcb, 0x58, 0xa7], SubmitOut [0x80, 0x01, 0x00, 0x20, 0x14],
                  SubmitOut [0x80, 0x01, 0x00, 0x00, 0x14, 0x24, 0x20, 0x20], RegisterDev]\<rparr>"

lemma sample_probe_result:
  "probe_dev sample_params sample_probe sample_wakes (zeroed sample_dev\<lparr>requests := []\<rparr>)
     = Returns (0, sample_dev, [])"
  by (simp add: probe_dev_def sample_params_def sample_probe_def sample_wakes_def sample_dev_def
      init_x10_cm19a_device_def zeroed_def init_remotes_def write_intr_data_def write_intr_cb_def
      request_def unlock_def PktTimeout_def c_div_def Let_def)

lemma sample_memory: "memory_ok sample_probe"
  by (simp add: memory_ok_def sample_probe_def)

lemma sample_wakes_ok: "wakes_ok 0 sample_wakes"
  by (simp add: sample_wakes_def)

definition sample_opened :: kstate where
  "sample_opened =
     \<lparr>kdisconn = False,
      kdev = (request SubmitIn sample_dev)\<lparr>intrInConnected := True, devfOpened := True, kernRef := 2\<rparr>,
      kfiles = 1\<rparr>"

lemma sample_opened_inv: "kinv 8 sample_opened"
  by (simp add: kinv_def live_def sound_def sample_opened_def sample_dev_def request_def ReadBufSz_def)

section \<open>Losing the lock\<close>

text \<open>A transceiver that is unplugged while its file is open is never given up: the lock of its
  structure is lost, closing the file does not return without a signal and drops no reference with
  one, and the entry of the array stays taken whatever happens.\<close>

lemma unplugging_an_open_device_leaks_it:
  assumes "kinv n s" and "0 < kfiles s" and "intfdata (kdev s)" and "\<not> kmutex (kdev s)"
  shows "\<exists>s'. kop_run p K_unplug s = Returns s' \<and>
    (\<forall>ws r. no_signal ws \<longrightarrow> devf_release ws (kdev s') \<noteq> Returns r) \<and>
    (\<forall>acts s''. kops_run p acts s' = Returns s'' \<longrightarrow> present (kdev s'') \<and> 1 \<le> kernRef (kdev s''))"
proof -
  let ?d = "request DeregisterDev (request DeregisterDev ((kdev s)\<lparr>intfdata := False, kmutex := True\<rparr>))"
  let ?s = "s\<lparr>kdisconn := False, kdev := ?d\<lparr>kernRef := kernRef (kdev s) - 1\<rparr>\<rparr>"
  from assms have k: "present (kdev s)" "2 \<le> kernRef (kdev s)" "\<not> kdisconn s"
    by (auto simp: kinv_def split: if_splits)
  with assms have run: "kop_run p K_unplug s = Returns ?s"
    by (simp add: x10_cm19a_disconn_def kref_put_def Let_def request_def)
  have "stuck (kdev ?s) (kdev ?s)" and p: "present (kdev ?s)" "1 \<le> kernRef (kdev ?s)"
    using k by (simp_all add: stuck_def request_def)
  note st = this(1)
  from stuck_devf_release [OF st] have "\<forall>ws r. no_signal ws \<longrightarrow> devf_release ws (kdev ?s) \<noteq> Returns r"
    by (auto simp: after_def still_def)
  moreover from stuck_ops [OF st] p
  have "\<forall>acts s''. kops_run p acts ?s = Returns s'' \<longrightarrow> present (kdev s'') \<and> 1 \<le> kernRef (kdev s'')"
    by (simp add: after_def stuck_def)
  ultimately show ?thesis using run by blast
qed

text \<open>C26: a second open of a device file is refused, but it spoils the first: when the USB core takes
  the transfer once more the lock of the structure is lost, so that nothing is ever sent again;
  when it refuses, the packets that arrive are no longer followed by a new transfer.\<close>

theorem second_open_spoils_the_first:
  assumes "kinv n s" and "0 < kfiles s" and "intfdata (kdev s)" and "\<not> kmutex (kdev s)"
    and "devfOpened (kdev s)"
  shows "\<exists>s'. kop_run p (K_open True submit ((0, [], now) # ws)) s = Returns s' \<and> kfiles s' = kfiles s \<and>
    (if submit = 0
     then \<forall>acts s''. kops_run p acts s' = Returns s'' \<longrightarrow>
            kmutex (kdev s'') \<and> sent_frames (kdev s'') = sent_frames (kdev s)
     else \<forall>t data d'. handle_irq (In_irq t 0 data) (kdev s') = Returns d' \<longrightarrow>
            requests d' = requests (kdev s'))"
proof -
  have k: "intrInUrb (kdev s) = Live ()" "\<not> kdisconn s"
    using sound_urbs(2) [OF kinv_live] assms(1,2) by (blast, simp add: kinv_def)
  let ?d = "request SubmitIn ((kdev s)\<lparr>kmutex := True, intrInConnected := True, intrInDone := False\<rparr>)"
  show ?thesis
  proof (cases "submit = 0")
    case True
    let ?s = "s\<lparr>kdisconn := False, kdev := ?d\<rparr>"
    have "kop_run p (K_open True submit ((0, [], now) # ws)) s = Returns ?s"
      using assms k True by (simp add: devf_open_def Let_def request_def)
    moreover have "stuck (kdev ?s) (kdev ?s)" and "sent_frames (kdev ?s) = sent_frames (kdev s)"
      by (simp_all add: stuck_def request_def sent_frames_def)
    note st = this
    from stuck_ops [OF st(1)] st(2)
    have "\<forall>acts s''. kops_run p acts ?s = Returns s'' \<longrightarrow>
        kmutex (kdev s'') \<and> sent_frames (kdev s'') = sent_frames (kdev s)"
      by (simp add: after_def stuck_def)
    ultimately show ?thesis using True by auto
  next
    case False
    let ?s = "s\<lparr>kdisconn := False, kdev := unlock (?d\<lparr>intrInConnected := False\<rparr>)\<rparr>"
    have "kop_run p (K_open True submit ((0, [], now) # ws)) s = Returns ?s"
      using assms k False by (simp add: devf_open_def Let_def request_def)
    moreover have "requests d' = requests (kdev ?s)"
      if "handle_irq (In_irq t 0 data) (kdev ?s) = Returns d'" for t data d'
      using that
      by (auto simp: read_intr_cb_def store_packet_def deliver_def unlock_def andThen_Returns Let_def
          split: kptr.splits if_splits)
    ultimately show ?thesis using False by auto
  qed
qed

theorem second_open_spoils_the_first_witness:
  "\<exists>s'. kop_run sample_params (K_open True 0 [(0, [], 0)]) sample_opened = Returns s' \<and>
     kfiles s' = 1"
proof -
  have "kfiles sample_opened = 1" "intfdata (kdev sample_opened)" "\<not> kmutex (kdev sample_opened)"
    "devfOpened (kdev sample_opened)"
    by (simp_all add: sample_opened_def sample_dev_def request_def)
  then show ?thesis
    using second_open_spoils_the_first [OF sample_opened_inv, of sample_params 0 0 "[]"]
    by (simp del: kop_run.simps) metis
qed

end
