(* ===== verification/X10_Kernel_Path.thy ===== *)
theory X10_Kernel_Path
  imports X10_Kernel_Laws X10_Driver X10_Libusb_Laws
begin

text \<open>
  The way of a command through the kernel driver, against the way through the USB plugin: the texts
  the driver plugin writes lead to the same frames, and what the kernel driver receives it prints as
  a text that it would take back, or cannot tell from another command.
\<close>

unbundle bit_operations_syntax

section \<open>The same frames\<close>

lemma kernel_frames: "k_cmdBuf = transmit_bytes" "k_decode = recv_decode"
  by (simp_all add: fun_eq_iff k_cmdBuf_def transmit_bytes_def k_decode_def recv_decode_def
      k_IS_CAM_CODE_def IS_CAM_CODE_def kernel_tables cmd_lens)

text \<open>Written commands of no, one or two digits, with the newline of the shell.\<close>

lemma digit_char_value: "n < 10 \<Longrightarrow> c_char (digit_char n) = 48 + int n"
  by (simp add: c_char_def digit_char_def)

lemma c_char_zero [simp]: "c_char CHR 0x00 = 0"
  by (simp add: c_char_def)

lemma k_parse_one_digit:
  assumes "k_parse_cmd_code c \<noteq> X10CMD_INVALID" and "n < 10"
  shows "k_parse [c, h, digit_char n, CHR 0x0A] = Some (k_parse_cmd_code c, h, int n)"
  using assms by (simp add: k_parse_def digit_char_value)

lemma k_parse_two_digits:
  assumes "k_parse_cmd_code c \<noteq> X10CMD_INVALID" and "m < 10" and "n < 10"
  shows "k_parse [c, h, digit_char m, digit_char n, CHR 0x0A]
           = Some (k_parse_cmd_code c, h, int (10 * m + n))"
  using assms by (simp add: k_parse_def digit_char_value)

lemma k_parse_no_digit:
  assumes "k_parse_cmd_code c \<notin> {X10CMD_INVALID, X10CMD_ON, X10CMD_OFF}"
  shows "k_parse [c, h, CHR 0x0A] = Some (k_parse_cmd_code c, h, 255)"
  using assms by (simp add: k_parse_def)

lemma printed_house:
  assumes "is_house h"
  shows "is_house (house_code_to_char (HouseCodeLut ! house_index h))"
    and "house_index (house_code_to_char (HouseCodeLut ! house_index h)) = house_index h"
  using house_round_trip [OF assms] assms by (simp_all add: is_house_def house_index_def)

lemma new_command_again:
  assumes "new_x10_ha_command cmd h u = Some x"
  shows "is_house h" "1 \<le> u" "u \<le> 16" "ha_cmd x = cmd"
    and "ha_house x = HouseCodeLut ! house_index h" "ha_unit x = UnitCodeLut ! nat (u - 1)"
    and "1 \<le> v \<Longrightarrow> v \<le> 16 \<Longrightarrow>
           new_x10_ha_command cmd (house_code_to_char (ha_house x)) v
             = Some (x\<lparr>ha_unit := UnitCodeLut ! nat (v - 1)\<rparr>)"
  using assms printed_house [of h]
  by (auto simp: new_x10_ha_command_eq split: if_splits)

lemma kernel_new_True: "k_new_x10_ha_command True = new_x10_ha_command"
  by (simp add: kernel_new_command new_x10_ha_command_def)

section \<open>Sending\<close>

text \<open>
  A transceiver at rest, and the wake-ups of a transmission: the lock, the end of the output with
  the acknowledgement, and the rest.
\<close>

definition at_rest :: "x10_cm19a_device \<Rightarrow> bool" where
  "at_rest d \<longleftrightarrow> live (in_size d) d \<and> \<not> kmutex d \<and> \<not> intrOutBusy d \<and> readBufLen d + 1 < ReadBufSz"

definition acknowledged :: "x10_cm19a_device \<Rightarrow> wakeup list \<Rightarrow> bool" where
  "acknowledged d ws \<longleftrightarrow>
     (\<exists>t0 t1 t2 ws'. ws = (0, [], t0) # (0, [Out_irq, In_irq t1 0 [0xFF]], t2) # ws' \<and>
        time_after t2 (t1 + of_int (pktTimeoutJiffies d)))"

lemma wait_for_data_ready: "readPktLen d \<noteq> 0 \<Longrightarrow> wait_for_data p nb t ws d = Returns (None, d, ws)"
  by (cases ws) auto

lemma transmit_at_rest:
  assumes "at_rest d" and "acknowledged d ws"
  shows "\<exists>d' ws'. k_transmit_cmd p True 0 nb x ws d = Returns (0, d', ws') \<and>
           sent_frames d' = sent_frames d @ [SubmitOut (k_cmdBuf x)]"
proof -
  from assms(2) obtain t0 t1 t2 ws' where
    ws: "ws = (0, [], t0) # (0, [Out_irq, In_irq t1 0 [0xFF]], t2) # ws'" and
    t: "time_after t2 (t1 + of_int (pktTimeoutJiffies d))"
    by (auto simp: acknowledged_def)
  from assms(1) have l: "sound (in_size d) (kernRef d) (intfdata d) d" by (simp add: at_rest_def live_def)
  then obtain b bs where ib: "intrInBuf d = Live (b # bs)" by (rule sound_intrInBuf)
  from l obtain rb where rb: "readBuf d = Live rb" and u: "usbDev d" by (auto simp: sound_def)
  have d: "\<not> kmutex d" "\<not> intrOutBusy d" "readBufLen d + 1 < ReadBufSz"
    using assms(1) by (simp_all add: at_rest_def)
  note d = d ib rb u sound_urbs(1) [OF l]
  have len: "0 < length (k_cmdBuf x)" by (simp add: k_cmdBuf_def Let_def)
  show ?thesis
    using d t len
    by (simp add: ws k_transmit_cmd_def Let_def write_intr_data_def k_read_intr_data_def request_def unlock_def
        write_intr_cb_def read_intr_cb_def deliver_def store_packet_def overwrite_def check_read_buffer_def
        take_packet_def sent_frames_def wait_for_data_ready Let_def)
qed

section \<open>The two plugins\<close>

text \<open>
  The shell that \<open>system\<close> runs: it gives a line that echoes a quoted text into a file the effect of
  one write of the text and a newline to the file. This is relied on for texts of letters, digits
  and signs that end in a digit, which are no option of \<open>echo\<close>.
\<close>

definition plain :: "string \<Rightarrow> bool" where
  "plain t \<longleftrightarrow> t \<noteq> [] \<and> is_digit (last t) \<and> (\<forall>c \<in> set t. is_digit c \<or> c \<in> set ''+-abcdefghijklmnopqrstuvwxyz'')"

definition echo_ok :: "(string \<Rightarrow> (string \<times> string) option) \<Rightarrow> bool" where
  "echo_ok sh \<longleftrightarrow>
     (\<forall>t f. plain t \<longrightarrow>
        sh (''echo '' @ [CHR 0x22] @ t @ [CHR 0x22] @ '' > '' @ f) = Some (f, t @ [CHR 0x0A]))"

lemma valid_code_facts:
  assumes "cmd \<in> set valid_cmd_codes"
  shows "k_parse_cmd_code (cmd_code_to_char cmd) = cmd" "cmd \<noteq> X10CMD_INVALID"
    and "cmd_code_to_char cmd \<in> set ''+-sburdl''"
  using assms by (auto simp: valid_cmd_codes_def kernel_tables parse_cmd_code_def cmd_code_to_char_def)

lemma house_char_letter: "i < 16 \<Longrightarrow> house_code_to_char (HouseCodeLut ! i) \<in> set ''abcdefghijklmnop''"
  by (metis house_lut_chars house_lut_length length_map nth_map nth_mem)

lemma dec_int_digit: "1 \<le> u \<Longrightarrow> u < 10 \<Longrightarrow> dec_int u = [digit_char (nat u)]"
  by (auto simp: dec_int_def dec_nat.simps)

lemma driver_text_written:
  assumes x: "new_x10_ha_command cmd h u = Some x" and cmd: "cmd \<in> set valid_cmd_codes"
    and d: "at_rest d" "acknowledged d ws"
  shows "\<exists>d' ws'. devf_write p True True True 0 nb
      [cmd_code_to_char cmd, house_code_to_char (ha_house x), digit_char (nat ((u - 1) mod 8 + 1)), CHR 0x0A] ws d
      = Returns (4, d', ws') \<and>
    sent_frames d' = sent_frames d @ [SubmitOut (transmit_bytes (x\<lparr>ha_unit := UnitCodeLut ! nat ((u - 1) mod 8)\<rparr>))]"
proof -
  have v: "1 \<le> (u - 1) mod 8 + 1" "(u - 1) mod 8 + 1 \<le> 16" "nat ((u - 1) mod 8 + 1) < 10" by auto
  note n = new_command_again(7) [OF x v(1,2)]
  show ?thesis
    using transmit_at_rest [OF d, of p nb "x\<lparr>ha_unit := UnitCodeLut ! nat ((u - 1) mod 8)\<rparr>"]
    by (auto simp: devf_write_def Let_def MAX_CMD_LEN_def cmd_lens k_parse_one_digit valid_code_facts [OF cmd]
        v(3) kernel_new_True n kernel_frames)
qed

text \<open>C27: a command for a unit from 1 to 8 takes the same form on the device whichever plugin is
  used: the text that the driver plugin gives to the shell makes the kernel driver send the bytes that
  the USB plugin sends; for the units 9 to 16 it sends those of the unit eight lower.\<close>

theorem both_plugins_send_the_same:
  assumes "echo_ok sh" and "new_x10_ha_command cmd h u = Some x" and "cmd \<in> set valid_cmd_codes"
    and "Driver_send dr x = Some line" and "at_rest d" and "acknowledged d ws"
  shows "\<exists>txt d' ws'. sh line = Some (drv_handles dr ! 0, txt) \<and>
     devf_write p True True True 0 nb txt ws d = Returns (int (length txt), d', ws') \<and>
     sent_frames d' = sent_frames d @
       [SubmitOut (transmit_bytes (x\<lparr>ha_unit := UnitCodeLut ! nat ((u - 1) mod 8)\<rparr>))]"
proof -
  let ?t = "[cmd_code_to_char cmd, house_code_to_char (ha_house x), digit_char (nat ((u - 1) mod 8 + 1))]"
  note x = new_command_again [OF assms(2)]
  have "unit_code_to_int (ha_unit x) = (u - 1) mod 8 + 1"
    using unit_code_to_int_nth [OF x(2,3)] unit_cases [OF x(2,3)] by (auto simp: x(6))
  moreover have "1 \<le> (u - 1) mod 8 + 1" "(u - 1) mod 8 + 1 < 10" by auto
  ultimately have "dec_int (unit_code_to_int (ha_unit x)) = [digit_char (nat ((u - 1) mod 8 + 1))]"
    by (simp only: dec_int_digit)
  with assms(4) have line: "line = ''echo '' @ [CHR 0x22] @ ?t @ [CHR 0x22] @ '' > '' @ drv_handles dr ! 0"
    by (auto simp: Driver_send_def x(4) split: if_splits)
  have "is_digit (digit_char (nat ((u - 1) mod 8 + 1)))"
    using digit_char_props by (simp add: is_digit_def)
  moreover have "house_code_to_char (ha_house x) \<in> set ''abcdefghijklmnop''"
    unfolding x(5) by (rule house_char_letter [OF house_index_less [OF x(1)]])
  ultimately have "plain ?t"
    using valid_code_facts(3) [OF assms(3)] by (auto simp: plain_def)
  with assms(1) have "sh line = Some (drv_handles dr ! 0, ?t @ [CHR 0x0A])"
    unfolding echo_ok_def line by blast
  with driver_text_written [OF assms(2,3,5,6), of p nb] show ?thesis by auto
qed

text \<open>A shell and a transceiver for the witnesses.\<close>

definition sample_sh :: "string \<Rightarrow> (string \<times> string) option" where
  "sample_sh line =
     (let r = drop 6 line; t = takeWhile (\<lambda>c. c \<noteq> CHR 0x22) r
      in Some (drop (length t + 4) r, t @ [CHR 0x0A]))"

lemma sample_sh_ok: "echo_ok sample_sh"
proof -
  have "CHR 0x22 \<notin> set t" if "plain t" for t
    using that by (auto simp: plain_def is_digit_def dest!: bspec [where x = "CHR 0x22"])
  then have "takeWhile (\<lambda>c. c \<noteq> CHR 0x22) (t @ CHR 0x22 # f) = t" if "plain t" for t f
    using that by (subst takeWhile_append2) auto
  then show ?thesis by (simp add: echo_ok_def sample_sh_def Let_def)
qed

definition sample_rest :: x10_cm19a_device where
  "sample_rest = sample_dev\<lparr>intrOutBusy := False\<rparr>"

definition sample_ack :: "wakeup list" where
  "sample_ack = [(0, [], 0), (0, [Out_irq, In_irq 1 0 [0xFF]], 100)]"

lemma sample_at_rest: "at_rest sample_rest"
  by (simp add: at_rest_def live_def sound_def in_size_def sample_rest_def sample_dev_def ReadBufSz_def)

lemma sample_acknowledged: "acknowledged sample_rest sample_ack"
  by (simp add: acknowledged_def sample_ack_def time_after_def sample_rest_def sample_dev_def)

lemma e5_command: "new_x10_ha_command X10CMD_ON CHR ''E'' 5 = Some e5_on"
  by (simp add: new_x10_ha_command_eq is_house_def house_index_def of_char_upper e5_on_def HouseCodeLut_def UnitCodeLut_def)

theorem both_plugins_send_the_same_witness:
  "\<exists>line txt d' ws'.
     Driver_send \<lparr>drv_handles = [''/dev/cm19a0''], drv_status = True\<rparr> e5_on = Some line \<and>
     sample_sh line = Some (''/dev/cm19a0'', txt) \<and>
     devf_write sample_params True True True 0 False txt sample_ack sample_rest
       = Returns (int (length txt), d', ws') \<and>
     sent_frames d' = sent_frames sample_rest @ [SubmitOut (transmit_bytes e5_on)]"
proof -
  let ?dr = "\<lparr>drv_handles = [''/dev/cm19a0''], drv_status = True\<rparr>"
  obtain line where "Driver_send ?dr e5_on = Some line" by (simp add: Driver_send_def)
  with both_plugins_send_the_same [OF sample_sh_ok e5_command _ this sample_at_rest sample_acknowledged,
      of sample_params False]
  show ?thesis by (simp add: valid_cmd_codes_def UnitCodeLut_def e5_on_def)
qed

section \<open>Received commands\<close>

lemma table_of_new:
  assumes "new_x10_ha_command cmd h u = Some x"
  shows "table_cmd x"
  using new_command_again [OF assms] house_index_less [of h] by (auto simp: table_cmd_def)

lemma k_print_on_off:
  assumes "new_x10_ha_command cmd h u = Some x" and "cmd = X10CMD_ON \<or> cmd = X10CMD_OFF"
  shows "k_print x = [cmd_code_to_char cmd, house_code_to_char (ha_house x),
                      digit_char (nat (u div 10)), digit_char (nat (u mod 10)), CHR 0x0A]"
  using assms(2) new_command_again [OF assms(1)]
  by (auto simp: k_print_def kernel_tables kernel_unit_number unit_digits_eq)

text \<open>An on or off command that one transceiver sends and another receives is decoded to the
  command, for all houses and units, and the text that is read for it, when written to a device file,
  sends the same bytes again.\<close>

lemma received_text_can_be_written:
  assumes "new_x10_ha_command cmd h u = Some x" and "cmd = X10CMD_ON \<or> cmd = X10CMD_OFF"
    and "at_rest d" and "acknowledged d ws"
  shows "k_decode NORM_CMD_LEN (k_cmdBuf x) = x \<and>
    (\<exists>d' ws'. devf_write p True True True 0 nb (k_print x) ws d = Returns (5, d', ws') \<and>
              sent_frames d' = sent_frames d @ [SubmitOut (k_cmdBuf x)])"
proof
  note x = new_command_again [OF assms(1)]
  show "k_decode NORM_CMD_LEN (k_cmdBuf x) = x"
    using decode_transmitted [OF table_of_new [OF assms(1)]] assms(2) x(4)
    by (auto simp: kernel_frames cmd_lens)
  have u: "int (10 * nat (u div 10) + nat (u mod 10)) = u" "nat (u div 10) < 10" "nat (u mod 10) < 10"
    using x(2,3) by auto
  have "cmd \<in> set valid_cmd_codes" using assms(2) by (auto simp: valid_cmd_codes_def)
  note cmd = valid_code_facts [OF this]
  have "k_parse (k_print x) = Some (cmd, house_code_to_char (ha_house x), u)"
    using k_parse_two_digits [where c = "cmd_code_to_char cmd" and m = "nat (u div 10)" and n = "nat (u mod 10)"] u cmd(1,2)
    by (simp only: k_print_on_off [OF assms(1,2)] simp_thms)
  moreover have "x\<lparr>ha_unit := UnitCodeLut ! nat (u - 1)\<rparr> = x" using x(6) by (cases x) simp
  with x(7) [OF x(2,3)] have "new_x10_ha_command cmd (house_code_to_char (ha_house x)) u = Some x" by simp
  moreover have "length (k_print x) = 5" by (simp add: k_print_on_off [OF assms(1,2)])
  ultimately show "\<exists>d' ws'. devf_write p True True True 0 nb (k_print x) ws d = Returns (5, d', ws') \<and>
      sent_frames d' = sent_frames d @ [SubmitOut (k_cmdBuf x)]"
    using transmit_at_rest [OF assms(3,4), of p nb x]
    by (auto simp: devf_write_def Let_def MAX_CMD_LEN_def cmd_lens kernel_new_True)
qed

text \<open>The documented commands without a unit, which is also what reading a device file gives for a
  move of a camera, are dropped without an error: nothing is sent, and the writer is told that all
  was written.\<close>

lemma commands_without_unit_are_dropped:
  assumes "new_x10_ha_command cmd h u = Some x" and "cmd \<in> set valid_cmd_codes"
    and "cmd \<noteq> X10CMD_ON" and "cmd \<noteq> X10CMD_OFF"
  shows "k_print x = [cmd_code_to_char cmd, house_code_to_char (ha_house x), CHR 0x0A] \<and>
    devf_write p copy mem alloc submit nb (k_print x) ws d = Returns (int (length (k_print x)), d, ws)"
proof -
  have pr: "k_print x = [cmd_code_to_char cmd, house_code_to_char (ha_house x), CHR 0x0A]"
    using new_command_again(4) [OF assms(1)] assms(3,4) by (simp add: k_print_def kernel_tables)
  have "k_parse (k_print x) = Some (cmd, house_code_to_char (ha_house x), 255)"
    using k_parse_no_digit [of "cmd_code_to_char cmd"] valid_code_facts [OF assms(2)] assms(3,4)
    by (simp add: pr)
  then show ?thesis
    by (simp add: pr devf_write_def Let_def k_new_x10_ha_command_def OUT_OF_BOUNDS_def UNIT_MAX_def MAX_CMD_LEN_def cmd_lens)
qed

lemma dim_unit:
  assumes "1 \<le> u" and "u \<le> 16" and "cmd = X10CMD_DIM \<or> cmd = X10CMD_BRIGHT"
  shows "ucast (ucast ((UnitCodeLut ! nat (u - 1) AND 0xFF) OR cmd) :: kbyte) AND X10CMD_OFF = (0 :: 32 word)"
    and "k_unit_code_to_int (push_bit 8 (drop_bit 8 (UnitCodeLut ! nat (u - 1)))
           OR (ucast (ucast ((UnitCodeLut ! nat (u - 1) AND 0xFF) OR cmd) :: kbyte) AND NOT X10CMD_OFF))
         = 4 * ((u - 1) div 4) + (if cmd = X10CMD_DIM \<or> even u then 4 else 3)"
  using unit_cases [OF assms(1,2)] assms(3) by (auto simp: UnitCodeLut_def k_unit_code_to_int_def)

text \<open>A dim or bright command that a transceiver receives is read as a switch-on, of a unit that
  is not the one it was sent for in most cases: unit 1 becomes unit 4 or 3.\<close>

lemma received_dim_is_read_as_on:
  assumes "new_x10_ha_command cmd h u = Some x" and "cmd = X10CMD_DIM \<or> cmd = X10CMD_BRIGHT"
  shows "k_print (k_decode NORM_CMD_LEN (k_cmdBuf x))
    = [CHR ''+'', house_code_to_char (ha_house x)]
      @ unit_digits (4 * ((u - 1) div 4) + (if cmd = X10CMD_DIM \<or> even u then 4 else 3)) @ [CHR 0x0A]"
proof -
  note x = new_command_again [OF assms(1)]
  have h: "ha_house x \<in> set HouseCodeLut" and uc: "ha_unit x \<in> set UnitCodeLut"
    using table_of_new [OF assms(1)] by (simp_all add: table_cmd_def)
  note b1 = house_byte [OF h unit_split(1) [OF uc]]
  have "k_cmdBuf x =
     (let b1 = ucast (drop_bit 8 (ha_unit x) OR ha_house x); b3 = ucast ((ha_unit x AND 0xFF) OR ha_cmd x)
      in [NORM_X10CMD_PFX, b1, NOT b1, b3, NOT b3])"
    unfolding kernel_frames by (rule transmit_normal) (use assms(2) x(4) in auto)
  then show ?thesis
    using b1(1,2) dim_unit [OF x(2,3) assms(2)]
    by (simp add: kernel_frames(2) recv_decode_def Let_def x(4,6) k_print_def kernel_tables cmd_code_to_char_def cmd_lens)
qed

section \<open>A key press\<close>

text \<open>A transceiver whose packets are complete: \<open>l\<close> bytes of them are left.\<close>

definition holding :: "nat \<Rightarrow> kbyte list \<Rightarrow> x10_cm19a_device \<Rightarrow> bool" where
  "holding l ib d \<longleftrightarrow>
     \<not> kmutex d \<and> usbDev d \<and> (\<exists>rb. readBuf d = Live rb) \<and> readPktLen d = l \<and> readBufLen d = l \<and>
     intrInBuf d = Live ib"

lemma holding_read:
  assumes "holding l ib d" and "0 < m" and "m \<le> l"
  shows "\<exists>d'. k_read_intr_data p nb m ((0, [], t) # ws) d = Returns (int m, d', ws) \<and> holding (l - m) ib d'"
  using assms
  by (auto simp: holding_def k_read_intr_data_def check_read_buffer_def wait_for_data_ready take_packet_def
      unlock_def Let_def min_absorb1)

lemma holding_loop:
  "holding (n * 5) ib d \<Longrightarrow> n \<le> 5 \<Longrightarrow> r < 2 \<Longrightarrow> ReadRepeat p = 1 \<Longrightarrow> length ts = n \<Longrightarrow>
     \<exists>d'. k_recv_loop p nb 5 (5 - int n) r (map (\<lambda>t. (0, [], t)) ts @ ws) d = Returns (None, d', ws)
        \<and> holding 0 ib d'"
proof (induction n arbitrary: d r ts)
  case 0
  then show ?case by (simp add: k_recv_loop.simps [of p nb 5 5])
next
  case (Suc n)
  then obtain t ts' where ts: "ts = t # ts'" "length ts' = n" by (cases ts) auto
  let ?ws = "map (\<lambda>t. (0, [], t)) ts' @ ws"
  from holding_read [OF Suc.prems(1), of 5 p nb t ?ws] obtain d1 where
    d1: "k_read_intr_data p nb 5 ((0, [], t) # ?ws) d = Returns (5, d1, ?ws)" "holding (n * 5) ib d1"
    by auto
  from Suc.IH [OF d1(2) _ _ Suc.prems(4) ts(2), of 1] Suc.prems(2) obtain d' where
    "k_recv_loop p nb 5 (5 - int n) 1 ?ws d1 = Returns (None, d', ws)" "holding 0 ib d'" by auto
  moreover have "k_recv_loop p nb 5 (5 - int (Suc n)) r (map (\<lambda>t. (0, [], t)) ts @ ws) d
      = k_recv_loop p nb 5 (5 - int n) 1 ?ws d1"
    using d1(1) Suc.prems(2-4)
    by (subst k_recv_loop.simps) (simp add: ts(1))
  ultimately show ?case by simp
qed

text \<open>Packets that arrive.\<close>

definition arrived :: "nat \<Rightarrow> jiffies \<Rightarrow> x10_cm19a_device \<Rightarrow> x10_cm19a_device \<Rightarrow> bool" where
  "arrived l t e d \<longleftrightarrow>
     kmutex d = kmutex e \<and> usbDev d = usbDev e \<and> (\<exists>rb. readBuf d = Live rb) \<and>
     readBufLen d = readBufLen e + l \<and> readPktLen d = readPktLen e \<and>
     pktTimeoutJiffies d = pktTimeoutJiffies e \<and> (0 < l \<longrightarrow> readLastArrival d = t)"

lemma one_arrives:
  assumes "readBuf e = Live rb" and "intrInBuf e = Live ib" and "readBufLen e + 5 < ReadBufSz" and "length f = 5"
  shows "\<exists>d. handle_irq (In_irq t 0 f) e = Returns d \<and> arrived 5 t e d \<and> intrInBuf d = Live (f @ drop 5 ib)"
  using assms
  by (auto simp: read_intr_cb_def deliver_def store_packet_def overwrite_def request_def Let_def arrived_def)

lemma packets_arrive:
  "readBuf e = Live rb \<Longrightarrow> intrInBuf e = Live ib \<Longrightarrow> readBufLen e + 5 * m < ReadBufSz \<Longrightarrow> length f = 5 \<Longrightarrow>
     \<exists>d. handle_irqs (replicate m (In_irq t 0 f)) e = Returns d \<and> arrived (5 * m) t e d \<and>
         intrInBuf d = Live (if m = 0 then ib else f @ drop 5 ib)"
proof (induction m arbitrary: e rb ib)
  case 0
  then show ?case by (simp add: arrived_def)
next
  case (Suc m)
  from one_arrives [OF Suc.prems(1,2) _ Suc.prems(4)] Suc.prems(3) obtain d where
    d: "handle_irq (In_irq t 0 f) e = Returns d" "arrived 5 t e d" "intrInBuf d = Live (f @ drop 5 ib)"
    by fastforce
  then obtain rb' where "readBuf d = Live rb'" "readBufLen d + 5 * m < ReadBufSz"
    using Suc.prems(3) by (auto simp: arrived_def)
  from Suc.IH [OF this(1) d(3) this(2) Suc.prems(4)] d(1,2) Suc.prems(4) show ?case
    by (auto simp: arrived_def)
qed

text \<open>What the first read of a command waits for: the six repetitions, which arrive together.\<close>

lemma first_read:
  assumes d: "live (in_size d) d" "\<not> kmutex d" "readBufLen d = 0" "readPktLen d = 0" "ReadTimeout p = 0"
    and f: "length f = 5" and t: "time_after t2 (t1 + of_int (pktTimeoutJiffies d))"
  shows "\<exists>d' rest. k_read_intr_data p False 1 ((0, [], t0) # (0, replicate 6 (In_irq t1 0 f), t2) # ws) d
           = Returns (1, d', ws) \<and> holding 29 (f @ rest) d'"
proof -
  from d(1) have l: "sound (in_size d) (kernRef d) (intfdata d) d" by (simp add: live_def)
  then obtain rb ib where rb: "readBuf d = Live rb" and ib: "intrInBuf d = Live ib" and u: "usbDev d"
    by (auto simp: sound_def)
  define e where "e = check_read_buffer t0 (d\<lparr>kmutex := True\<rparr>)"
  have e: "readBuf e = Live rb" "intrInBuf e = Live ib" "readBufLen e = 0" "readPktLen e = 0" "usbDev e"
    "pktTimeoutJiffies e = pktTimeoutJiffies d"
    using d rb ib u by (simp_all add: e_def check_read_buffer_def Let_def)
  from packets_arrive [OF e(1,2) _ f, of 6 t1] e(3) obtain d2 where
    d2: "handle_irqs (replicate 6 (In_irq t1 0 f)) e = Returns d2" "arrived 30 t1 e d2"
      "intrInBuf d2 = Live (f @ drop 5 ib)"
    by (auto simp: ReadBufSz_def)
  define d3 where "d3 = check_read_buffer t2 d2"
  from d2(2) obtain rb3 where d3: "readBuf d3 = Live rb3" "readBufLen d3 = 30" "readPktLen d3 = 30"
    "usbDev d3" "intrInBuf d3 = Live (f @ drop 5 ib)"
    using e t d2(3) by (auto simp: d3_def check_read_buffer_def Let_def arrived_def)
  have "k_read_intr_data p False 1 ((0, [], t0) # (0, replicate 6 (In_irq t1 0 f), t2) # ws) d
      = andThen (take_packet 1 d3) (\<lambda>d. Returns (1, unlock d, ws))"
    using d(2,5) u e(4) d2(1) d3(3)
    by (simp add: k_read_intr_data_def e_def [symmetric] d3_def [symmetric] wait_for_data_ready Let_def
        del: handle_irqs.simps(2) replicate.simps)
  with d3 show ?thesis by (auto simp: take_packet_def holding_def unlock_def)
qed



end
