(* ===== verification/X10_Kernel_Array.thy ===== *)
theory X10_Kernel_Array
  imports X10_Kernel_Laws
begin

text \<open>
  The array of transceivers of \<open>controller/linux/drivers/usb/comm/x10-cm19a.c\<close>: the driver from the loading
  of its module, with transceivers that are plugged in and out, used by processes, and with the module
  unloaded. \<open>X10_Kernel\<close> has the calls on one transceiver; here each goes to an entry of the array,
  and all share \<open>disconnMutex\<close>. The transceivers have packets of one size, as those of one product do.
\<close>

section \<open>The driver\<close>

text \<open>
  The state of the module: \<open>disconnMutex\<close>, the pointer to the array, its entries and the number of
  open files of each. A call of a process or of the USB core is for an entry of the array.
\<close>

record karray =
  ka_disconn :: bool
  ka_Tscvrs :: "unit kptr"
  ka_devs :: "x10_cm19a_device list"
  ka_files :: "nat list"

datatype kevent =
  A_probe probe_env "wakeup list"
| A_call nat kop
| A_exit

definition entry :: "nat \<Rightarrow> karray \<Rightarrow> kstate" where
  "entry i s = \<lparr>kdisconn = ka_disconn s, kdev = ka_devs s ! i, kfiles = ka_files s ! i\<rparr>"

definition put_entry :: "nat \<Rightarrow> karray \<Rightarrow> kstate \<Rightarrow> karray" where
  "put_entry i s e =
     s\<lparr>ka_disconn := kdisconn e, ka_devs := (ka_devs s)[i := kdev e], ka_files := (ka_files s)[i := kfiles e]\<rparr>"

text \<open>
  After the module is loaded: no interface has a structure yet.
\<close>

definition array_start :: "x10_cm19a_device list \<Rightarrow> karray" where
  "array_start ds =
     \<lparr>ka_disconn = False, ka_Tscvrs = Live (),
      ka_devs = map (\<lambda>d. d\<lparr>intfdata := False, requests := []\<rparr>) ds,
      ka_files = replicate (length ds) 0\<rparr>"

text \<open>
  Where \<open>x10_cm19a_disconn\<close> sleeps for ever: on \<open>disconnMutex\<close>, with nothing done, or on the lock of
  the structure, with \<open>disconnMutex\<close> held and the pointer of the interface cleared.
\<close>

definition asleep_disconn :: "kstate \<Rightarrow> kstate" where
  "asleep_disconn e =
     (if kdisconn e then e else e\<lparr>kdisconn := True, kdev := (kdev e)\<lparr>intfdata := False\<rparr>\<rparr>)"

text \<open>Unloading: \<open>usb_deregister\<close> disconnects the interfaces that the driver has, one after the other.\<close>

fun unplug_each :: "module_params \<Rightarrow> nat list \<Rightarrow> karray \<Rightarrow> karray outcome" where
  "unplug_each p [] s = Returns s"
| "unplug_each p (i # js) s =
     andThen (kop_run p K_unplug (entry i s)) (\<lambda>e. unplug_each p js (put_entry i s e))"

definition x10_cm19a_exit :: "module_params \<Rightarrow> karray \<Rightarrow> karray outcome" where
  "x10_cm19a_exit p s =
     andThen (unplug_each p [0..<length (ka_devs s)] s) (\<lambda>s.
       if ka_Tscvrs s \<noteq> Null then andThen (kfree (ka_Tscvrs s)) (\<lambda>t. Returns (s\<lparr>ka_Tscvrs := t\<rparr>))
       else Returns s)"

text \<open>
  An event. The operations of the device file have no owner, so that the kernel unloads the module
  although files are open; a call through such a file then reaches an array that is gone. Only the
  USB core goes on while one of its calls sleeps.
\<close>

fun kevent_run :: "module_params \<Rightarrow> kevent \<Rightarrow> karray \<Rightarrow> karray outcome" where
  "kevent_run p (A_probe pe ws) s =
     (if ka_Tscvrs s \<noteq> Live () then Returns s
      else andThen (x10_cm19a_probe p pe ws (ka_devs s)) (\<lambda>(r, ds, ws). Returns (s\<lparr>ka_devs := ds\<rparr>)))"
| "kevent_run p (A_call i a) s =
     (if length (ka_devs s) \<le> i then Returns s
      else if ka_Tscvrs s \<noteq> Live () then (if ka_files s ! i = 0 then Returns s else Faults)
      else case kop_run p a (entry i s) of
             Returns e \<Rightarrow> Returns (put_entry i s e)
           | Blocks \<Rightarrow> if a = K_unplug then Returns (put_entry i s (asleep_disconn (entry i s))) else Blocks
           | Faults \<Rightarrow> Faults)"
| "kevent_run p A_exit s = (if ka_Tscvrs s \<noteq> Live () then Returns s else x10_cm19a_exit p s)"

fun kevents_run :: "module_params \<Rightarrow> kevent list \<Rightarrow> karray \<Rightarrow> karray outcome" where
  "kevents_run p [] s = Returns s"
| "kevents_run p (a # acts) s = andThen (kevent_run p a s) (kevents_run p acts)"

section \<open>Its invariant\<close>

text \<open>Each entry is sound by itself, whoever has \<open>disconnMutex\<close>.\<close>

definition calm :: "nat \<Rightarrow> kstate \<Rightarrow> bool" where
  "calm n e \<longleftrightarrow> kinv n (e\<lparr>kdisconn := False\<rparr>)"

definition ainv :: "nat \<Rightarrow> karray \<Rightarrow> bool" where
  "ainv n s \<longleftrightarrow>
     length (ka_files s) = length (ka_devs s) \<and> (\<forall>i < length (ka_devs s). calm n (entry i s))"

fun kevent_ok :: "nat \<Rightarrow> kevent \<Rightarrow> bool" where
  "kevent_ok n (A_probe pe ws) \<longleftrightarrow>
     memory_ok pe \<and> (\<forall>e \<in> set (pe_endpoints pe). wMaxPacketSize e = n) \<and> wakes_ok 0 ws"
| "kevent_ok n (A_call i a) \<longleftrightarrow> kop_ok n a"
| "kevent_ok n A_exit \<longleftrightarrow> True"

lemma entry_put [simp]:
  "i < length (ka_devs s) \<Longrightarrow> length (ka_files s) = length (ka_devs s) \<Longrightarrow> j < length (ka_devs s) \<Longrightarrow>
     entry j (put_entry i s e) = (if i = j then e else (entry j s)\<lparr>kdisconn := kdisconn e\<rparr>)"
  by (simp add: entry_def put_entry_def nth_list_update)

lemma put_simps [simp]:
  "length (ka_devs (put_entry i s e)) = length (ka_devs s)"
  "length (ka_files (put_entry i s e)) = length (ka_files s)"
  "ka_Tscvrs (put_entry i s e) = ka_Tscvrs s" "ka_disconn (put_entry i s e) = kdisconn e"
  by (simp_all add: put_entry_def)

lemma entry_simps [simp]:
  "kdisconn (entry i s) = ka_disconn s" "kdev (entry i s) = ka_devs s ! i" "kfiles (entry i s) = ka_files s ! i"
  "entry i (s\<lparr>ka_Tscvrs := t\<rparr>) = entry i s"
  by (simp_all add: entry_def)

lemma calm_disconn [simp]: "calm n (e\<lparr>kdisconn := b\<rparr>) = calm n e"
  by (simp add: calm_def)

lemma ainv_put: "ainv n s \<Longrightarrow> i < length (ka_devs s) \<Longrightarrow> calm n e \<Longrightarrow> ainv n (put_entry i s e)"
  by (simp add: ainv_def)

text \<open>Only opening and unplugging look at \<open>disconnMutex\<close>.\<close>

fun needs_disconn :: "kop \<Rightarrow> bool" where
  "needs_disconn (K_open found submit ws) = True"
| "needs_disconn K_unplug = True"
| "needs_disconn _ = False"

lemma andThen_assoc: "andThen (andThen m f) g = andThen m (\<lambda>x. andThen (f x) g)"
  by (cases m) simp_all

lemma andThen_cong: "(\<And>x. f x = g x) \<Longrightarrow> andThen m f = andThen m g"
  by (cases m) simp_all

lemma kop_run_disconn:
  "\<not> needs_disconn a \<Longrightarrow>
     kop_run p a (e\<lparr>kdisconn := b\<rparr>) = andThen (kop_run p a e) (\<lambda>e. Returns (e\<lparr>kdisconn := b\<rparr>))"
  by (cases a) (auto simp: andThen_assoc case_prod_beta intro!: andThen_cong kstate.equality)

lemma calm_op:
  assumes "calm n e" and "kop_ok n a"
  shows "safe (calm n) (kop_run p a e)"
proof (cases "kdisconn e")
  case False
  then have "e\<lparr>kdisconn := False\<rparr> = e" by simp
  with assms have "safe (kinv n) (kop_run p a e)" by (simp add: calm_def kinv_op)
  then show ?thesis by (rule safe_mono) (simp add: calm_def kinv_def)
next
  case True
  have busy: "kop_run p a (e\<lparr>kdisconn := False\<rparr>) = andThen (kop_run p a e) (\<lambda>e. Returns (e\<lparr>kdisconn := False\<rparr>))"
    if "\<not> needs_disconn a"
    using that by (rule kop_run_disconn)
  have "safe (kinv n) (kop_run p a (e\<lparr>kdisconn := False\<rparr>))"
    using assms by (auto simp: calm_def intro: kinv_op)
  with busy have "safe (calm n) (kop_run p a e)" if "\<not> needs_disconn a"
    using that by (cases "kop_run p a e") (simp_all add: calm_def)
  moreover have "safe (calm n) (kop_run p a e)" if h: "needs_disconn a"
  proof (cases a)
    case (K_open found submit ws)
    have "devf_open found submit ws (True, kdev e) = Blocks" by (simp add: devf_open_def)
    then show ?thesis using True by (simp add: K_open)
  next
    case K_unplug
    have "x10_cm19a_disconn (True, kdev e) =
        (if intfdata (kdev e) then Blocks else Returns (True, kdev e))"
      by (simp add: x10_cm19a_disconn_def)
    then show ?thesis using True assms(1) by (simp add: K_unplug calm_def)
  qed (use h in simp_all)
  ultimately show ?thesis by blast
qed

lemma calm_asleep: "calm n e \<Longrightarrow> calm n (asleep_disconn e)"
proof -
  assume "calm n e"
  moreover have "live n d \<Longrightarrow> live n (d\<lparr>intfdata := False\<rparr>)" for d by (simp add: live_def sound_def)
  ultimately show ?thesis
    by (cases "present (kdev e)"; cases "intfdata (kdev e)") (simp_all add: calm_def asleep_disconn_def kinv_def)
qed

text \<open>A probe fills a free entry, or gives back what it took.\<close>

definition unfinished :: "x10_cm19a_device \<Rightarrow> bool" where
  "unfinished d \<longleftrightarrow>
     (\<exists>rb. readBuf d = Live rb) \<and> intrInBuf d \<noteq> Freed \<and> intrInUrb d = Live () \<and> intrOutUrb d = Live ()
     \<and> kernRef d = 1 \<and> \<not> intfdata d"

definition free_entry :: "x10_cm19a_device \<Rightarrow> bool" where
  "free_entry d \<longleftrightarrow> \<not> present d \<and> \<not> intfdata d"

lemma kfree_owned: "p \<noteq> Freed \<Longrightarrow> \<exists>q. kfree p = Returns q"
  by (cases p) simp_all

lemma probe_failed_unfinished:
  assumes "unfinished d"
  shows "safe (\<lambda>(r, d, ws). r < 0 \<and> free_entry d) (probe_failed (d, ws))"
proof -
  obtain q where "kfree (intrInBuf d) = Returns q"
    using assms kfree_owned by (auto simp: unfinished_def)
  then show ?thesis
    using assms
    by (auto simp: probe_failed_def kref_put_def uninit_x10_cm19a_device_def abort_xfers_def unfinished_def
        free_entry_def request_def Let_def)
qed

lemma sound_unfinished: "sound n 1 False d \<Longrightarrow> unfinished d"
  by (auto simp: sound_def unfinished_def)

lemma scan_endpoints_buf:
  "scan_endpoints kmalloc es d = (b, d') \<Longrightarrow> intrInBuf d \<noteq> Freed \<Longrightarrow> intrInBuf d' \<noteq> Freed"
  by (induction es arbitrary: d) (auto simp: Let_def split: if_splits option.splits)

lemma scan_endpoints_size:
  "scan_endpoints kmalloc es d = (b, d') \<Longrightarrow> \<forall>e \<in> set es. wMaxPacketSize e = n \<Longrightarrow>
     (intrInEpAddr d \<noteq> 0 \<longrightarrow> intrInSz d = n) \<Longrightarrow> intrInEpAddr d' \<noteq> 0 \<longrightarrow> intrInSz d' = n"
  by (induction es arbitrary: d) (auto simp: Let_def split: if_splits option.splits)

lemma probed_unfinished:
  assumes "memory_ok pe" and "probed p pe d = (b, e)" and "\<not> intfdata d"
  shows "unfinished e"
proof -
  obtain rb where "pe_readBuf pe = Some rb" "pe_inUrb pe" "pe_outUrb pe"
    using assms(1) by (auto simp: memory_ok_def)
  with scan_endpoints_keeps [OF assms(2) [unfolded probed_def]]
    scan_endpoints_buf [OF assms(2) [unfolded probed_def]] assms(3)
  show ?thesis by (simp add: unfinished_def init_x10_cm19a_device_def zeroed_def Let_def)
qed

text \<open>What a probe leaves in the entry.\<close>

definition probe_left :: "nat \<Rightarrow> int \<times> x10_cm19a_device \<times> wakeup list \<Rightarrow> bool" where
  "probe_left n = (\<lambda>(r, d, ws). (r < 0 \<and> free_entry d) \<or> (r = 0 \<and> sound n 1 True d))"

lemma probe_leaves:
  assumes m: "memory_ok pe" and sz: "\<forall>e \<in> set (pe_endpoints pe). wMaxPacketSize e = n"
    and w: "wakes_ok 0 ws" and d: "free_entry d"
  shows "safe (probe_left n) (probe_dev p pe ws d)"
proof -
  obtain b e where e: "probed p pe d = (b, e)" by (cases "probed p pe d")
  have fail: "unfinished x \<Longrightarrow> safe (probe_left n) (probe_failed (x, v))" for x v
    by (rule safe_mono [OF probe_failed_unfinished]) (auto simp: probe_left_def)
  have u: "unfinished e" using probed_unfinished [OF m e] d by (simp add: free_entry_def)
  show ?thesis
  proof (cases "b \<and> intrInEpAddr e \<noteq> 0 \<and> intrOutEpAddr e \<noteq> 0")
    case False
    then show ?thesis using e fail [OF u] by (auto simp: probe_dev_probed)
  next
    case True
    have "intrInSz e = n"
      using scan_endpoints_size [OF e [unfolded probed_def] sz] True
      by (simp add: init_x10_cm19a_device_def zeroed_def Let_def split: option.splits)
    with sound_probed [OF m, of p d e] e True d have s: "sound n 1 False e" by (simp add: free_entry_def)
    have init: "safe (keeps n 1 False) (init_remotes (pe_alloc pe) (pe_submit pe) ws e)"
      unfolding init_remotes_def by (rule sound_init_writes [OF s wakes_ok_mono [OF w]])
    have step: "safe (probe_left n)
        (if r < 0 then probe_failed (x, v)
         else let x = request RegisterDev x in
              if 0 \<le> pe_register pe then Returns (0, x\<lparr>present := True, intfdata := True\<rparr>, v)
              else probe_failed (x, v))" if "keeps n 1 False (r, x, v)" for r x v
    proof -
      from that have "sound n 1 False x" by simp
      then have "sound n 1 False (request RegisterDev x)" by (simp add: sound_def request_def)
      with \<open>sound n 1 False x\<close> show ?thesis
        using fail [OF sound_unfinished] by (auto simp: Let_def probe_left_def sound_def)
    qed
    have "safe (probe_left n)
        (andThen (init_remotes (pe_alloc pe) (pe_submit pe) ws e) (\<lambda>(r, x, v).
           if r < 0 then probe_failed (x, v)
           else let x = request RegisterDev x in
                if 0 \<le> pe_register pe then Returns (0, x\<lparr>present := True, intfdata := True\<rparr>, v)
                else probe_failed (x, v)))"
      by (rule safe_andThen [OF init]) (simp only: split_paired_all prod.case, rule step)
    then show ?thesis using e True by (simp add: probe_dev_probed)
  qed
qed

text \<open>The probe takes the first free entry.\<close>

lemma find_free_Some:
  "find_free_dev_struct k ds = Some i \<Longrightarrow> k \<le> i \<and> i - k < length ds \<and> \<not> present (ds ! (i - k))"
proof (induction ds arbitrary: k)
  case (Cons d ds)
  then show ?case by (cases "present d") (fastforce simp: nth_Cons' Suc_le_eq)+
qed simp

lemma find_free_None: "find_free_dev_struct k ds = None \<longleftrightarrow> (\<forall>d \<in> set ds. present d)"
  by (induction ds arbitrary: k) auto

definition probe_at :: "nat \<Rightarrow> nat \<Rightarrow> karray \<Rightarrow> karray \<Rightarrow> bool" where
  "probe_at n i s s' \<longleftrightarrow>
     i < length (ka_devs s) \<and> free_entry (ka_devs s ! i) \<and>
     (\<exists>d. (free_entry d \<or> sound n 1 True d) \<and> s' = s\<lparr>ka_devs := (ka_devs s)[i := d]\<rparr>)"

lemma calm_free: "calm n (entry i s) \<Longrightarrow> \<not> present (ka_devs s ! i) \<Longrightarrow> free_entry (ka_devs s ! i) \<and> ka_files s ! i = 0"
  by (simp add: calm_def kinv_def free_entry_def)

lemma probe_event:
  assumes "ainv n s" and ok: "kevent_ok n (A_probe pe ws)"
  shows "safe (\<lambda>s'. s' = s \<or> (\<exists>i. probe_at n i s s')) (kevent_run p (A_probe pe ws) s)"
proof (cases "ka_Tscvrs s \<noteq> Live () \<or> pe_interface pe \<noteq> 0 \<or> find_free_dev_struct 0 (ka_devs s) = None")
  case False
  then obtain i where i: "find_free_dev_struct 0 (ka_devs s) = Some i" by auto
  from find_free_Some [OF i] assms(1) have l: "i < length (ka_devs s)" and f: "free_entry (ka_devs s ! i)"
    using calm_free [of n i s] by (simp_all add: ainv_def)
  have left: "safe (probe_left n) (probe_dev p pe ws (ka_devs s ! i))"
    using ok f by (intro probe_leaves) simp_all
  have "kevent_run p (A_probe pe ws) s =
      andThen (probe_dev p pe ws (ka_devs s ! i)) (\<lambda>(r, d, ws). Returns (s\<lparr>ka_devs := (ka_devs s)[i := d]\<rparr>))"
    using i False by (auto simp: x10_cm19a_probe_def andThen_assoc intro!: andThen_cong)
  also have "safe (probe_at n i s) \<dots>"
    by (rule safe_andThen [OF left]) (use l f in \<open>auto simp: probe_left_def probe_at_def\<close>)
  finally show ?thesis by (rule safe_mono) blast
next
  case True
  then show ?thesis by (auto simp: x10_cm19a_probe_def)
qed

lemma ainv_probe_at: "ainv n s \<Longrightarrow> probe_at n i s s' \<Longrightarrow> ainv n s'"
proof -
  assume a: "ainv n s" and "probe_at n i s s'"
  then obtain d where i: "i < length (ka_devs s)" "free_entry (ka_devs s ! i)"
    and d: "free_entry d \<or> sound n 1 True d" and s': "s' = s\<lparr>ka_devs := (ka_devs s)[i := d]\<rparr>"
    by (auto simp: probe_at_def)
  from a i have "ka_files s ! i = 0"
    using calm_free [of n i s] by (simp add: ainv_def free_entry_def)
  with d have "calm n (entry i s')"
    using i by (auto simp: s' calm_def kinv_def free_entry_def entry_def sound_split)
  moreover have "entry j s' = entry j s" if "j \<noteq> i" for j using that by (simp add: s' entry_def)
  ultimately have "calm n (entry j s')" if "j < length (ka_devs s)" for j
    using a that by (cases "j = i") (simp_all add: ainv_def)
  then show "ainv n s'" using a by (simp add: ainv_def s')
qed

text \<open>A call changes one entry, as \<open>X10_Kernel\<close> says, or goes to sleep.\<close>

lemma call_event:
  assumes "ainv n s" and "kop_ok n a" and "ka_Tscvrs s = Live ()"
  shows "safe (\<lambda>s'. s' = s \<or> i < length (ka_devs s) \<and> (\<exists>e. calm n e \<and> s' = put_entry i s e \<and>
            (kop_run p a (entry i s) = Returns e \<or>
             kop_run p a (entry i s) = Blocks \<and> a = K_unplug \<and> e = asleep_disconn (entry i s))))
           (kevent_run p (A_call i a) s)"
proof (cases "i < length (ka_devs s)")
  case True
  with assms have c: "calm n (entry i s)" by (simp add: ainv_def)
  from calm_op [OF this assms(2), of p] True assms(3) show ?thesis
    by (cases "kop_run p a (entry i s)") (auto intro: calm_asleep [OF c] simp del: kop_run.simps)
qed simp

lemma unplug_each_ainv:
  "ainv n s \<Longrightarrow> \<forall>i \<in> set js. i < length (ka_devs s) \<Longrightarrow>
     safe (\<lambda>s'. ainv n s' \<and> ka_Tscvrs s' = ka_Tscvrs s) (unplug_each p js s)"
proof (induction js arbitrary: s)
  case (Cons i js)
  then have "safe (calm n) (kop_run p K_unplug (entry i s))"
    by (intro calm_op) (auto simp: ainv_def)
  then show ?case
    using Cons by (auto simp: ainv_put simp del: kop_run.simps intro!: safe_andThen Cons.IH [THEN safe_mono])
qed simp

lemma exit_event:
  assumes "ainv n s"
  shows "safe (\<lambda>s'. ainv n s' \<and> (ka_Tscvrs s = Live () \<longrightarrow> ka_Tscvrs s' = Freed)) (kevent_run p A_exit s)"
proof (cases "ka_Tscvrs s = Live ()")
  case True
  have "safe (\<lambda>s'. ainv n s' \<and> ka_Tscvrs s' = ka_Tscvrs s) (unplug_each p [0..<length (ka_devs s)] s)"
    using assms by (rule unplug_each_ainv) simp
  with True show ?thesis
    by (auto simp: x10_cm19a_exit_def ainv_def intro!: safe_andThen)
qed (use assms in simp)

lemma kevent_ainv:
  assumes "ainv n s" and "kevent_ok n a" and "ka_Tscvrs s = Live ()"
  shows "safe (ainv n) (kevent_run p a s)"
proof (cases a)
  case (A_probe pe ws)
  show ?thesis
    unfolding A_probe
    by (rule safe_mono [OF probe_event [OF assms(1)]]) (use assms ainv_probe_at A_probe in auto)
next
  case (A_call i b)
  show ?thesis
    unfolding A_call
    by (rule safe_mono [OF call_event [OF assms(1)]]) (use assms ainv_put A_call in auto)
next
  case A_exit
  show ?thesis
    unfolding A_exit by (rule safe_mono [OF exit_event [OF assms(1)]]) simp
qed

lemma ainv_start:
  assumes "x10_cm19a_init p junk reg = (r, Some ds)"
  shows "ainv n (array_start ds)"
proof -
  have "\<not> present d" if "d \<in> set (number_entries k es)" for d k es
    using that by (induction es arbitrary: k) auto
  with assms have "\<forall>d \<in> set ds. \<not> present d"
    by (fastforce simp: x10_cm19a_init_def Let_def split: if_splits option.splits)
  then show ?thesis by (simp add: ainv_def array_start_def calm_def kinv_def)
qed

section \<open>Nothing goes wrong before the module is unloaded\<close>

lemma kevents_ainv:
  assumes "ainv n s" and "ka_Tscvrs s = Live ()" and "\<forall>a \<in> set acts. kevent_ok n a" and "A_exit \<notin> set acts"
  shows "safe (\<lambda>s'. ainv n s' \<and> ka_Tscvrs s' = Live ()) (kevents_run p acts s)"
  using assms
proof (induction acts arbitrary: s)
  case (Cons a acts)
  have "safe (\<lambda>s'. ka_Tscvrs s' = Live ()) (kevent_run p a s)"
  proof (cases a)
    case (A_probe pe ws)
    with Cons.prems show ?thesis by (auto intro!: safe_mono [OF probe_event [of n]] simp: probe_at_def simp del: kevent_run.simps)
  next
    case (A_call i b)
    with Cons.prems show ?thesis by (auto intro!: safe_mono [OF call_event [of n]] simp del: kevent_run.simps)
  qed (use Cons.prems in simp)
  moreover have "safe (ainv n) (kevent_run p a s)"
    using Cons.prems by (intro kevent_ainv) auto
  ultimately have "safe (\<lambda>s'. ainv n s' \<and> ka_Tscvrs s' = Live ()) (kevent_run p a s)"
    by (cases "kevent_run p a s") simp_all
  then show ?case
    unfolding kevents_run.simps by (rule safe_andThen) (use Cons in auto)
qed simp

lemma start_live [simp]: "ka_Tscvrs (array_start ds) = Live ()"
  by (simp add: array_start_def)

text \<open>What the invariant says of an entry.\<close>

lemma calm_bounds:
  "calm n e \<Longrightarrow> if present (kdev e)
     then readPktLen (kdev e) \<le> readBufLen (kdev e) \<and> readBufLen (kdev e) < ReadBufSz \<and>
          int (kfiles e) \<le> kernRef (kdev e)
     else kfiles e = 0"
  by (auto simp: calm_def kinv_def live_def sound_def split: if_splits)


section \<open>Entries that are lost\<close>

text \<open>
  An entry whose lock nobody gives back is taken for ever. A transceiver that is unplugged while a
  file is open, with \<open>disconnMutex\<close> free, makes such an entry; \<open>open_unplugs\<close> counts these events in a run.
\<close>

definition lost :: "karray \<Rightarrow> nat set" where
  "lost s = {i. i < length (ka_devs s) \<and> present (ka_devs s ! i) \<and> kmutex (ka_devs s ! i)}"

fun open_unplug :: "kevent \<Rightarrow> karray \<Rightarrow> bool" where
  "open_unplug (A_call i K_unplug) s \<longleftrightarrow>
     i < length (ka_devs s) \<and> 0 < ka_files s ! i \<and> intfdata (ka_devs s ! i) \<and> \<not> kmutex (ka_devs s ! i) \<and>
     \<not> ka_disconn s"
| "open_unplug _ s \<longleftrightarrow> False"

fun open_unplugs :: "module_params \<Rightarrow> kevent list \<Rightarrow> karray \<Rightarrow> nat" where
  "open_unplugs p [] s = 0"
| "open_unplugs p (a # acts) s =
     (if open_unplug a s then 1 else 0) +
     (case kevent_run p a s of Returns s' \<Rightarrow> open_unplugs p acts s' | _ \<Rightarrow> 0)"

lemma lost_put:
  "i < length (ka_devs s) \<Longrightarrow>
     lost (put_entry i s e) = (lost s - {i}) \<union> (if present (kdev e) \<and> kmutex (kdev e) then {i} else {})"
  by (auto simp: lost_def put_entry_def nth_list_update split: if_splits)

lemma lost_call:
  assumes "i \<in> lost s" and "kop_run p a (entry i s) = Returns e"
  shows "present (kdev e) \<and> kmutex (kdev e)"
proof -
  have "stuck (ka_devs s ! i) (ka_devs s ! i)" using assms(1) by (simp add: stuck_def lost_def)
  then have "after (\<lambda>e. stuck (ka_devs s ! i) (kdev e)) (kop_run p a (entry i s))" by (intro stuck_op) simp
  with assms show ?thesis by (simp add: stuck_def lost_def)
qed

text \<open>A lost entry stays lost, and an event that unplugs an open transceiver loses one more.\<close>

lemma lost_kept:
  assumes "ainv n s" and "kevent_ok n a" and "ka_Tscvrs s = Live ()" and "a \<noteq> A_exit"
    and "kevent_run p a s = Returns s'"
  shows "lost s \<subseteq> lost s' \<and> length (ka_devs s') = length (ka_devs s)"
proof (cases a)
  case (A_probe pe ws)
  with probe_event [OF assms(1), of pe ws p] assms show ?thesis
    by (auto simp: probe_at_def lost_def free_entry_def nth_list_update simp del: kevent_run.simps)
next
  case (A_call i b)
  with call_event [OF assms(1), of b i p] assms
  consider "s' = s"
    | e where "i < length (ka_devs s)" "s' = put_entry i s e" "kop_run p b (entry i s) = Returns e"
    | "i < length (ka_devs s)" "s' = put_entry i s (asleep_disconn (entry i s))"
    by (auto simp del: kevent_run.simps kop_run.simps)
  then show ?thesis
  proof cases
    case (2 e)
    then show ?thesis using lost_call [of i s p b e] by (auto simp: lost_put)
  next
    case 3
    have "kmutex (kdev (asleep_disconn e)) = kmutex (kdev e)"
      "present (kdev (asleep_disconn e)) = present (kdev e)" for e
      by (simp_all add: asleep_disconn_def)
    with 3 show ?thesis by (auto simp: lost_put) (auto simp: lost_def)
  qed simp
qed (use assms in simp)

lemma lost_more:
  assumes "ainv n s" and "ka_Tscvrs s = Live ()" and "open_unplug a s" and "kevent_run p a s = Returns s'"
  shows "\<exists>i. i \<notin> lost s \<and> i \<in> lost s'"
proof -
  obtain i where a: "a = A_call i K_unplug"
    using assms(3) by (cases "(a, s)" rule: open_unplug.cases) auto
  let ?d = "ka_devs s ! i"
  have i: "i < length (ka_devs s)" "0 < ka_files s ! i" "intfdata ?d" "\<not> kmutex ?d" "\<not> ka_disconn s"
    using assms(3) by (simp_all add: a)
  have "calm n (entry i s)" using assms(1) i(1) by (simp add: ainv_def)
  with i have k: "present ?d \<and> 2 \<le> kernRef ?d"
    by (cases "present ?d") (simp_all add: calm_def kinv_def)
  let ?e = "(entry i s)\<lparr>kdisconn := False, kdev := request DeregisterDev (request DeregisterDev
    (?d\<lparr>intfdata := False, kmutex := True, kernRef := kernRef ?d - 1\<rparr>))\<rparr>"
  have "kop_run p K_unplug (entry i s) = Returns ?e"
    using i k by (simp add: x10_cm19a_disconn_def kref_put_def Let_def request_def)
  with assms(2,4) i have "s' = put_entry i s ?e" by (simp add: a)
  with i k have "i \<in> lost s'" by (simp add: lost_put request_def)
  moreover have "i \<notin> lost s" using i by (simp add: lost_def)
  ultimately show ?thesis by blast
qed

lemma finite_lost [simp]: "finite (lost s)"
  by (simp add: lost_def)

lemma open_unplugs_lost:
  assumes "ainv n s" and "ka_Tscvrs s = Live ()" and "\<forall>a \<in> set acts. kevent_ok n a" and "A_exit \<notin> set acts"
    and "kevents_run p acts s = Returns s'"
  shows "open_unplugs p acts s + card (lost s) \<le> card (lost s') \<and> length (ka_devs s') = length (ka_devs s)"
  using assms
proof (induction acts arbitrary: s)
  case (Cons a acts)
  then obtain s1 where s1: "kevent_run p a s = Returns s1" "kevents_run p acts s1 = Returns s'"
    by (auto simp: andThen_Returns)
  from kevents_ainv [of n s "[a]" p] Cons.prems s1 have i: "ainv n s1" "ka_Tscvrs s1 = Live ()" by auto
  with Cons s1 have ih: "open_unplugs p acts s1 + card (lost s1) \<le> card (lost s')"
    "length (ka_devs s') = length (ka_devs s1)" by auto
  from lost_kept [of n s a p s1] Cons.prems s1
  have k: "lost s \<subseteq> lost s1" "length (ka_devs s1) = length (ka_devs s)" by auto
  have "(if open_unplug a s then 1 else 0) + card (lost s) \<le> card (lost s1)"
  proof (cases "open_unplug a s")
    case True
    with lost_more [of n s a p s1] Cons.prems s1 k have "lost s \<subset> lost s1" by auto
    then show ?thesis using True psubset_card_mono [of "lost s1" "lost s"] by simp
  qed (use k in \<open>simp add: card_mono\<close>)
  with ih k s1 show ?case by simp
qed simp

text \<open>C24: each time a transceiver is unplugged while a file is open on it the driver loses an entry of
  its array for ever; when that has happened as often as there are entries (the parameter
  \<open>MaxTscvrCnt\<close>, 4 by default), no transceiver can be connected any more, whatever is closed and
  plugged in, until the module is loaded again.\<close>

theorem open_unpluggings_use_up_the_array:
  assumes "x10_cm19a_init p (Some junk) 0 = (0, Some ds)" and "nat (MaxTscvrCnt p) \<le> length junk"
    and "\<forall>a \<in> set acts. kevent_ok n a" and "A_exit \<notin> set acts"
    and "kevents_run p acts (array_start ds) = Returns s"
  shows "open_unplugs p acts (array_start ds) + length (filter (\<lambda>d. \<not> present d) (ka_devs s))
      \<le> nat (MaxTscvrCnt p) \<and>
    (open_unplugs p acts (array_start ds) = nat (MaxTscvrCnt p) \<longrightarrow>
       (\<forall>pe ws. x10_cm19a_probe p pe ws (ka_devs s) = Returns (-EIO, ka_devs s, ws)))"
proof -
  have "length (number_entries k es) = length es" for k es
    by (induction es arbitrary: k) simp_all
  with assms(1,2) have l: "length ds = nat (MaxTscvrCnt p)"
    by (auto simp: x10_cm19a_init_def Let_def split: if_splits)
  from open_unplugs_lost [OF ainv_start [OF assms(1)] start_live assms(3-5)]
  have u: "open_unplugs p acts (array_start ds) \<le> card (lost s)" and ls: "length (ka_devs s) = length ds"
    by (simp_all add: array_start_def)
  let ?free = "{i. i < length (ka_devs s) \<and> \<not> present (ka_devs s ! i)}"
  have "card (lost s) + card ?free = card (lost s \<union> ?free)"
    by (rule card_Un_disjoint [symmetric]) (auto simp: lost_def)
  also have "\<dots> \<le> card {..<length (ka_devs s)}"
    by (rule card_mono) (auto simp: lost_def)
  finally have c: "card (lost s) + length (filter (\<lambda>d. \<not> present d) (ka_devs s)) \<le> nat (MaxTscvrCnt p)"
    using l ls by (simp add: length_filter_conv_card)
  moreover have "find_free_dev_struct 0 (ka_devs s) = None"
    if "open_unplugs p acts (array_start ds) = nat (MaxTscvrCnt p)"
  proof -
    from that c u have "length (filter (\<lambda>d. \<not> present d) (ka_devs s)) = 0" by linarith
    then have "filter (\<lambda>d. \<not> present d) (ka_devs s) = []" by (simp only: length_0_conv)
    then show ?thesis by (simp add: find_free_None filter_empty_conv)
  qed
  ultimately show ?thesis using u by (auto simp: x10_cm19a_probe_def)
qed

section \<open>The lock of all transceivers\<close>

text \<open>Once \<open>disconnMutex\<close> is lost it stays lost.\<close>

lemma disconn_kept:
  assumes "kdisconn e"
  shows "after kdisconn (kop_run p a e)"
proof (cases "needs_disconn a")
  case False
  have "e\<lparr>kdisconn := True\<rparr> = e" using assms by (intro kstate.equality) simp_all
  with kop_run_disconn [OF False, of p True e]
  have "kop_run p a e = andThen (kop_run p a e) (\<lambda>e. Returns (e\<lparr>kdisconn := True\<rparr>))" by simp
  then show ?thesis by (cases "kop_run p a e") (auto dest: arg_cong [of _ _ kdisconn])
next
  case True
  with assms show ?thesis
    by (cases a) (simp_all add: devf_open_def x10_cm19a_disconn_def)
qed

definition held :: "karray \<Rightarrow> bool" where
  "held s \<longleftrightarrow> ka_disconn s \<and> length (ka_files s) = length (ka_devs s)"

lemma held_put [simp]: "held s \<Longrightarrow> held (put_entry i s e) = kdisconn e"
  by (simp add: held_def)

lemma held_entry: "held s \<Longrightarrow> kdisconn (entry i s)"
  by (simp add: held_def)

lemma held_event:
  assumes "held s"
  shows "after held (kevent_run p a s)"
proof (cases a)
  case (A_probe pe ws)
  then show ?thesis
    using assms by (auto simp: after_def andThen_Returns x10_cm19a_probe_def held_def split: option.splits if_splits)
next
  case (A_call i b)
  from disconn_kept [OF held_entry [OF assms], of p b i] assms show ?thesis
    by (cases "kop_run p b (entry i s)") (auto simp: A_call asleep_disconn_def held_entry simp del: kop_run.simps)
next
  case A_exit
  have "held s \<Longrightarrow> after held (unplug_each p js s)" for js s
    by (induction js arbitrary: s)
       (auto intro!: after_andThen [OF disconn_kept [OF held_entry]] simp del: kop_run.simps)
  from this [OF assms] show ?thesis
    using assms by (auto simp: A_exit x10_cm19a_exit_def after_def andThen_Returns held_def split: if_splits)
qed

lemma held_events: "held s \<Longrightarrow> after held (kevents_run p acts s)"
  by (induction acts arbitrary: s) (auto intro: after_andThen [OF held_event] simp del: kevent_run.simps)

text \<open>What an interrupt leaves as it is.\<close>

definition alike :: "x10_cm19a_device \<Rightarrow> x10_cm19a_device \<Rightarrow> bool" where
  "alike d d' \<longleftrightarrow> kmutex d' = kmutex d \<and> devfOpened d' = devfOpened d \<and> intfdata d' = intfdata d"

lemma irq_alike: "handle_irq (In_irq t 0 data) d = Returns d' \<Longrightarrow> alike d d'"
  by (auto simp: read_intr_cb_def store_packet_def deliver_def alike_def request_def andThen_Returns Let_def
      split: kptr.splits if_splits)

lemma irq_never_blocks: "handle_irq (In_irq t 0 data) d \<noteq> Blocks"
  by (auto simp: read_intr_cb_def store_packet_def andThen_def Let_def split: kptr.splits if_splits)

text \<open>The steps of the story below, for one transceiver.\<close>

definition opened :: "nat \<Rightarrow> kstate \<Rightarrow> bool" where
  "opened n e \<longleftrightarrow>
     calm n e \<and> \<not> kdisconn e \<and> intfdata (kdev e) \<and> \<not> kmutex (kdev e) \<and> devfOpened (kdev e)"

lemma opened_live:
  assumes "opened n e"
  shows "present (kdev e)" and "intrInUrb (kdev e) = Live ()"
proof -
  show "present (kdev e)"
    using assms by (cases "present (kdev e)") (auto simp: opened_def calm_def kinv_def)
  with assms show "intrInUrb (kdev e) = Live ()"
    by (simp add: opened_def calm_def kinv_def live_def sound_def)
qed

lemma calm_returns: "calm n e \<Longrightarrow> kop_ok n a \<Longrightarrow> kop_run p a e = Returns e' \<Longrightarrow> calm n e'"
  using calm_op [of n e a p] by simp

lemma refused_open:
  assumes "opened n e" and "r \<noteq> 0"
  shows "\<exists>e'. kop_run p (K_open True r [(0, [], t)]) e = Returns e' \<and> opened n e'"
proof -
  have k: "\<not> kdisconn e" "intfdata (kdev e)" "\<not> kmutex (kdev e)" "devfOpened (kdev e)" "calm n e"
    using assms(1) by (simp_all add: opened_def)
  obtain e' where r: "kop_run p (K_open True r [(0, [], t)]) e = Returns e'"
    and e': "\<not> kdisconn e'" "intfdata (kdev e')" "\<not> kmutex (kdev e')" "devfOpened (kdev e')"
    using assms(2) k opened_live [OF assms(1)] by (simp add: devf_open_def Let_def request_def unlock_def)
  from calm_returns [OF k(5) _ r] e' have "opened n e'" by (simp add: opened_def)
  with r show ?thesis by blast
qed

lemma packet_when_opened:
  assumes "opened n e" and "length data \<le> n"
  shows "\<exists>e'. kop_run p (K_irq (In_irq t 0 data)) e = Returns e' \<and> opened n e'"
proof -
  from assms have c: "calm n e" by (simp add: opened_def)
  from calm_op [OF c, of "K_irq (In_irq t 0 data)" p] assms(2) irq_never_blocks [of t data "kdev e"]
    opened_live [OF assms(1)]
  obtain d where d: "handle_irq (In_irq t 0 data) (kdev e) = Returns d"
    by (cases "handle_irq (In_irq t 0 data) (kdev e)") (auto simp del: handle_irq.simps)
  then have r: "kop_run p (K_irq (In_irq t 0 data)) e = Returns (e\<lparr>kdev := d\<rparr>)"
    using opened_live [OF assms(1)] by (simp del: handle_irq.simps)
  from calm_returns [OF c _ r] assms irq_alike [OF d] have "opened n (e\<lparr>kdev := d\<rparr>)"
    by (simp add: opened_def alike_def)
  with r show ?thesis by blast
qed

lemma third_open:
  assumes "opened n e"
  shows "\<exists>e'. kop_run p (K_open True 0 [(0, [], t)]) e = Returns e' \<and>
    \<not> kdisconn e' \<and> intfdata (kdev e') \<and> kmutex (kdev e')"
  using assms opened_live [OF assms] by (simp add: opened_def devf_open_def Let_def request_def)

lemma unplug_sleeps:
  "intfdata (kdev e) \<Longrightarrow> kmutex (kdev e) \<or> kdisconn e \<Longrightarrow> kop_run p K_unplug e = Blocks"
  by (auto simp: x10_cm19a_disconn_def)

lemma put_put [simp]: "put_entry i (put_entry i s e) e' = put_entry i s e'"
  by (simp add: put_entry_def)

text \<open>With \<open>disconnMutex\<close> lost the module cannot be unloaded while an interface is connected.\<close>

lemma unplug_each_sleeps:
  "ka_disconn s \<Longrightarrow> length (ka_files s) = length (ka_devs s) \<Longrightarrow> \<forall>i \<in> set js. i < length (ka_devs s) \<Longrightarrow>
     k \<in> set js \<Longrightarrow> intfdata (ka_devs s ! k) \<Longrightarrow> unplug_each p js s = Blocks"
proof (induction js arbitrary: s)
  case (Cons i js)
  show ?case
  proof (cases "intfdata (ka_devs s ! i)")
    case True
    with Cons.prems(1) show ?thesis using unplug_sleeps [of "entry i s" p] by simp
  next
    case False
    with Cons.prems have "kop_run p K_unplug (entry i s) = Returns (entry i s)" and "k \<in> set js"
      by (auto simp: x10_cm19a_disconn_def entry_def)
    moreover have "put_entry i s (entry i s) = s" by (simp add: put_entry_def entry_def)
    ultimately show ?thesis using Cons by simp
  qed
qed simp

lemma exit_sleeps:
  "ka_disconn s \<Longrightarrow> length (ka_files s) = length (ka_devs s) \<Longrightarrow> ka_Tscvrs s = Live () \<Longrightarrow>
     k < length (ka_devs s) \<Longrightarrow> intfdata (ka_devs s ! k) \<Longrightarrow> kevent_run p A_exit s = Blocks"
  using unplug_each_sleeps [of s "[0..<length (ka_devs s)]" k p] by (simp add: x10_cm19a_exit_def)



text \<open>An array with one entry, and the events that take it away.\<close>

definition one_param :: module_params where
  "one_param = sample_params\<lparr>MaxTscvrCnt := 1\<rparr>"

definition one_entry :: "x10_cm19a_device list" where
  "one_entry = [sample_dev\<lparr>present := False, idx := 0\<rparr>]"

definition one_opened :: karray where
  "one_opened =
     \<lparr>ka_disconn = False, ka_Tscvrs = Live (), ka_devs = [kdev sample_opened], ka_files = [1]\<rparr>"

definition one_use :: "kevent list" where
  "one_use = [A_probe sample_probe sample_wakes, A_call 0 (K_open True 0 [(0, [], 0)]), A_call 0 K_unplug]"

lemma one_init: "x10_cm19a_init one_param (Some [sample_dev]) 0 = (0, Some one_entry)"
  by (simp add: x10_cm19a_init_def one_param_def sample_params_def one_entry_def MAX_MAX_TSCVR_CNT_def Let_def)

lemma one_use_ok: "\<forall>a \<in> set one_use. kevent_ok 8 a" "A_exit \<notin> set one_use"
  using sample_memory sample_wakes_ok by (auto simp: one_use_def sample_probe_def)

lemma one_probe:
  "kevent_run one_param (A_probe sample_probe sample_wakes) (array_start one_entry) =
     Returns (array_start one_entry\<lparr>ka_devs := [sample_dev]\<rparr>)"
proof -
  have "probe_dev one_param sample_probe sample_wakes (sample_dev\<lparr>present := False, idx := 0, intfdata := False, requests := []\<rparr>)
      = Returns (0, sample_dev, [])"
    by (simp add: probe_dev_def one_param_def sample_params_def sample_probe_def sample_wakes_def sample_dev_def
        init_x10_cm19a_device_def zeroed_def init_remotes_def write_intr_data_def write_intr_cb_def
        request_def unlock_def PktTimeout_def c_div_def Let_def)
  then show ?thesis
    by (simp add: array_start_def one_entry_def x10_cm19a_probe_def sample_probe_def)
qed

lemma one_open:
  "kevent_run one_param (A_call 0 (K_open True 0 [(0, [], 0)])) (array_start one_entry\<lparr>ka_devs := [sample_dev]\<rparr>) =
     Returns one_opened"
  by (simp add: array_start_def one_entry_def one_opened_def sample_opened_def sample_dev_def devf_open_def
      request_def unlock_def put_entry_def entry_def Let_def)

lemma one_unplug:
  "open_unplug (A_call 0 K_unplug) one_opened"
  "\<exists>s. kevent_run one_param (A_call 0 K_unplug) one_opened = Returns s"
  by (simp_all add: one_opened_def sample_opened_def sample_dev_def request_def entry_def
      x10_cm19a_disconn_def kref_put_def Let_def)


theorem open_unpluggings_use_up_the_array_witness:
  "\<exists>s. kevents_run one_param one_use (array_start one_entry) = Returns s \<and>
     x10_cm19a_probe one_param sample_probe [] (ka_devs s) = Returns (-EIO, ka_devs s, [])"
proof -
  obtain s where s: "kevent_run one_param (A_call 0 K_unplug) one_opened = Returns s"
    using one_unplug(2) by blast
  then have run: "kevents_run one_param one_use (array_start one_entry) = Returns s"
    by (simp add: one_use_def one_probe one_open del: kevent_run.simps)
  have "open_unplugs one_param one_use (array_start one_entry) = 1"
    using s one_unplug(1)
    by (simp add: one_use_def one_probe one_open del: kevent_run.simps open_unplug.simps(1))
  then have "open_unplugs one_param one_use (array_start one_entry) = nat (MaxTscvrCnt one_param)"
    by (simp add: one_param_def sample_params_def)
  with open_unpluggings_use_up_the_array [OF one_init _ one_use_ok run] run show ?thesis
    by (auto simp: one_param_def sample_params_def)
qed


end
