(* ===== verification/X10_Levels.thy ===== *)
theory X10_Levels
  imports X10_Rounds
begin

text \<open>
  What the queue of the service stands for. The specification knows the levels of the units, a
  function of their addresses, and a list of commands, each of which changes the level of its
  unit at once; the thread of \<open>X10_Worker\<close> implements it with containers, elementary commands and
  rounds.
\<close>

section \<open>The specification\<close>

definition cmd_level :: "COMMAND \<Rightarrow> int \<Rightarrow> int" where
  "cmd_level cmd cur = (case exec_value cmd cur of None \<Rightarrow> cur | Some v \<Rightarrow> v)"

definition level_step :: "COMMAND \<Rightarrow> (string \<Rightarrow> int) \<Rightarrow> string \<Rightarrow> int" where
  "level_step cmd levels = levels(address cmd := cmd_level cmd (levels (address cmd)))"

lemma cmd_level_set: "ctype cmd = CMD_SET \<Longrightarrow> cmd_level cmd cur = cvalue cmd"
  by (simp add: cmd_level_def exec_value_def)

text \<open>The levels a queue manager stands for.\<close>

abbreviation levels :: "QueueManager \<Rightarrow> string \<Rightarrow> int" where
  "levels s \<equiv> container_value (Containers s)"

section \<open>Rounds change the level of one unit\<close>

lemma worker_exec_others:
  assumes ok: "containers_ok (Containers s)" and "concrete (channel cmd) (cunit cmd)" and "a \<noteq> address cmd"
  shows "levels (snd (worker_exec cmd s)) a = levels s a"
proof -
  let ?m = "CheckContainerExist (address cmd) (Containers s)"
  have inv: "st_inv ?m" and inv0: "st_inv (Containers s)"
    using containers_okD(1) [OF CheckContainerExist_ok [OF ok]] containers_okD(1) [OF ok] by auto
  obtain c where c: "st_find ?m (address cmd) = Some c"
    using find_CheckContainerExist(1) [OF inv0] by fastforce
  obtain x where x: "new_x10_ha_command (parse_cmd_code (cmd_char (ctype cmd))) (channel cmd) (cunit cmd) = Some x"
    using concrete_new_cmd [OF assms(2)] by blast
  have "levels (snd (worker_exec cmd s)) a = container_value ?m a"
    using assms(3)
    by (simp add: worker_exec_def x on_container_def c Let_def qm_emit_def container_value_def
        cmap.find_put_other [OF inv] split: prod.splits)
  then show ?thesis using CheckContainerExist_value [OF inv0] by simp
qed

lemma worker_exec_levels:
  assumes "containers_ok (Containers s)" and "concrete (channel cmd) (cunit cmd)"
  shows "levels (snd (worker_exec cmd s)) = level_step cmd (levels s)"
proof
  fix a
  show "levels (snd (worker_exec cmd s)) a = level_step cmd (levels s) a"
    using worker_exec_value(1) [OF assms] worker_exec_others [OF assms, of a]
    by (simp add: level_step_def cmd_level_def Let_def)
qed

lemma worker_fetch_frame:
  assumes s: "qm_ok q s" and f: "worker_fetch now s = (c, s1)"
  shows "levels s1 = levels s"
    and "c = Some d \<Longrightarrow> \<exists>cmd \<in> set (queueCommands s). channel d = channel cmd \<and> cunit d = cunit cmd
           \<and> queueCommands s \<noteq> [] \<and> cmd = last (queueCommands s)"
proof -
  have inv: "st_inv (Containers s)" using s by (simp add: qm_okD(1) containers_okD(1))
  show "levels s1 = levels s"
    using f
    by (auto simp: worker_fetch_def GetNextCommand_def Let_def qm_emit_def CheckContainerExist_value [OF inv]
        fun_eq_iff split: if_splits prod.splits)
  assume "c = Some d"
  then show "\<exists>cmd \<in> set (queueCommands s). channel d = channel cmd \<and> cunit d = cunit cmd
           \<and> queueCommands s \<noteq> [] \<and> cmd = last (queueCommands s)"
    using f
    by (intro bexI [of _ "last (queueCommands s)"])
       (auto simp: worker_fetch_def GetNextCommand_def next_command_def Let_def split: if_splits prod.splits)
qed

lemma round_others:
  assumes s: "qm_ok q s" and last: "queueCommands s = others @ [cmd]"
    and con: "concrete (channel cmd) (cunit cmd)" and a: "a \<noteq> address cmd"
  shows "levels (snd (worker_round now s)) a = levels s a"
proof -
  obtain c s1 where f: "worker_fetch now s = (c, s1)" by fastforce
  note fr = worker_fetch_frame [OF s f]
  show ?thesis
  proof (cases c)
    case None
    with f fr(1) show ?thesis by (simp add: worker_round_def)
  next
    case (Some d)
    then have d: "channel d = channel cmd" "cunit d = cunit cmd" using fr(2) last by auto
    then have ad: "address d = address cmd" by (simp add: address_def)
    have ok: "containers_ok (Containers s1)"
      using f s
      by (auto simp: worker_fetch_def GetNextCommand_def Let_def qm_emit_def qm_okD(1) CheckContainerExist_ok
          split: if_splits prod.splits)
    have "levels (snd (worker_exec d s1)) a = levels s1 a"
      by (rule worker_exec_others [OF ok]) (use d con a ad in simp_all)
    then show ?thesis using f fr(1) Some by (simp add: worker_round_def Let_def case_prod_beta)
  qed
qed

lemma rounds_others:
  assumes "qt_number_ok q" and "qm_ok q s" and "isRunning s" and "queueCommands s = others @ [cmd]"
    and "ctype cmd = CMD_SET" and "concrete (channel cmd) (cunit cmd)" and "a \<noteq> address cmd"
    and "set_rounds k (cvalue cmd) (levels s (address cmd)) = Some (n, l)"
  shows "levels (snd (rounds n now s)) a = levels s a"
  using assms(2-)
proof (induction k arbitrary: s cmd n)
  case 0
  then show ?case by simp
next
  case (Suc k)
  let ?s = "snd (worker_round now s)"
  obtain fin lvl where plan: "set_next (cvalue cmd) (levels s (address cmd)) = (fin, lvl)" by fastforce
  note r = round_set [OF Suc.prems(1-5) plan, of now] and o = round_others [OF Suc.prems(1,3,5,6), of now]
  show ?case
  proof (cases fin)
    case True
    then have "n = 1" using Suc.prems(7) plan by simp
    with o show ?thesis by simp
  next
    case False
    then obtain m where m: "set_rounds k (cvalue cmd) lvl = Some (m, l)" "n = Suc m"
      using Suc.prems(7) plan by auto
    obtain b where b: "queueCommands ?s = others @ [cmd\<lparr>notified := b\<rparr>]" using r(3) False by auto
    have ad: "address (cmd\<lparr>notified := b\<rparr>) = address cmd" by (simp add: address_def)
    have "levels (snd (rounds m now ?s)) a = levels ?s a"
      by (rule Suc.IH [OF worker_round_ok [OF assms(1) Suc.prems(1)] r(2) b])
         (use Suc.prems(4-6) m(1) r(1) ad in simp_all)
    with o m(2) show ?thesis by simp
  qed
qed

section \<open>The queue is executed\<close>

lemma rounds_step:
  assumes q: "qt_number_ok q" and s: "qm_ok q s" and run: "isRunning s"
    and cs: "queueCommands s = others @ [cmd]" and con: "concrete (channel cmd) (cunit cmd)"
  shows "\<exists>n \<le> 8. queueCommands (snd (rounds n now s)) = others \<and> isRunning (snd (rounds n now s))
    \<and> qm_ok q (snd (rounds n now s)) \<and> levels (snd (rounds n now s)) = level_step cmd (levels s)"
proof (cases "ctype cmd = CMD_SET")
  case True
  have "level_ok (cvalue cmd)" using qm_okD(3) [OF s, of cmd] cs True by (simp add: cmd_ok_def)
  moreover have "level_ok (levels s (address cmd))" by (rule container_value_ok [OF qm_okD(1) [OF s]])
  ultimately obtain n where n: "n \<le> 8" "set_rounds 8 (cvalue cmd) (levels s (address cmd)) = Some (n, cvalue cmd)"
    using set_rounds_reach by blast
  note r = rounds_set [OF q s run cs True con n(2), of now]
  have "levels (snd (rounds n now s)) = level_step cmd (levels s)"
  proof
    fix a
    show "levels (snd (rounds n now s)) a = level_step cmd (levels s) a"
      using r rounds_others [OF q s run cs True con _ n(2), of a now]
      by (auto simp: level_step_def cmd_level_set [OF True])
  qed
  with n(1) r show ?thesis by blast
next
  case False
  let ?s = "s\<lparr>queueCommands := others\<rparr>"
  note f = worker_fetch_plain [OF run cs False]
  have "snd (worker_round now s) = snd (worker_exec cmd ?s)"
    by (simp add: worker_round_def f case_prod_beta)
  moreover have "levels (snd (worker_exec cmd ?s)) = level_step cmd (levels s)"
    using worker_exec_levels [of ?s cmd] con qm_okD(1) [OF s] by simp
  moreover have "snd (rounds 1 now s) = snd (worker_round now s)" by simp
  ultimately show ?thesis
    using round_plain(1,2) [OF s run cs False con, of now] worker_round_ok [OF q s, of now]
    by (intro exI [of _ 1]) simp
qed

lemma rounds_execute:
  assumes "qt_number_ok q" and "qm_ok q s" and "isRunning s"
    and "\<forall>c \<in> set (queueCommands s). concrete (channel c) (cunit c)"
  shows "\<exists>k \<le> 8 * length (queueCommands s). queueCommands (snd (rounds k now s)) = []
    \<and> levels (snd (rounds k now s)) = fold level_step (rev (queueCommands s)) (levels s)"
  using assms(2-)
proof (induction "queueCommands s" arbitrary: s rule: rev_induct)
  case Nil
  then show ?case by (intro exI [of _ 0]) simp
next
  case (snoc cmd others)
  have cs: "queueCommands s = others @ [cmd]" using snoc.hyps(2) by simp
  have con: "concrete (channel cmd) (cunit cmd)" and rest: "\<forall>c \<in> set others. concrete (channel c) (cunit c)"
    using snoc.prems(3) cs by simp_all
  obtain n where n: "n \<le> 8" and t: "queueCommands (snd (rounds n now s)) = others"
    "isRunning (snd (rounds n now s))" "qm_ok q (snd (rounds n now s))"
    "levels (snd (rounds n now s)) = level_step cmd (levels s)"
    using rounds_step [OF assms(1) snoc.prems(1,2) cs con] by blast
  from snoc.hyps(1) [OF t(1) [symmetric] t(3,2)] rest obtain k where
    k: "k \<le> 8 * length others" "queueCommands (snd (rounds k now (snd (rounds n now s)))) = []"
      "levels (snd (rounds k now (snd (rounds n now s)))) = fold level_step (rev others) (level_step cmd (levels s))"
    using t(1,4) by auto
  show ?case by (rule exI [of _ "n + k"]) (use n k cs in \<open>simp add: rounds_add\<close>)
qed

section \<open>Properties\<close>

text \<open>C3: a queue of commands for real units is executed: within eight rounds of the thread per
  command the queue is empty, and all levels are what the commands, in the order in which they
  were queued, make of them; a unit that no command names keeps its level.\<close>

theorem queue_refines_its_levels:
  assumes "qt_number_ok q" and "qm_ok q s" and "isRunning s"
    and "\<forall>c \<in> set (queueCommands s). concrete (channel c) (cunit c)"
  shows "\<exists>k \<le> 8 * length (queueCommands s). queueCommands (snd (rounds k now s)) = []
    \<and> levels (snd (rounds k now s)) = fold level_step (rev (queueCommands s)) (levels s)"
  by (rule rounds_execute [OF assms])

theorem queue_refines_its_levels_witness:
  "\<exists>k \<le> 16. levels (snd (rounds k 0 (busy_manager [e5 CMD_DIM (-1), e5 CMD_SET 3]))) (address (e5 CMD_SET 3)) = 2"
proof -
  let ?s = "busy_manager [e5 CMD_DIM (-1), e5 CMD_SET 3]"
  have "qm_ok std_number ?s" by (rule busy_ok) (simp add: e5_ok level_ok_def MAX_VALUE_def)
  then have "\<exists>k \<le> 8 * length (queueCommands ?s). queueCommands (snd (rounds k 0 ?s)) = []
    \<and> levels (snd (rounds k 0 ?s)) = fold level_step (rev (queueCommands ?s)) (levels ?s)"
    by (intro queue_refines_its_levels [OF std_number_ok])
       (use e5_concrete in \<open>auto simp: busy_manager_def\<close>)
  moreover have "fold level_step (rev (queueCommands ?s)) (levels ?s) (address (e5 CMD_SET 3)) = 2"
    by (simp add: busy_manager_def level_step_def cmd_level_def exec_value_def address_def e5_def MAX_VALUE_def)
  ultimately show ?thesis by (auto simp: busy_manager_def)
qed

end
