(* ===== verification/X10_Bus.thy ===== *)
theory X10_Bus
  imports X10_Interface
begin

text \<open>
  The two ends of the bus. \<open>common/X10DbusInterface.h\<close> turns a call of a client into a message,
  a name with its arguments; \<open>controller/service/X10DbusAdaptor.cpp\<close> turns the message into a call
  of a slot of the service's object. Both files were written by \<open>qdbusxml2cpp\<close>. Between them is
  \<open>QtDBus\<close>, which selects a method by its name and the types of its arguments.
\<close>

section \<open>The interface object of a client\<close>

fun iface_message :: "bus_call \<Rightarrow> string \<times> QVariant list" where
  "iface_message B_AllOff = (''AllOff'', [])"
| "iface_message B_AllOn = (''AllOn'', [])"
| "iface_message (B_GetProperty name) = (''GetProperty'', [QV_String name])"
| "iface_message (B_GetValue source) = (''GetValue'', [QV_String source])"
| "iface_message B_Quit = (''Quit'', [])"
| "iface_message B_Reload = (''Reload'', [])"
| "iface_message B_Restart = (''Restart'', [])"
| "iface_message (B_Send ch u command) = (''Send'', [QV_String ch, QV_UInt u, QV_String command])"
| "iface_message (B_Set ch u v) = (''Set'', [QV_String ch, QV_UInt u, QV_Int v])"
| "iface_message (B_SetProperty name v) = (''SetProperty'', [QV_String name, QV_String v])"
| "iface_message B_Start = (''Start'', [])"
| "iface_message B_Stop = (''Stop'', [])"

section \<open>The adaptor of the service\<close>

text \<open>The method a message selects, with the arguments it hands on; no method is an error reply.\<close>

definition adaptor_method :: "string \<Rightarrow> QVariant list \<Rightarrow> bus_call option" where
  "adaptor_method name args =
     (case args of
        [] \<Rightarrow>
          (if name = ''AllOff'' then Some B_AllOff
           else if name = ''AllOn'' then Some B_AllOn
           else if name = ''Quit'' then Some B_Quit
           else if name = ''Reload'' then Some B_Reload
           else if name = ''Restart'' then Some B_Restart
           else if name = ''Start'' then Some B_Start
           else if name = ''Stop'' then Some B_Stop
           else None)
      | [QV_String s] \<Rightarrow>
          (if name = ''GetProperty'' then Some (B_GetProperty s)
           else if name = ''GetValue'' then Some (B_GetValue s)
           else None)
      | [QV_String n, QV_String v] \<Rightarrow> (if name = ''SetProperty'' then Some (B_SetProperty n v) else None)
      | [QV_String ch, QV_UInt u, QV_String c] \<Rightarrow> (if name = ''Send'' then Some (B_Send ch u c) else None)
      | [QV_String ch, QV_UInt u, QV_Int v] \<Rightarrow> (if name = ''Set'' then Some (B_Set ch u v) else None)
      | _ \<Rightarrow> None)"

lemma adaptor_interface: "adaptor_method (fst (iface_message c)) (snd (iface_message c)) = Some c"
  by (cases c) (simp_all add: adaptor_method_def)

end
