(* ===== verification/X10_Daemon.thy ===== *)
theory X10_Daemon
  imports X10_Bus
begin

text \<open>
  The process of the service, \<open>controller/service/x10dbusservice.cpp\<close>: its main thread with the
  slots of the object on the bus, its program, and the thread of the queue manager as seen
  by \<open>QThread\<close>. \<open>X10_Worker\<close> has the thread at work; here it also begins and ends, and the main
  thread waits for it.
\<close>

section \<open>The two threads\<close>

text \<open>
  The thread of the queue manager: not running, started but not yet in \<open>run\<close>, in its loop, behind
  the loop with the status already set. For \<open>QThread\<close> it runs in all but the first.
\<close>

datatype thread_state = T_Idle | T_Begun | T_Loop | T_Ending

text \<open>
  The main thread: in its event loop, in the wait of \<open>QueueManager::Stop\<close> with what follows it, in
  the sleep of \<open>OnQM_Exit\<close>, or told to exit.
\<close>

datatype pause = P_Stop | P_Restart | P_Quit

datatype main_state = M_Events | M_Waiting pause | M_Sleeping | M_Gone

record daemon =
  dw :: world
  dini :: qsettings
  dfiles :: "string \<Rightarrow> string option"
  dthread :: thread_state
  dmain :: main_state
  dfinished :: nat

abbreviation dq :: "daemon \<Rightarrow> QueueManager" where
  "dq d \<equiv> wq (dw d)"

definition set_dq :: "QueueManager \<Rightarrow> daemon \<Rightarrow> daemon" where
  "set_dq s d = d\<lparr>dw := (dw d)\<lparr>wq := s\<rparr>\<rparr>"

definition daemon_start :: "qt_number \<Rightarrow> qsettings \<Rightarrow> bool \<Rightarrow> daemon" where
  "daemon_start q ini garbage =
     \<lparr>dw = world_start q ini garbage, dini = ini, dfiles = (\<lambda>_. None), dthread = T_Idle,
      dmain = M_Events, dfinished = 0\<rparr>"

text \<open>\<open>QThread::isRunning\<close> and \<open>QThread::start\<close>, which does nothing to a running thread.\<close>

definition thread_running :: "daemon \<Rightarrow> bool" where
  "thread_running d \<longleftrightarrow> dthread d \<noteq> T_Idle"

definition qm_Start :: "daemon \<Rightarrow> daemon" where
  "qm_Start d = (if thread_running d then d else d\<lparr>dthread := T_Begun\<rparr>)"

section \<open>Slots that concern the thread\<close>

text \<open>What the slots do behind \<open>QueueManager::Stop\<close>.\<close>

fun after_stop :: "pause \<Rightarrow> daemon \<Rightarrow> daemon" where
  "after_stop P_Stop d = d\<lparr>dmain := M_Events\<rparr>"
| "after_stop P_Restart d = (qm_Start d)\<lparr>dmain := M_Events\<rparr>"
| "after_stop P_Quit d = d\<lparr>dmain := M_Gone\<rparr>"

definition stop_then :: "pause \<Rightarrow> daemon \<Rightarrow> daemon" where
  "stop_then p d =
     (if qm_status (dq d) = QM_STOPPED \<or> qm_status (dq d) = QM_STOPPING then after_stop p d
      else (set_dq (qm_Stop (dq d)) d)\<lparr>dmain := M_Waiting p\<rparr>)"

text \<open>One turn of the loop that waits for \<open>QM_STOPPED\<close>.\<close>

definition stop_wait :: "pause \<Rightarrow> daemon \<Rightarrow> daemon" where
  "stop_wait p d =
     (if qm_status (dq d) \<noteq> QM_STOPPED then set_dq ((dq d)\<lparr>isRunning := False\<rparr>) d else after_stop p d)"

definition svc_Start :: "daemon \<Rightarrow> daemon" where
  "svc_Start d = (if \<not> thread_running d then qm_Start d else d)"

definition svc_Stop :: "daemon \<Rightarrow> daemon" where
  "svc_Stop d = (if thread_running d then stop_then P_Stop d else d)"

definition svc_Restart :: "daemon \<Rightarrow> daemon" where
  "svc_Restart d = stop_then P_Restart d"

definition svc_Quit :: "daemon \<Rightarrow> daemon" where
  "svc_Quit d = (if thread_running d then stop_then P_Quit d else d\<lparr>dmain := M_Gone\<rparr>)"

text \<open>
  The handler of SIGTERM, SIGINT, SIGABRT and SIGHUP. It is taken to run where the main thread
  sits, in its event loop.
\<close>

definition sighandler :: "daemon \<Rightarrow> daemon" where
  "sighandler d = svc_Quit d"

text \<open>\<open>OnQM_Exit\<close>, called for a queued signal \<open>finished\<close>: it sleeps and then looks at the status.\<close>

definition OnQM_Exit :: "daemon \<Rightarrow> daemon" where
  "OnQM_Exit d = d\<lparr>dfinished := dfinished d - 1, dmain := M_Sleeping\<rparr>"

definition OnQM_Exit_awake :: "daemon \<Rightarrow> daemon" where
  "OnQM_Exit_awake d = d\<lparr>dmain := (if qm_status (dq d) = QM_STOPPED then M_Gone else M_Events)\<rparr>"

section \<open>Calls from the bus\<close>

text \<open>
  What surrounds a slot: the bound on the depth of calls, Qt's reading of numbers, the time zone,
  the clock and the file system.
\<close>

record slot_env =
  sl_depth :: nat
  sl_number :: qt_number
  sl_now :: int
  sl_zone :: "int \<Rightarrow> tm"
  sl_clock :: "nat \<Rightarrow> int"
  sl_writable :: "string \<Rightarrow> bool"
  sl_rules :: "string \<Rightarrow> string list option"

fun slot_call :: "slot_env \<Rightarrow> bus_call \<Rightarrow> daemon \<Rightarrow> (bus_reply \<times> svc_event list \<times> daemon) option" where
  "slot_call se (B_Send ch u c) d =
     map_option (\<lambda>s. (Reply, [], set_dq s d))
       (svc_Send (sl_depth se) (sl_number se) (sl_now se) ch u c (dq d))"
| "slot_call se (B_Set ch u v) d =
     map_option (\<lambda>s. (Reply, [], set_dq s d))
       (svc_Set (sl_depth se) (sl_number se) (sl_now se) ch u v (dq d))"
| "slot_call se B_AllOn d =
     map_option (\<lambda>s. (Reply, [], set_dq s d)) (svc_AllOn (sl_depth se) (sl_number se) (sl_now se) (dq d))"
| "slot_call se B_AllOff d =
     map_option (\<lambda>s. (Reply, [], set_dq s d)) (svc_AllOff (sl_depth se) (sl_number se) (sl_now se) (dq d))"
| "slot_call se (B_GetValue source) d =
     (let (v, s) = svc_GetValue (sl_number se) source (dq d) in Some (Reply_int v, [], set_dq s d))"
| "slot_call se (B_GetProperty name) d = Some (Reply_string (svc_GetProperty name (dq d)), [], d)"
| "slot_call se (B_SetProperty name v) d =
     (let (evs, ini, files, s) =
            svc_SetProperty (sl_number se) (sl_zone se) (sl_clock se) (sl_writable se) name v
              (dini d) (dfiles d) (dq d)
      in Some (Reply, evs, (set_dq s d)\<lparr>dini := ini, dfiles := files\<rparr>))"
| "slot_call se B_Reload d =
     Some (Reply, [], set_dq (qm_Reload (sl_number se) (sl_zone se) (sl_clock se) (dini d) (sl_rules se) (dq d)) d)"
| "slot_call se B_Start d = Some (Reply, [], svc_Start d)"
| "slot_call se B_Stop d = Some (Reply, [], svc_Stop d)"
| "slot_call se B_Restart d = Some (Reply, [], svc_Restart d)"
| "slot_call se B_Quit d = Some (Reply, [], svc_Quit d)"

text \<open>A message on its way: to its method and through the slot. An unknown one is an error reply.\<close>

definition bus_message ::
    "slot_env \<Rightarrow> bus_call \<Rightarrow> daemon \<Rightarrow> (bus_reply \<times> svc_event list \<times> daemon) option" where
  "bus_message se c d =
     (let (name, args) = iface_message c
      in case adaptor_method name args of
           None \<Rightarrow> Some (NoReply, [], d)
         | Some c' \<Rightarrow> slot_call se c' d)"

lemma bus_message_slot [simp]: "bus_message se c d = slot_call se c d"
  using adaptor_interface [of c] by (simp add: bus_message_def case_prod_beta)

section \<open>The thread's moves\<close>

text \<open>
  What the outside gives to one move: the result and the output of \<open>x10_recv\<close>, the result of
  \<open>X10Controller::Load\<close> and the clock.
\<close>

record move_input =
  mi_result :: int
  mi_received :: x10_ha_command
  mi_load :: bool
  mi_now :: int

text \<open>\<open>QueueManager::run\<close> as a machine: the next move of a thread in its loop.\<close>

fun worker_move :: "move_input \<Rightarrow> world \<Rightarrow> world" where
  "worker_move i w =
     (case wplace w of
        W_Off \<Rightarrow> w
      | W_Head \<Rightarrow>
          (if isRunning (wq w) then w\<lparr>wplace := W_Inner 0\<rparr>
           else w\<lparr>wq := worker_leave (wq w), wplace := W_Off\<rparr>)
      | W_Inner n \<Rightarrow>
          (if isRunning (wq w) \<and> queueCommands (wq w) = []
           then let (brk, n', s) = worker_receive (mi_result i) (mi_received i) n (wq w)
                in w\<lparr>wq := s, wplace := (if brk then W_After n' else W_Inner n')\<rparr>
           else w\<lparr>wplace := W_After n\<rparr>)
      | W_After n \<Rightarrow>
          (if n > MAX_ERRORS (qm_config (wq w))
           then let (brk, s) = worker_reload (mi_load i) (wq w)
                in if brk then w\<lparr>wq := worker_leave s, wplace := W_Off\<rparr> else w\<lparr>wq := s, wplace := W_Head\<rparr>
           else let (c, s) = worker_fetch (mi_now i) (wq w)
                in w\<lparr>wq := s, wplace := (case c of None \<Rightarrow> W_Head | Some cmd \<Rightarrow> W_Exec cmd)\<rparr>)
      | W_Exec cmd \<Rightarrow>
          (let (x, s) = worker_exec cmd (wq w)
           in w\<lparr>wq := s, wplace := W_Head,
                wsent := wsent w @ (case x of None \<Rightarrow> [] | Some c \<Rightarrow> [c])\<rparr>))"

declare worker_move.simps [simp del]

lemma worker_move_step:
  assumes "wplace w \<noteq> W_Off"
  shows "wstep q lt w (worker_move i w)"
proof (cases "wplace w")
  case W_Off
  with assms show ?thesis by simp
next
  case W_Head
  then show ?thesis by (auto simp: worker_move.simps intro: wstep.head wstep.leave)
next
  case (W_Inner n)
  obtain brk n' s where "worker_receive (mi_result i) (mi_received i) n (wq w) = (brk, n', s)"
    using prod_cases3 by blast
  with W_Inner show ?thesis
    using wstep.receive [of w n "mi_result i" "mi_received i" brk n' s q lt]
    by (auto simp: worker_move.simps intro: wstep.ready)
next
  case (W_After n)
  obtain brk s where "worker_reload (mi_load i) (wq w) = (brk, s)" by fastforce
  moreover obtain c t where "worker_fetch (mi_now i) (wq w) = (c, t)" by fastforce
  ultimately show ?thesis
    using W_After
    by (cases brk) (auto simp: worker_move.simps not_less intro: wstep.reload wstep.give_up wstep.fetch)
next
  case (W_Exec cmd)
  obtain x s where "worker_exec cmd (wq w) = (x, s)" by fastforce
  with W_Exec show ?thesis by (auto simp: worker_move.simps intro: wstep.exec)
qed

section \<open>The process\<close>

text \<open>
  A step of one of the threads of itself: the thread of the queue manager begins, moves and ends,
  the main thread waits, sleeps and takes a queued \<open>finished\<close>. The main thread takes a call from the bus, a timer or a queued
  \<open>finished\<close> only in its event loop; the calls that queue commands take the queue's mutex.
  An address with a blank in it, which the service would accept, is left out (see
  \<open>X10_Worker\<close>). After \<open>M_Gone\<close> the process is taken down (\<open>X10_Shutdown\<close>).
\<close>

definition call_allowed :: "bus_call \<Rightarrow> daemon \<Rightarrow> bool" where
  "call_allowed c d \<longleftrightarrow>
     (case c of
        B_Send ch u s \<Rightarrow> unlocked (wplace (dw d))
      | B_Set ch u v \<Rightarrow> unlocked (wplace (dw d))
      | B_AllOn \<Rightarrow> unlocked (wplace (dw d))
      | B_AllOff \<Rightarrow> unlocked (wplace (dw d))
      | B_GetValue source \<Rightarrow> CHR '' '' \<notin> set source
      | _ \<Rightarrow> True)"

inductive own_step :: "qt_number \<Rightarrow> (int \<Rightarrow> tm) \<Rightarrow> daemon \<Rightarrow> daemon \<Rightarrow> bool"
  for q lt where
  begin_run: "dmain d \<noteq> M_Gone \<Longrightarrow> dthread d = T_Begun \<Longrightarrow>
    own_step q lt d (d\<lparr>dw := (dw d)\<lparr>wq := worker_enter q lt clk file ok (dq d), wplace := W_Head\<rparr>,
                      dthread := T_Loop\<rparr>)"
| work: "dmain d \<noteq> M_Gone \<Longrightarrow> dthread d = T_Loop \<Longrightarrow> worker_move i (dw d) = w' \<Longrightarrow>
    own_step q lt d (d\<lparr>dw := w', dthread := (if wplace w' = W_Off then T_Ending else T_Loop)\<rparr>)"
| finish: "dmain d \<noteq> M_Gone \<Longrightarrow> dthread d = T_Ending \<Longrightarrow>
    own_step q lt d (d\<lparr>dthread := T_Idle, dfinished := Suc (dfinished d)\<rparr>)"
| finished: "dmain d = M_Events \<Longrightarrow> dfinished d > 0 \<Longrightarrow> own_step q lt d (OnQM_Exit d)"
| awake: "dmain d = M_Sleeping \<Longrightarrow> own_step q lt d (OnQM_Exit_awake d)"
| wait: "dmain d = M_Waiting p \<Longrightarrow> own_step q lt d (stop_wait p d)"

text \<open>With the clients and the timer.\<close>

inductive dstep :: "qt_number \<Rightarrow> (int \<Rightarrow> tm) \<Rightarrow> daemon \<Rightarrow> daemon \<Rightarrow> bool"
  for q lt where
  own: "own_step q lt d d' \<Longrightarrow> dstep q lt d d'"
| call: "dmain d = M_Events \<Longrightarrow> call_allowed c d \<Longrightarrow> sl_number se = q \<Longrightarrow> sl_zone se = lt \<Longrightarrow>
    bus_message se c d = Some (r, evs, d') \<Longrightarrow> dstep q lt d d'"
| signal: "dmain d = M_Events \<Longrightarrow> dstep q lt d (sighandler d)"
| timer: "dmain d = M_Events \<Longrightarrow> onEndTimerRuleNeedExec lt now clk (ruleManager (dq d)) = (rs, rm) \<Longrightarrow>
    dstep q lt d (set_dq ((dq d)\<lparr>ruleManager := rm\<rparr>) d)"
| rule: "dmain d = M_Events \<Longrightarrow> unlocked (wplace (dw d)) \<Longrightarrow>
    on_RuleExecute depth q now r (dq d) = Some s \<Longrightarrow> dstep q lt d (set_dq s d)"

text \<open>The service is started right after the program's preparations (\<open>daemon_main\<close> below).\<close>

inductive dreachable :: "qt_number \<Rightarrow> (int \<Rightarrow> tm) \<Rightarrow> qsettings \<Rightarrow> bool \<Rightarrow> daemon \<Rightarrow> bool"
  for q lt ini garbage where
  begin_service: "dreachable q lt ini garbage (svc_Start (daemon_start q ini garbage))"
| go: "dreachable q lt ini garbage d \<Longrightarrow> dstep q lt d d' \<Longrightarrow> dreachable q lt ini garbage d'"

section \<open>The program\<close>

text \<open>
  \<open>main\<close>, up to the event loop: what the system answers to \<open>fork\<close>, \<open>setsid\<close> and \<open>chdir\<close>; the log files
  that are set in turn, the connection, and the exit code or the service at work.
\<close>

record system_answers =
  fork_pid :: int
  setsid_result :: int
  chdir_result :: int

datatype outcome = Exits int | Serves

definition demonise :: "system_answers \<Rightarrow> outcome" where
  "demonise sys =
     (if fork_pid sys < 0 then Exits 1
      else if fork_pid sys > 0 then Exits 0
      else if setsid_result sys < 0 then Exits 1
      else if chdir_result sys < 0 then Exits 1
      else Serves)"

definition daemon_main ::
    "bus_answers \<Rightarrow> Config \<Rightarrow> Bus \<Rightarrow> system_answers \<Rightarrow> string list \<Rightarrow> string list \<times> Bus \<times> outcome" where
  "daemon_main a config b sys args =
     (case parse_daemon_args args False [] of
        DaemonHelp \<Rightarrow> ([], b, Exits 0)
      | DaemonArgs demonize logs \<Rightarrow>
          (let (ok, b) = RegisterDBusService a config b
           in (logs, b, if \<not> ok then Exits 1 else if demonize then demonise sys else Serves)))"

text \<open>
  Of the two processes that a fork leaves, the child is the one that serves; without a connection
  and a name on the bus there is no service.
\<close>

lemma child_serves:
  assumes "daemon_main a config b sys args = (logs, b', Serves)"
  shows "connects a \<and> registers_service a \<and> registers_object a \<and> bus_connected b'
     \<and> ((\<forall>l. parse_daemon_args args False [] \<noteq> DaemonArgs False l) \<longrightarrow> fork_pid sys = 0)"
  using assms
  by (auto simp: daemon_main_def RegisterDBusService_def demonise_def Let_def
      split: daemon_args.splits if_splits)

end
