(* ===== verification/X10_Promise.thy ===== *)
theory X10_Promise
  imports X10_Levels X10_Daemon
begin

text \<open>
  The levels that the service has promised: what the commands it has taken make of the levels it
  reports. A command of a client changes the promise as the command says; no move of the thread
  changes it, wherever the moves come between the calls of the clients; and once the thread has
  nothing left to do the promise is what the containers hold.
\<close>

definition pending :: "world \<Rightarrow> COMMAND list" where
  "pending w = (case wplace w of W_Exec cmd \<Rightarrow> [cmd] | _ \<Rightarrow> []) @ rev (queueCommands (wq w))"

definition promised :: "world \<Rightarrow> string \<Rightarrow> int" where
  "promised w = fold level_step (pending w) (levels (wq w))"

lemma promise_kept: "pending w = [] \<Longrightarrow> promised w = levels (wq w)"
  by (simp add: promised_def)

text \<open>A call on the controller that brings neither a command nor an error.\<close>

definition quiet :: "move_input \<Rightarrow> bool" where
  "quiet i \<longleftrightarrow> mi_result i = 0 \<or> mi_result i = -110"

definition calm_place :: "place \<Rightarrow> bool" where
  "calm_place p \<longleftrightarrow> (case p of
       W_Head \<Rightarrow> True | W_Inner n \<Rightarrow> n = 0 | W_After n \<Rightarrow> n = 0
     | W_Exec cmd \<Rightarrow> concrete (channel cmd) (cunit cmd) | W_Off \<Rightarrow> False)"

text \<open>A running service with commands for real units, without the smart queue.\<close>

definition calm :: "qt_number \<Rightarrow> world \<Rightarrow> bool" where
  "calm q w \<longleftrightarrow> qm_ok q (wq w) \<and> isRunning (wq w) \<and> \<not> SMART_QUEUE (qm_config (wq w))
     \<and> 0 \<le> MAX_ERRORS (qm_config (wq w)) \<and> calm_place (wplace w)
     \<and> (\<forall>c \<in> set (queueCommands (wq w)). concrete (channel c) (cunit c))"

lemma calmD:
  assumes "calm q w"
  shows "qm_ok q (wq w)" and "isRunning (wq w)" and "\<not> SMART_QUEUE (qm_config (wq w))"
    and "0 \<le> MAX_ERRORS (qm_config (wq w))" and "calm_place (wplace w)"
    and "c \<in> set (queueCommands (wq w)) \<Longrightarrow> concrete (channel c) (cunit c)"
  using assms by (simp_all add: calm_def)

section \<open>The fetch of a command\<close>

lemma set_next_last: "level_ok v \<Longrightarrow> level_ok cur \<Longrightarrow> set_next v cur = (True, l) \<Longrightarrow> l = v"
  by (auto simp: set_next_eq level_ok_def MAX_VALUE_def split: if_splits)

lemma next_command_none:
  "next_command now cmd cur = (n, None) \<Longrightarrow> ctype cmd = CMD_SET \<Longrightarrow> n = 0 \<and> cur = cvalue cmd"
  by (auto simp: next_command_def Let_def split: if_splits)

lemma next_command_some:
  assumes "next_command now cmd cur = (n, Some d)" and "ctype cmd = CMD_SET" and "level_ok (cvalue cmd)" and "level_ok cur"
  shows "channel d = channel cmd" and "cunit d = cunit cmd" and "ctype d \<noteq> CMD_SET" and "0 < n"
    and "n \<le> 1 \<Longrightarrow> cmd_level d cur = cvalue cmd"
  using assms
  by (auto simp: next_command_def Let_def cmd_level_def exec_value_def level_ok_def MAX_VALUE_def split: if_splits)

lemma worker_fetch_set:
  assumes s: "qm_ok q s" and run: "isRunning s" and last: "queueCommands s = others @ [cmd]"
    and set: "ctype cmd = CMD_SET" and f: "worker_fetch now s = (c, s1)"
  shows "fold level_step ((case c of None \<Rightarrow> [] | Some d \<Rightarrow> [d]) @ rev (queueCommands s1)) (levels s)
      = fold level_step (rev (queueCommands s)) (levels s)"
proof -
  let ?a = "address cmd"
  define cur where "cur = levels s ?a"
  have inv: "st_inv (Containers s)" using s by (simp add: qm_okD(1) containers_okD(1))
  have cur: "container_value (CheckContainerExist ?a (Containers s)) ?a = cur"
    using CheckContainerExist_value [OF inv] by (simp add: cur_def)
  have lcur: "level_ok cur" unfolding cur_def by (rule container_value_ok [OF qm_okD(1) [OF s]])
  have lv: "level_ok (cvalue cmd)" using qm_okD(3) [OF s, of cmd] last set by (simp add: cmd_ok_def)
  obtain n i where n: "next_command now cmd cur = (n, i)" by fastforce
  show ?thesis
  proof (cases i)
    case None
    then have n0: "n = 0" and v: "cur = cvalue cmd" using next_command_none n set by blast+
    have "c = None" and "queueCommands s1 = others"
      using f run last set None n0
      by (auto simp: worker_fetch_def GetNextCommand_def address_nonempty cur n)
    moreover have "level_step cmd (levels s) = levels s"
      unfolding level_step_def cmd_level_set [OF set] v [symmetric] cur_def by (rule fun_upd_triv)
    ultimately show ?thesis using last by simp
  next
    case (Some d)
    note d = next_command_some [OF n [unfolded Some] set lv lcur]
    have ad: "address (d\<lparr>notified := True\<rparr>) = ?a" using d(1,2) by (simp add: address_def)
    have c: "c = Some (d\<lparr>notified := True\<rparr>)"
      and q1: "queueCommands s1 = (if n \<le> 1 then others else others @ [cmd\<lparr>notified := True\<rparr>])"
      using f run last set d(4) Some
      by (auto simp: worker_fetch_def GetNextCommand_def address_nonempty cur n qm_emit_def)
    have lvl: "cmd_level (d\<lparr>notified := True\<rparr>) cur = cmd_level d cur"
      unfolding cmd_level_def by (subst exec_value_shape [of "d\<lparr>notified := True\<rparr>" d]) simp_all
    have set': "ctype (cmd\<lparr>notified := True\<rparr>) = CMD_SET" and ad': "address (cmd\<lparr>notified := True\<rparr>) = ?a"
      using set by (simp_all add: address_def)
    have "level_step cmd (levels s) = (levels s)(?a := cvalue cmd)"
      by (simp add: level_step_def cmd_level_set [OF set])
    moreover have "level_step (d\<lparr>notified := True\<rparr>) (levels s) = (levels s)(?a := cmd_level d cur)"
      by (simp add: level_step_def ad lvl [unfolded cur_def] cur_def)
    ultimately show ?thesis
      using c q1 last d(5)
      by (simp add: level_step_def [of "cmd\<lparr>notified := True\<rparr>"] ad' cmd_level_set [OF set'])
  qed
qed

section \<open>A move of the thread keeps the promise\<close>

lemma worker_receive_quiet: "quiet i \<Longrightarrow> worker_receive (mi_result i) x n s = (False, n, s)"
  by (auto simp: worker_receive_def quiet_def)

lemma fetch_cases:
  assumes s: "qm_ok q s" and f: "worker_fetch now s = (c, s1)" and run: "isRunning s"
  shows "queueCommands s = [] \<and> c = None \<and> s1 = s \<or>
    (\<exists>others cmd. queueCommands s = others @ [cmd] \<and> set (queueCommands s1) \<subseteq> set others \<union> range (\<lambda>b. cmd\<lparr>notified := b\<rparr>)
       \<and> (\<forall>d. c = Some d \<longrightarrow> channel d = channel cmd \<and> cunit d = cunit cmd))"
proof (cases "queueCommands s" rule: rev_cases)
  case Nil
  with f show ?thesis by (simp add: worker_fetch_def)
next
  case (snoc others cmd)
  have same: "cmd \<in> range (\<lambda>b. cmd\<lparr>notified := b\<rparr>)" using notified_ex by blast
  have "set (queueCommands s1) \<subseteq> set others \<union> range (\<lambda>b. cmd\<lparr>notified := b\<rparr>)"
    using f run snoc same
    by (auto simp: worker_fetch_def Let_def qm_emit_def split: if_splits prod.splits)
  moreover have "channel d = channel cmd \<and> cunit d = cunit cmd" if "c = Some d" for d
    using worker_fetch_frame(2) [OF s f that] snoc by auto
  ultimately show ?thesis using snoc by blast
qed

lemma fetched_concrete:
  assumes s: "qm_ok q s" and f: "worker_fetch now s = (c, s1)" and run: "isRunning s"
    and con: "\<And>c. c \<in> set (queueCommands s) \<Longrightarrow> concrete (channel c) (cunit c)"
    and d: "d \<in> set (queueCommands s1) \<or> c = Some d"
  shows "concrete (channel d) (cunit d)"
  using fetch_cases [OF s f run]
proof
  assume "queueCommands s = [] \<and> c = None \<and> s1 = s"
  with d show ?thesis by simp
next
  assume "\<exists>others cmd. queueCommands s = others @ [cmd] \<and> set (queueCommands s1) \<subseteq> set others \<union> range (\<lambda>b. cmd\<lparr>notified := b\<rparr>)
       \<and> (\<forall>d. c = Some d \<longrightarrow> channel d = channel cmd \<and> cunit d = cunit cmd)"
  then obtain others cmd where q: "queueCommands s = others @ [cmd]"
    and sub: "set (queueCommands s1) \<subseteq> set others \<union> range (\<lambda>b. cmd\<lparr>notified := b\<rparr>)"
    and some: "c = Some d \<Longrightarrow> channel d = channel cmd \<and> cunit d = cunit cmd" by blast
  have cmd: "concrete (channel cmd) (cunit cmd)" using con q by simp
  from d show ?thesis
  proof
    assume "c = Some d"
    with some cmd show ?thesis by simp
  next
    assume "d \<in> set (queueCommands s1)"
    with sub consider "d \<in> set others" | b where "d = cmd\<lparr>notified := b\<rparr>" by blast
    then show ?thesis by cases (use con q cmd in simp_all)
  qed
qed

lemma fetch_frame:
  assumes "worker_fetch now s = (c, s1)"
  shows "isRunning s1 = isRunning s" and "qm_config s1 = qm_config s"
  using assms by (auto simp: worker_fetch_def Let_def qm_emit_def split: if_splits prod.splits)

lemma fetch_promise:
  assumes s: "qm_ok q s" and run: "isRunning s" and f: "worker_fetch now s = (c, s1)"
  shows "fold level_step ((case c of None \<Rightarrow> [] | Some d \<Rightarrow> [d]) @ rev (queueCommands s1)) (levels s1)
      = fold level_step (rev (queueCommands s)) (levels s)"
proof (cases "queueCommands s" rule: rev_cases)
  case Nil
  with f show ?thesis by (auto simp: worker_fetch_def)
next
  case (snoc others cmd)
  show ?thesis
  proof (cases "ctype cmd = CMD_SET")
    case True
    then show ?thesis using worker_fetch_set [OF s run snoc True f] worker_fetch_frame(1) [OF s f] by simp
  next
    case False
    with worker_fetch_plain [OF run snoc False, of now] f snoc show ?thesis by auto
  qed
qed

lemma exec_frame:
  assumes "worker_exec cmd s = (x, s1)"
  shows "queueCommands s1 = queueCommands s" and "qm_config s1 = qm_config s" and "isRunning s1 = isRunning s"
  using assms by (auto simp: worker_exec_def qm_emit_def Let_def split: option.splits prod.splits if_splits)

lemma move_keeps_promise:
  assumes q: "qt_number_ok q" and w: "calm q w" and ok: "place_ok (wplace w)" and i: "quiet i"
  shows "calm q (worker_move i w) \<and> place_ok (wplace (worker_move i w)) \<and> promised (worker_move i w) = promised w"
proof -
  have s: "qm_ok q (wq w)" and run: "isRunning (wq w)" and me: "0 \<le> MAX_ERRORS (qm_config (wq w))"
    using calmD [OF w] by auto
  show ?thesis
  proof (cases "wplace w")
    case W_Off
    with w show ?thesis by (simp add: calm_def calm_place_def)
  next
    case W_Head
    with w run show ?thesis
      by (simp add: worker_move.simps calm_def calm_place_def place_ok_def promised_def pending_def)
  next
    case (W_Inner n)
    with w run worker_receive_quiet [OF i] show ?thesis
      by (simp add: worker_move.simps calm_def calm_place_def place_ok_def promised_def pending_def)
  next
    case (W_After n)
    then have n: "\<not> n > MAX_ERRORS (qm_config (wq w))" using w me by (simp add: calm_def calm_place_def)
    obtain c s1 where f: "worker_fetch (mi_now i) (wq w) = (c, s1)" by fastforce
    have m: "worker_move i w = w\<lparr>wq := s1, wplace := (case c of None \<Rightarrow> W_Head | Some cmd \<Rightarrow> W_Exec cmd)\<rparr>"
      using n by (simp add: worker_move.simps W_After f)
    note fo = worker_fetch_ok [OF q s f]
    note con = fetched_concrete [OF s f run calmD(6) [OF w]]
    have "calm q (worker_move i w)"
      using fo(1) fetch_frame [OF f] w con
      by (auto simp: m calm_def calm_place_def split: option.splits)
    moreover have "place_ok (wplace (worker_move i w))"
      using fo(2) by (auto simp: m place_ok_def split: option.splits)
    moreover have "promised (worker_move i w) = promised w"
      using fetch_promise [OF s run f]
      by (cases c) (simp_all add: promised_def pending_def m W_After)
    ultimately show ?thesis by blast
  next
    case (W_Exec cmd)
    obtain x s1 where e: "worker_exec cmd (wq w) = (x, s1)" by fastforce
    have m: "worker_move i w = w\<lparr>wq := s1, wplace := W_Head, wsent := wsent w @ (case x of None \<Rightarrow> [] | Some c \<Rightarrow> [c])\<rparr>"
      by (simp add: worker_move.simps W_Exec e)
    have cmd: "cmd_ok cmd" "concrete (channel cmd) (cunit cmd)"
      using ok w W_Exec by (simp_all add: place_ok_def calm_def calm_place_def)
    note fr = exec_frame [OF e]
    have "calm q (worker_move i w)"
      using worker_exec_ok [OF q s cmd(1) e] fr w by (auto simp: m calm_def calm_place_def)
    moreover have "promised (worker_move i w) = promised w"
      using worker_exec_levels [OF qm_okD(1) [OF s] cmd(2)] fr
      by (simp add: promised_def pending_def m W_Exec e)
    ultimately show ?thesis by (simp add: m place_ok_def)
  qed
qed

section \<open>A command of a client extends the promise\<close>

lemma enqueue_promise:
  assumes "calm q w" and "concrete (channel cmd) (cunit cmd)" and "cmd_ok cmd"
  shows "calm q (w\<lparr>wq := enqueue cmd (wq w)\<rparr>)"
    and "promised (w\<lparr>wq := enqueue cmd (wq w)\<rparr>) = level_step cmd (promised w)"
proof -
  have e: "enqueue cmd (wq w) = (wq w)\<lparr>queueCommands := cmd # queueCommands (wq w)\<rparr>"
    using calmD(3) [OF assms(1)] by (simp add: enqueue_def)
  show "calm q (w\<lparr>wq := enqueue cmd (wq w)\<rparr>)"
    using enqueue_ok [OF calmD(1) [OF assms(1)] assms(3)] assms(1,2) by (auto simp: calm_def e)
  show "promised (w\<lparr>wq := enqueue cmd (wq w)\<rparr>) = level_step cmd (promised w)"
    by (simp add: promised_def pending_def e)
qed

section \<open>The thread comes to rest\<close>

text \<open>Four moves from the head of the loop are a round of \<open>X10_Rounds\<close>.\<close>

lemma four_moves:
  assumes w: "calm q w" and head: "wplace w = W_Head" and queue: "queueCommands (wq w) \<noteq> []"
    and quiet: "list_all quiet is" and len: "4 \<le> length is"
  shows "\<exists>m \<le> 4. 1 \<le> m \<and> fold worker_move (take m is) w =
     w\<lparr>wq := snd (worker_round (mi_now (is ! 2)) (wq w)), wsent := wsent w @ fst (worker_round (mi_now (is ! 2)) (wq w))\<rparr>"
proof -
  obtain i0 i1 i2 i3 "rest" where "is": "is = i0 # i1 # i2 # i3 # rest"
    using len by (auto simp: Suc_le_length_iff eval_nat_numeral)
  note run = calmD(2) [OF w]
  have m0: "worker_move i0 w = w\<lparr>wplace := W_Inner 0\<rparr>" using head run by (simp add: worker_move.simps)
  have m1: "worker_move i1 (w\<lparr>wplace := W_Inner 0\<rparr>) = w\<lparr>wplace := W_After 0\<rparr>"
    using run queue by (simp add: worker_move.simps)
  obtain c s1 where f: "worker_fetch (mi_now i2) (wq w) = (c, s1)" by fastforce
  have m2: "worker_move i2 (w\<lparr>wplace := W_After 0\<rparr>) =
      w\<lparr>wq := s1, wplace := (case c of None \<Rightarrow> W_Head | Some cmd \<Rightarrow> W_Exec cmd)\<rparr>"
    using calmD(4) [OF w] f by (simp add: worker_move.simps)
  show ?thesis
  proof (cases c)
    case None
    then have "fold worker_move (take 3 is) w =
        w\<lparr>wq := snd (worker_round (mi_now (is ! 2)) (wq w)), wsent := wsent w @ fst (worker_round (mi_now (is ! 2)) (wq w))\<rparr>"
      using m0 m1 m2 f head by (simp add: "is" worker_round_def eval_nat_numeral)
    then show ?thesis by (intro exI [of _ 3]) simp
  next
    case (Some cmd)
    obtain x s2 where e: "worker_exec cmd s1 = (x, s2)" by fastforce
    have "worker_move i3 (w\<lparr>wq := s1, wplace := W_Exec cmd\<rparr>) =
        w\<lparr>wq := s2, wplace := W_Head, wsent := wsent w @ (case x of None \<Rightarrow> [] | Some c \<Rightarrow> [c])\<rparr>"
      by (simp add: worker_move.simps e)
    then have "fold worker_move (take 4 is) w =
        w\<lparr>wq := snd (worker_round (mi_now (is ! 2)) (wq w)), wsent := wsent w @ fst (worker_round (mi_now (is ! 2)) (wq w))\<rparr>"
      using m0 m1 m2 f head Some e by (simp add: "is" worker_round_def eval_nat_numeral)
    then show ?thesis by (intro exI [of _ 4]) simp
  qed
qed

lemma moves_calm:
  assumes "qt_number_ok q" and "calm q w" and "place_ok (wplace w)" and "list_all quiet is"
  shows "calm q (fold worker_move is w) \<and> place_ok (wplace (fold worker_move is w))
     \<and> promised (fold worker_move is w) = promised w"
  using assms(2-)
proof (induction "is" arbitrary: w)
  case Nil
  then show ?case by simp
next
  case (Cons i "is")
  have m: "calm q (worker_move i w)" "place_ok (wplace (worker_move i w))" "promised (worker_move i w) = promised w"
    using move_keeps_promise [OF assms(1) Cons.prems(1,2), of i] Cons.prems(3) by simp_all
  with Cons.IH [OF m(1,2)] Cons.prems(3) show ?case by simp
qed

lemma quiet_drop: "list_all quiet is \<Longrightarrow> list_all quiet (drop m is)"
  by (auto simp: list_all_iff dest: in_set_dropD)

lemma quiet_take: "list_all quiet is \<Longrightarrow> list_all quiet (take m is)"
  by (auto simp: list_all_iff dest: in_set_takeD)

lemma fold_take_add: "fold f (take (m + n) xs) s = fold f (take n (drop m xs)) (fold f (take m xs) s)"
  by (simp add: take_add)

text \<open>At the head of the loop with a queue.\<close>

definition at_head :: "qt_number \<Rightarrow> COMMAND list \<Rightarrow> world \<Rightarrow> bool" where
  "at_head q cs w \<longleftrightarrow> calm q w \<and> wplace w = W_Head \<and> queueCommands (wq w) = cs"

lemma one_turn:
  assumes q: "qt_number_ok q" and w: "at_head q (others @ [cmd]) w" and quiet: "list_all quiet is" and len: "4 \<le> length is"
  shows "\<exists>m \<le> 4. \<exists>w'. fold worker_move (take m is) w = w' \<and> calm q w' \<and> wplace w' = W_Head
    \<and> wq w' = snd (worker_round (mi_now (is ! 2)) (wq w))"
proof -
  have c: "calm q w" "wplace w = W_Head" "queueCommands (wq w) \<noteq> []" using w by (auto simp: at_head_def)
  obtain m where m: "m \<le> 4" "fold worker_move (take m is) w =
      w\<lparr>wq := snd (worker_round (mi_now (is ! 2)) (wq w)), wsent := wsent w @ fst (worker_round (mi_now (is ! 2)) (wq w))\<rparr>"
    using four_moves [OF c quiet len] by blast
  have "calm q (fold worker_move (take m is) w)"
    using moves_calm [OF q c(1) _ quiet_take [OF quiet]] c(2) by (simp add: place_ok_def)
  with m c(2) show ?thesis by auto
qed

lemma set_turns:
  assumes q: "qt_number_ok q" and "at_head q (others @ [cmd]) w" and "ctype cmd = CMD_SET"
    and "set_rounds k (cvalue cmd) (levels (wq w) (address cmd)) = Some (n, l)"
    and "list_all quiet is" and "4 * n \<le> length is"
  shows "\<exists>m \<le> 4 * n. at_head q others (fold worker_move (take m is) w)"
  using assms(2-)
proof (induction k arbitrary: w cmd n "is")
  case 0
  then show ?case by simp
next
  case (Suc k)
  obtain fin lvl where plan: "set_next (cvalue cmd) (levels (wq w) (address cmd)) = (fin, lvl)" by fastforce
  have n: "1 \<le> n" using Suc.prems(3) plan by (auto split: if_splits)
  have c: "calm q w" and cs: "queueCommands (wq w) = others @ [cmd]" using Suc.prems(1) by (simp_all add: at_head_def)
  have con: "concrete (channel cmd) (cunit cmd)" using calmD(6) [OF c] cs by simp
  obtain m w1 where m: "m \<le> 4" "fold worker_move (take m is) w = w1" "calm q w1" "wplace w1 = W_Head"
      "wq w1 = snd (worker_round (mi_now (is ! 2)) (wq w))"
    using one_turn [OF q Suc.prems(1,4)] Suc.prems(5) n by auto
  note r = round_set [OF calmD(1,2) [OF c] cs Suc.prems(2) con plan, of "mi_now (is ! 2)", folded m(5)]
  show ?case
  proof (cases fin)
    case True
    then have "at_head q others w1" using m(3,4) r(3) by (auto simp: at_head_def)
    with m(1,2) n show ?thesis by (intro exI [of _ m]) auto
  next
    case False
    then obtain k' where k': "set_rounds k (cvalue cmd) lvl = Some (k', l)" "n = Suc k'"
      using Suc.prems(3) plan by auto
    obtain b where b: "queueCommands (wq w1) = others @ [cmd\<lparr>notified := b\<rparr>]" using r(3) False by auto
    have ad: "address (cmd\<lparr>notified := b\<rparr>) = address cmd" by (simp add: address_def)
    have "\<exists>m' \<le> 4 * k'. at_head q others (fold worker_move (take m' (drop m is)) w1)"
      by (rule Suc.IH [of "cmd\<lparr>notified := b\<rparr>"])
         (use m(1,3,4) b Suc.prems(2,4,5) k' r(1) ad quiet_drop in \<open>simp_all add: at_head_def\<close>)
    then obtain m' where "m' \<le> 4 * k'" "at_head q others (fold worker_move (take (m + m') is) w)"
      unfolding fold_take_add m(2) by blast
    with m(1) k'(2) show ?thesis by (intro exI [of _ "m + m'"]) simp
  qed
qed

lemma drain_at_head:
  assumes q: "qt_number_ok q" and "at_head q cs w" and "list_all quiet is" and "32 * length cs \<le> length is"
  shows "\<exists>m \<le> 32 * length cs. at_head q [] (fold worker_move (take m is) w)"
  using assms(2-)
proof (induction cs arbitrary: w "is" rule: rev_induct)
  case Nil
  then show ?case by (intro exI [of _ 0]) simp
next
  case (snoc cmd others)
  have c: "calm q w" and h: "wplace w = W_Head" and cs: "queueCommands (wq w) = others @ [cmd]"
    using snoc.prems(1) by (simp_all add: at_head_def)
  have con: "concrete (channel cmd) (cunit cmd)" using calmD(6) [OF c] cs by simp
  have "\<exists>m \<le> 32. at_head q others (fold worker_move (take m is) w)"
  proof (cases "ctype cmd = CMD_SET")
    case True
    have "level_ok (cvalue cmd)" using qm_okD(3) [OF calmD(1) [OF c], of cmd] cs True by (simp add: cmd_ok_def)
    moreover have "level_ok (levels (wq w) (address cmd))" by (rule container_value_ok [OF qm_okD(1) [OF calmD(1) [OF c]]])
    ultimately obtain n where n: "n \<le> 8" "set_rounds 8 (cvalue cmd) (levels (wq w) (address cmd)) = Some (n, cvalue cmd)"
      using set_rounds_reach by blast
    have "4 * n \<le> length is" using n(1) snoc.prems(3) by simp
    from set_turns [OF q snoc.prems(1) True n(2) snoc.prems(2) this] obtain m
      where "m \<le> 4 * n" "at_head q others (fold worker_move (take m is) w)" by blast
    with n(1) show ?thesis by (intro exI [of _ m]) simp
  next
    case False
    have "4 \<le> length is" using snoc.prems(3) by simp
    then obtain m w1 where m: "m \<le> 4" "fold worker_move (take m is) w = w1" "calm q w1" "wplace w1 = W_Head"
        "wq w1 = snd (worker_round (mi_now (is ! 2)) (wq w))"
      using one_turn [OF q snoc.prems(1,2)] by blast
    have "queueCommands (wq w1) = others"
      using round_plain(1) [OF calmD(1,2) [OF c] cs False con] m(5) by simp
    with m show ?thesis by (intro exI [of _ m]) (simp add: at_head_def)
  qed
  then obtain m where m: "m \<le> 32" "at_head q others (fold worker_move (take m is) w)" by blast
  have "\<exists>m' \<le> 32 * length others. at_head q [] (fold worker_move (take m' (drop m is)) (fold worker_move (take m is) w))"
    by (rule snoc.IH [OF m(2) quiet_drop [OF snoc.prems(2)]]) (use m(1) snoc.prems(3) in simp)
  then obtain m' where "m' \<le> 32 * length others" "at_head q [] (fold worker_move (take (m + m') is) w)"
    unfolding fold_take_add by blast
  with m(1) show ?case by (intro exI [of _ "m + m'"]) simp
qed

text \<open>From any place the head is reached within four moves, unless the thread has nothing to do.\<close>

lemma reach_head:
  assumes q: "qt_number_ok q" and w: "calm q w" and ok: "place_ok (wplace w)"
    and quiet: "list_all quiet is" and len: "4 \<le> length is"
  shows "pending w = [] \<or> (\<exists>m \<le> 4. wplace (fold worker_move (take m is) w) = W_Head
    \<and> length (queueCommands (wq (fold worker_move (take m is) w))) \<le> length (queueCommands (wq w)))"
proof -
  obtain i0 i1 i2 i3 "rest" where "is": "is = i0 # i1 # i2 # i3 # rest"
    using len by (auto simp: Suc_le_length_iff eval_nat_numeral)
  note run = calmD(2) [OF w]
  have exec: "wplace (worker_move i v) = W_Head \<and> queueCommands (wq (worker_move i v)) = queueCommands (wq v)"
    if "wplace v = W_Exec cmd" for i v cmd
  proof -
    obtain x s where e: "worker_exec cmd (wq v) = (x, s)" by fastforce
    show ?thesis using that exec_frame(1) [OF e] by (simp add: worker_move.simps e)
  qed
  have after: "\<exists>m \<le> 2. wplace (fold worker_move (take m [i, j]) v) = W_Head
      \<and> length (queueCommands (wq (fold worker_move (take m [i, j]) v))) \<le> length (queueCommands (wq v))"
    if v: "wplace v = W_After 0" "wq v = wq w" for i j v
  proof -
    obtain c s where f: "worker_fetch (mi_now i) (wq v) = (c, s)" by fastforce
    have len: "length (queueCommands s) \<le> length (queueCommands (wq v))"
      using f by (auto simp: worker_fetch_def Let_def qm_emit_def split: if_splits prod.splits)
    have m: "worker_move i v = v\<lparr>wq := s, wplace := (case c of None \<Rightarrow> W_Head | Some cmd \<Rightarrow> W_Exec cmd)\<rparr>"
      using calmD(4) [OF w] v by (simp add: worker_move.simps f [unfolded v(2)])
    show ?thesis
    proof (cases c)
      case None
      with m len show ?thesis by (intro exI [of _ 1]) simp
    next
      case (Some cmd)
      with m len exec [of "worker_move i v" cmd j] show ?thesis by (intro exI [of _ 2]) (simp add: eval_nat_numeral)
    qed
  qed
  show ?thesis
  proof (cases "wplace w")
    case W_Off
    with w show ?thesis by (simp add: calm_def calm_place_def)
  next
    case W_Head
    then show ?thesis by (intro disjI2 exI [of _ 0]) simp
  next
    case (W_Inner n)
    then have n: "n = 0" using w by (simp add: calm_def calm_place_def)
    show ?thesis
    proof (cases "queueCommands (wq w)")
      case Nil
      with W_Inner show ?thesis by (simp add: pending_def)
    next
      case (Cons c cs)
      then have m: "worker_move i0 w = w\<lparr>wplace := W_After 0\<rparr>" using W_Inner n by (simp add: worker_move.simps)
      obtain m' where "m' \<le> 2" "wplace (fold worker_move (take m' [i1, i2]) (w\<lparr>wplace := W_After 0\<rparr>)) = W_Head"
          "length (queueCommands (wq (fold worker_move (take m' [i1, i2]) (w\<lparr>wplace := W_After 0\<rparr>))))
             \<le> length (queueCommands (wq w))"
        using after [of "w\<lparr>wplace := W_After 0\<rparr>" i1 i2] by auto
      moreover have "take (Suc m') is = i0 # take m' [i1, i2]" if "m' \<le> 2"
        using that by (auto simp: "is" take_Cons' le_Suc_eq eval_nat_numeral)
      ultimately show ?thesis using m by (intro disjI2 exI [of _ "Suc m'"]) simp
    qed
  next
    case (W_After n)
    then have "wplace w = W_After 0" using w by (simp add: calm_def calm_place_def)
    from after [OF this, of i0 i1] obtain m' where "m' \<le> 2" "wplace (fold worker_move (take m' [i0, i1]) w) = W_Head"
        "length (queueCommands (wq (fold worker_move (take m' [i0, i1]) w))) \<le> length (queueCommands (wq w))"
      by auto
    moreover have "take m' is = take m' [i0, i1]" if "m' \<le> 2"
      using that by (auto simp: "is" take_Cons' le_Suc_eq eval_nat_numeral)
    ultimately show ?thesis by (intro disjI2 exI [of _ m']) simp
  next
    case (W_Exec cmd)
    from exec [OF this, of i0] show ?thesis by (intro disjI2 exI [of _ 1]) (simp add: "is")
  qed
qed

text \<open>The thread, left alone, redeems the promise.\<close>

lemma promise_redeemed:
  assumes q: "qt_number_ok q" and w: "calm q w" and ok: "place_ok (wplace w)"
    and quiet: "list_all quiet is" and len: "32 * length (queueCommands (wq w)) + 4 \<le> length is"
  shows "\<exists>m \<le> 32 * length (queueCommands (wq w)) + 4. pending (fold worker_move (take m is) w) = []
     \<and> levels (wq (fold worker_move (take m is) w)) = promised w"
proof -
  have "\<exists>m \<le> 32 * length (queueCommands (wq w)) + 4. pending (fold worker_move (take m is) w) = []"
  proof (cases "pending w = []")
    case True
    then show ?thesis by (intro exI [of _ 0]) simp
  next
    case False
    then obtain m where m: "m \<le> 4" "wplace (fold worker_move (take m is) w) = W_Head"
        "length (queueCommands (wq (fold worker_move (take m is) w))) \<le> length (queueCommands (wq w))"
      using reach_head [OF q w ok quiet] len by auto
    let ?w = "fold worker_move (take m is) w" and ?cs = "queueCommands (wq (fold worker_move (take m is) w))"
    have "at_head q ?cs ?w" using moves_calm [OF q w ok quiet_take [OF quiet]] m(2) by (simp add: at_head_def)
    moreover have "32 * length ?cs \<le> length (drop m is)" using m(1,3) len by simp
    ultimately obtain m' where m': "m' \<le> 32 * length ?cs" "at_head q [] (fold worker_move (take m' (drop m is)) ?w)"
      using drain_at_head [OF q _ quiet_drop [OF quiet]] by blast
    then have "pending (fold worker_move (take (m + m') is) w) = []"
      unfolding fold_take_add by (simp add: at_head_def pending_def)
    moreover have "m + m' \<le> 32 * length (queueCommands (wq w)) + 4" using m(1,3) m'(1) by simp
    ultimately show ?thesis by blast
  qed
  then obtain m where m: "m \<le> 32 * length (queueCommands (wq w)) + 4" "pending (fold worker_move (take m is) w) = []"
    by blast
  have "promised (fold worker_move (take m is) w) = promised w"
    using moves_calm [OF q w ok quiet_take [OF quiet]] by blast
  with promise_kept [OF m(2)] m show ?thesis by auto
qed

end
