(* ===== verification/X10_Daemon_Laws.thy ===== *)
theory X10_Daemon_Laws
  imports X10_Daemon
begin

text \<open>
  The process of the service: whatever its two threads do is a run of the service as \<open>X10_Worker\<close>
  has it, it exits in the status \<open>QM_STOPPED\<close> only, a stop needs three moves of the thread; and
  how a restart can end it.
\<close>

section \<open>Moves of the thread\<close>

lemma worker_fetch_idle: "\<not> isRunning s \<Longrightarrow> worker_fetch now s = (None, s)"
  by (simp add: worker_fetch_def)

lemma worker_exec_isRunning: "worker_exec cmd s = (x, s') \<Longrightarrow> isRunning s' = isRunning s"
  by (auto simp: worker_exec_def qm_emit_def Let_def split: option.splits prod.splits if_splits)

lemma worker_reload_isRunning: "worker_reload ok s = (b, s') \<Longrightarrow> isRunning s' = isRunning s"
  by (auto simp: worker_reload_def ControllerUnload_def ControllerLoad_def SetStatus_def qm_emit_def Let_def
      split: if_splits)

lemma worker_leave_sel:
  "qm_status (worker_leave s) = QM_STOPPED" "\<not> hasController (worker_leave s)"
  "isRunning (worker_leave s) = isRunning s"
  by (simp_all add: worker_leave_def SetStatus_ctl ControllerUnload_ctl)
     (simp add: SetStatus_def ControllerUnload_def qm_emit_def)

lemma worker_reload_status:
  assumes "worker_reload ok s = (b, s')"
  shows "qm_status s = QM_STOPPING \<Longrightarrow> qm_status s' = QM_STOPPING"
    and "qm_status s \<noteq> QM_STOPPING \<Longrightarrow> qm_status s' \<noteq> QM_STOPPING"
  using assms
  by (auto simp: worker_reload_def Let_def ControllerLoad_ctl ControllerUnload_ctl split: if_splits)

text \<open>A move of a thread that is to stop; the measure is the number of moves that are left.\<close>

fun moves_left :: "place \<Rightarrow> nat" where
  "moves_left W_Off = 0"
| "moves_left W_Head = 1"
| "moves_left (W_Inner n) = 3"
| "moves_left (W_After n) = 2"
| "moves_left (W_Exec cmd) = 2"

lemma move_stopping:
  assumes "\<not> isRunning (wq w)" and "qm_status (wq w) = QM_STOPPING" and "wplace w \<noteq> W_Off"
  shows "\<not> isRunning (wq (worker_move i w)) \<and> moves_left (wplace (worker_move i w)) < moves_left (wplace w)
     \<and> qm_status (wq (worker_move i w)) =
         (if wplace (worker_move i w) = W_Off then QM_STOPPED else QM_STOPPING)
     \<and> (wplace (worker_move i w) = W_Off \<longrightarrow> \<not> hasController (wq (worker_move i w)))"
proof (cases "wplace w")
  case W_Off
  with assms show ?thesis by simp
next
  case W_Head
  with assms show ?thesis by (simp add: worker_move.simps worker_leave_sel)
next
  case (W_Inner n)
  with assms show ?thesis by (simp add: worker_move.simps)
next
  case (W_After n)
  obtain b s where r: "worker_reload (mi_load i) (wq w) = (b, s)" by fastforce
  note frame = worker_reload_isRunning [OF r] worker_reload_status(1) [OF r assms(2)]
  show ?thesis
    using assms W_After frame
    by (cases b) (auto simp: worker_move.simps r worker_fetch_idle worker_leave_sel)
next
  case (W_Exec cmd)
  obtain x s where e: "worker_exec cmd (wq w) = (x, s)" by fastforce
  have "qm_status s = qm_status (wq w)" using worker_ctl(3) [OF e] by (simp add: ctl_def)
  with assms W_Exec worker_exec_isRunning [OF e] show ?thesis by (simp add: worker_move.simps e)
qed

text \<open>A move of a thread that nobody stops.\<close>

lemma move_running:
  assumes "qm_status (wq w) \<noteq> QM_STOPPING"
  shows "qm_status (wq (worker_move i w)) \<noteq> QM_STOPPING
     \<and> (wplace w \<noteq> W_Off \<longrightarrow> wplace (worker_move i w) = W_Off \<longrightarrow> \<not> hasController (wq (worker_move i w)))"
proof (cases "wplace w")
  case W_Off
  with assms show ?thesis by (simp add: worker_move.simps)
next
  case W_Head
  with assms show ?thesis by (simp add: worker_move.simps worker_leave_sel)
next
  case (W_Inner n)
  obtain b n' s where r: "worker_receive (mi_result i) (mi_received i) n (wq w) = (b, n', s)"
    using prod_cases3 by blast
  have "qm_status s = qm_status (wq w)" using worker_ctl(1) [OF r] by (simp add: ctl_def)
  with assms W_Inner show ?thesis by (simp add: worker_move.simps r)
next
  case (W_After n)
  obtain b s where r: "worker_reload (mi_load i) (wq w) = (b, s)" by fastforce
  obtain c t where f: "worker_fetch (mi_now i) (wq w) = (c, t)" by fastforce
  have "qm_status t = qm_status (wq w)" using worker_ctl(2) [OF f] by (simp add: ctl_def)
  with assms W_After worker_reload_status(2) [OF r] show ?thesis
    by (cases b; cases c) (auto simp: worker_move.simps r f worker_leave_sel)
next
  case (W_Exec cmd)
  obtain x s where e: "worker_exec cmd (wq w) = (x, s)" by fastforce
  have "qm_status s = qm_status (wq w)" using worker_ctl(3) [OF e] by (simp add: ctl_def)
  with assms W_Exec show ?thesis by (simp add: worker_move.simps e)
qed

section \<open>The invariant of the process\<close>

text \<open>
  The two threads are in step: while the main thread waits the thread is told to stop, and outside
  its wait nothing is left half stopped.
\<close>

fun main_ok :: "main_state \<Rightarrow> daemon \<Rightarrow> bool" where
  "main_ok (M_Waiting p) d \<longleftrightarrow> dthread d \<noteq> T_Begun \<and>
     (qm_status (dq d) = QM_STOPPED \<or> qm_status (dq d) = QM_STOPPING \<and> \<not> isRunning (dq d))"
| "main_ok M_Gone d \<longleftrightarrow> qm_status (dq d) = QM_STOPPED"
| "main_ok M_Events d \<longleftrightarrow> qm_status (dq d) \<noteq> QM_STOPPING"
| "main_ok M_Sleeping d \<longleftrightarrow> qm_status (dq d) \<noteq> QM_STOPPING"

definition daemon_ok :: "qt_number \<Rightarrow> (int \<Rightarrow> tm) \<Rightarrow> qsettings \<Rightarrow> bool \<Rightarrow> daemon \<Rightarrow> bool" where
  "daemon_ok q lt ini g d \<longleftrightarrow>
     reachable q lt ini g (dw d) \<and> (dthread d = T_Loop \<longleftrightarrow> wplace (dw d) \<noteq> W_Off)
     \<and> (wplace (dw d) = W_Off \<longrightarrow> \<not> hasController (dq d)) \<and> main_ok (dmain d) d"

lemma set_dq_sel [simp]:
  "dq (set_dq s d) = s" "wplace (dw (set_dq s d)) = wplace (dw d)" "dthread (set_dq s d) = dthread d"
  "dmain (set_dq s d) = dmain d" "dfinished (set_dq s d) = dfinished d" "dw (set_dq s d) = (dw d)\<lparr>wq := s\<rparr>"
  by (simp_all add: set_dq_def)

lemma status_stopped:
  assumes "qt_number_ok q" and "reachable q lt ini g w"
  shows "qm_status (wq w) = QM_STOPPED \<longleftrightarrow> wplace w = W_Off"
  using reachable_ok [OF assms(2,1)] by (auto simp: world_ok_def ctl_ok_def ctl_def)

lemma daemon_ok_start: "daemon_ok q lt ini g (svc_Start (daemon_start q ini g))"
  by (simp add: daemon_ok_def svc_Start_def qm_Start_def thread_running_def daemon_start_def
      reachable.init)
     (simp add: world_start_def QueueManager_new_def)

text \<open>A client's change of the queue manager, which leaves the controller and the status alone.\<close>

lemma daemon_ok_client:
  assumes "daemon_ok q lt ini g d" and "dmain d = M_Events" and "ctl s = ctl (dq d)"
    and "reachable q lt ini g ((dw d)\<lparr>wq := s\<rparr>)"
  shows "daemon_ok q lt ini g (set_dq s d)"
proof -
  have "qm_status s = qm_status (dq d)" and "hasController s = hasController (dq d)"
    using assms(3) by (simp_all add: ctl_def)
  with assms show ?thesis by (simp add: daemon_ok_def)
qed

lemma daemon_ok_files [simp]: "daemon_ok q lt ini g (d\<lparr>dini := a, dfiles := b\<rparr>) = daemon_ok q lt ini g d"
  by (cases "dmain d") (simp_all add: daemon_ok_def)

lemma daemon_ok_after_stop:
  assumes "daemon_ok q lt ini g d" and "qm_status (dq d) = QM_STOPPED"
  shows "daemon_ok q lt ini g (after_stop p d)"
  using assms
  by (cases p) (auto simp: daemon_ok_def qm_Start_def thread_running_def)

lemma daemon_ok_stop_then:
  assumes "daemon_ok q lt ini g d" and "dmain d = M_Events" and q: "qt_number_ok q"
  shows "daemon_ok q lt ini g (stop_then p d)"
proof (cases "qm_status (dq d) = QM_STOPPED")
  case True
  then show ?thesis using daemon_ok_after_stop [OF assms(1)] by (simp add: stop_then_def)
next
  case False
  have r: "reachable q lt ini g (dw d)" using assms(1) by (simp add: daemon_ok_def)
  have st: "qm_status (dq d) \<noteq> QM_STOPPING" using assms(1,2) by (simp add: daemon_ok_def)
  have "dthread d = T_Loop"
    using False status_stopped [OF q r] assms(1) by (simp add: daemon_ok_def)
  moreover have "reachable q lt ini g ((dw d)\<lparr>wq := qm_Stop (dq d)\<rparr>)"
    by (rule reachable.step [OF r wstep.stop])
  ultimately show ?thesis
    using assms(1) False st
    by (simp add: stop_then_def daemon_ok_def) (simp add: qm_Stop_def SetStatus_def qm_emit_def)
qed

text \<open>The calls from the bus.\<close>

lemma to_upper_no_blank:
  assumes "CHR '' '' \<notin> set s"
  shows "CHR '' '' \<notin> set (to_upper s)"
proof
  assume "CHR '' '' \<in> set (to_upper s)"
  then obtain c where c: "c \<in> set s" "upper_char c = CHR '' ''" by (metis to_upper_def image_iff list.set_map)
  have "c = CHR '' ''" using upper_char_keeps [of "CHR '' ''" c] c(2) by simp
  with c(1) assms show False by blast
qed

lemma slot_call_ok:
  assumes d: "daemon_ok q lt ini g d" and main: "dmain d = M_Events" and q: "qt_number_ok q"
    and allowed: "call_allowed c d" and se: "sl_number se = q" "sl_zone se = lt"
    and c: "slot_call se c d = Some (r, evs, d')"
  shows "daemon_ok q lt ini g d'"
proof -
  have r: "reachable q lt ini g (dw d)" using d by (simp add: daemon_ok_def)
  have "daemon_ok q lt ini g (set_dq s d)"
    if "wstep q lt (dw d) ((dw d)\<lparr>wq := s\<rparr>)" "ctl s = ctl (dq d)" for s
    by (rule daemon_ok_client [OF d main that(2) reachable.step [OF r that(1)]])
  note client = this
  show ?thesis
  proof (cases c)
    case (B_Send ch u t)
    then obtain s where s: "svc_Send (sl_depth se) q (sl_now se) ch u t (dq d) = Some s" and d': "d' = set_dq s d"
      using c se by auto
    have "ctl s = ctl (dq d)"
      using s by (auto simp: svc_Send_def QueueCommand_new_def split: if_splits option.splits dest: QueueCommand_ctl)
    moreover have "reachable q lt ini g ((dw d)\<lparr>wq := s\<rparr>)"
      by (rule bus_calls_stay_reachable [OF r]) (use s allowed B_Send in \<open>auto simp: call_allowed_def\<close>)
    ultimately show ?thesis using daemon_ok_client [OF d main] d' by simp
  next
    case (B_Set ch u v)
    then obtain s where s: "svc_Set (sl_depth se) q (sl_now se) ch u v (dq d) = Some s" and d': "d' = set_dq s d"
      using c se by auto
    have "ctl s = ctl (dq d)"
      using s by (auto simp: svc_Set_def QueueCommand_new_def split: if_splits option.splits dest: QueueCommand_ctl)
    moreover have "reachable q lt ini g ((dw d)\<lparr>wq := s\<rparr>)"
      by (rule bus_calls_stay_reachable [OF r]) (use s allowed B_Set in \<open>auto simp: call_allowed_def\<close>)
    ultimately show ?thesis using daemon_ok_client [OF d main] d' by simp
  next
    case B_AllOn
    with c se allowed client show ?thesis
      by (auto simp: svc_AllOn_def call_allowed_def intro: wstep.set_all SetAllTo_ctl)
  next
    case B_AllOff
    with c se allowed client show ?thesis
      by (auto simp: svc_AllOff_def call_allowed_def intro: wstep.set_all SetAllTo_ctl)
  next
    case (B_GetValue source)
    have plain: "CHR '' '' \<notin> set (to_upper source)"
      using allowed B_GetValue by (intro to_upper_no_blank) (simp add: call_allowed_def)
    have "ctl s = ctl (dq d)" if "qm_GetValue q (to_upper source) (dq d) = (v, s)" for v s
      using that by (rule client_ctl(1))
    moreover have "wstep q lt (dw d) ((dw d)\<lparr>wq := s\<rparr>)" if "qm_GetValue q (to_upper source) (dq d) = (v, s)" for v s
      using plain that by (rule wstep.get_value)
    ultimately show ?thesis
      using B_GetValue c se client by (auto simp: svc_GetValue_def split: prod.splits)
  next
    case (B_SetProperty n v)
    obtain ok ini' files' s where p: "qm_SetProperty q lt (sl_clock se) (sl_writable se) n (QV_String v)
        (dini d) (dfiles d) (dq d) = (ok, ini', files', s)"
      by (metis prod_cases4)
    have "d' = (set_dq s d)\<lparr>dini := ini', dfiles := files'\<rparr>"
      using c by (simp add: B_SetProperty svc_SetProperty_def se p)
    then show ?thesis using client [OF wstep.set_property [OF p] client_ctl(2) [OF p]] by simp
  next
    case B_Reload
    with c se client client_ctl(3) wstep.reload_config show ?thesis by auto
  next
    case B_Stop
    with c d daemon_ok_stop_then [OF d main q] show ?thesis by (auto simp: svc_Stop_def)
  next
    case B_Restart
    with c daemon_ok_stop_then [OF d main q] show ?thesis by (auto simp: svc_Restart_def)
  next
    case B_Quit
    show ?thesis
    proof (cases "dthread d = T_Idle")
      case True
      then have "qm_status (dq d) = QM_STOPPED" using d status_stopped [OF q r] by (simp add: daemon_ok_def)
      with True B_Quit c d show ?thesis by (auto simp: svc_Quit_def thread_running_def daemon_ok_def)
    next
      case False
      with B_Quit c daemon_ok_stop_then [OF d main q] show ?thesis
        by (auto simp: svc_Quit_def thread_running_def)
    qed
  qed (use c d main in \<open>auto simp: svc_Start_def qm_Start_def thread_running_def daemon_ok_def split: if_splits\<close>)
qed

lemma own_step_ok:
  assumes "own_step q lt d d'" and d: "daemon_ok q lt ini g d" and q: "qt_number_ok q"
  shows "daemon_ok q lt ini g d'"
proof -
  have r: "reachable q lt ini g (dw d)" and loop: "dthread d = T_Loop \<longleftrightarrow> wplace (dw d) \<noteq> W_Off"
    and main: "main_ok (dmain d) d"
    using d by (simp_all add: daemon_ok_def)
  from assms(1) show ?thesis
  proof cases
    case (begin_run clk fl ok)
    let ?s = "worker_enter q lt clk fl ok (dq d)"
    have off: "wplace (dw d) = W_Off" using loop begin_run by simp
    have "reachable q lt ini g ((dw d)\<lparr>wq := ?s, wplace := W_Head\<rparr>)"
      by (rule reachable.step [OF r wstep.enter [OF off]])
    moreover have "qm_status ?s \<noteq> QM_STOPPING"
      by (auto simp: worker_enter_def Let_def ControllerLoad_ctl SetStatus_ctl)
    ultimately show ?thesis
      using begin_run main by (cases "dmain d") (auto simp: daemon_ok_def)
  next
    case (work i w')
    have on: "wplace (dw d) \<noteq> W_Off" using loop work by simp
    have r': "reachable q lt ini g w'"
      using reachable.step [OF r worker_move_step [OF on, of q lt i]] work by simp
    show ?thesis
    proof (cases "\<exists>p. dmain d = M_Waiting p")
      case True
      then have "qm_status (dq d) = QM_STOPPING" and "\<not> isRunning (dq d)"
        using main status_stopped [OF q r] on by auto
      from move_stopping [OF this(2,1) on, of i] True r' work show ?thesis
        by (auto simp: daemon_ok_def)
    next
      case False
      then have "qm_status (dq d) \<noteq> QM_STOPPING" using main work by (cases "dmain d") auto
      from move_running [OF this, of i] False r' work on show ?thesis
        by (cases "dmain d") (auto simp: daemon_ok_def)
    qed
  next
    case finish
    with d show ?thesis by (cases "dmain d") (auto simp: daemon_ok_def)
  next
    case finished
    with d show ?thesis by (simp add: OnQM_Exit_def daemon_ok_def)
  next
    case awake
    with d show ?thesis by (simp add: OnQM_Exit_awake_def daemon_ok_def)
  next
    case (wait p)
    show ?thesis
    proof (cases "qm_status (dq d) = QM_STOPPED")
      case True
      then show ?thesis using daemon_ok_after_stop [OF d True, of p] wait by (simp add: stop_wait_def)
    next
      case False
      then have "(dq d)\<lparr>isRunning := False\<rparr> = dq d" using main wait by simp
      then have "d' = d" using wait False by (simp add: stop_wait_def set_dq_def)
      with d show ?thesis by simp
    qed
  qed
qed

lemma dstep_ok:
  assumes "dstep q lt d d'" and d: "daemon_ok q lt ini g d" and q: "qt_number_ok q"
  shows "daemon_ok q lt ini g d'"
proof -
  have r: "reachable q lt ini g (dw d)" using d by (simp add: daemon_ok_def)
  from assms(1) show ?thesis
  proof cases
    case own
    then show ?thesis by (rule own_step_ok [OF _ d q])
  next
    case (call c se r evs)
    then show ?thesis using slot_call_ok [OF d _ q] by simp
  next
    case signal
    have s: "slot_call \<lparr>sl_depth = 0, sl_number = q, sl_now = 0, sl_zone = lt, sl_clock = (\<lambda>_. 0),
        sl_writable = (\<lambda>_. False), sl_rules = (\<lambda>_. None)\<rparr> B_Quit d = Some (Reply, [], d')"
      using signal by (simp add: sighandler_def)
    from slot_call_ok [OF d signal(2) q _ _ _ s] show ?thesis by (simp add: call_allowed_def)
  next
    case (timer now clk rs rm)
    show ?thesis
      using daemon_ok_client [OF d _ client_ctl(4) reachable.step [OF r wstep.rule_timer [OF timer(3)]]] timer
      by simp
  next
    case (rule depth now r' s)
    show ?thesis
      using daemon_ok_client [OF d _ on_RuleExecute_ctl [OF rule(4)]
          reachable.step [OF r wstep.rule_execute [OF rule(3,4)]]] rule
      by simp
  qed
qed

lemma dreachable_ok:
  assumes "dreachable q lt ini g d" and "qt_number_ok q"
  shows "daemon_ok q lt ini g d"
  using assms by (induction rule: dreachable.induct) (auto intro: daemon_ok_start dstep_ok)

section \<open>Stopping\<close>

lemma moves_stopping:
  assumes "\<not> isRunning (wq w)" and "qm_status (wq w) = QM_STOPPING" and "wplace w \<noteq> W_Off"
    and "moves_left (wplace w) \<le> length is"
  shows "wplace (fold worker_move is w) = W_Off \<and> qm_status (wq (fold worker_move is w)) = QM_STOPPED
     \<and> \<not> hasController (wq (fold worker_move is w))"
  using assms
proof (induction "is" arbitrary: w)
  case Nil
  then show ?case by (cases "wplace w") simp_all
next
  case (Cons i "is")
  note m = move_stopping [OF Cons.prems(1-3), of i]
  have off: "fold worker_move js v = v" if "wplace v = W_Off" for js v
    using that by (induction js) (simp_all add: worker_move.simps)
  show ?case
  proof (cases "wplace (worker_move i w) = W_Off")
    case True
    with m off [OF True, of "is"] show ?thesis by simp
  next
    case False
    have "moves_left (wplace (worker_move i w)) \<le> length is" using m Cons.prems(4) by simp
    with Cons.IH [of "worker_move i w"] m False show ?thesis by simp
  qed
qed

lemma moves_left_three: "moves_left p \<le> 3"
  by (cases p) simp_all

text \<open>The waiting main thread lets the thread come to its end.\<close>

lemma run_to_the_end:
  assumes "dmain d = M_Waiting p" and "dthread d = T_Loop" and "wplace (dw d) \<noteq> W_Off"
    and "\<not> isRunning (dq d)" and "qm_status (dq d) = QM_STOPPING"
  shows "\<exists>w. (own_step q lt)\<^sup>*\<^sup>* d (d\<lparr>dw := w, dthread := T_Ending\<rparr>) \<and> qm_status (wq w) = QM_STOPPED"
  using assms
proof (induction "moves_left (wplace (dw d))" arbitrary: d rule: less_induct)
  case less
  obtain i :: move_input where "True" by simp
  let ?w = "worker_move i (dw d)"
  note m = move_stopping [OF less.prems(4,5,3), of i]
  let ?d = "d\<lparr>dw := ?w, dthread := (if wplace ?w = W_Off then T_Ending else T_Loop)\<rparr>"
  have s: "own_step q lt d ?d" using less.prems by (intro own_step.work) simp_all
  show ?case
  proof (cases "wplace ?w = W_Off")
    case True
    with s m show ?thesis by (intro exI [of _ ?w]) auto
  next
    case False
    have "\<exists>w. (own_step q lt)\<^sup>*\<^sup>* ?d (?d\<lparr>dw := w, dthread := T_Ending\<rparr>) \<and> qm_status (wq w) = QM_STOPPED"
      by (rule less.hyps) (use m False less.prems in simp_all)
    then show ?thesis using converse_rtranclp_into_rtranclp [where r = "own_step q lt", OF s] False by auto
  qed
qed

section \<open>Properties\<close>

text \<open>C15: whatever the clients, the timer and the two threads do, the queue manager is in a state
  that the model of the service has, and the process exits only with its thread out of its loop
  and the controller released; no client ever reads the status \<open>Stopping\<close>.\<close>

theorem process_runs_the_service:
  assumes "qt_number_ok q" and "dreachable q lt ini g d"
  shows "reachable q lt ini g (dw d)
    \<and> (dthread d = T_Loop \<longleftrightarrow> qm_status (dq d) \<noteq> QM_STOPPED)
    \<and> (dmain d = M_Gone \<longrightarrow> qm_status (dq d) = QM_STOPPED \<and> \<not> hasController (dq d))
    \<and> (dmain d = M_Events \<longrightarrow> svc_GetProperty PROPERTY_STATUS (dq d) \<noteq> ''Stopping'')"
proof -
  have ok: "daemon_ok q lt ini g d" by (rule dreachable_ok [OF assms(2,1)])
  then have st: "qm_status (dq d) = QM_STOPPED \<longleftrightarrow> wplace (dw d) = W_Off"
    using status_stopped [OF assms(1), of lt ini g] by (simp add: daemon_ok_def)
  have "StatusToStr s \<noteq> ''Stopping''" if "s \<noteq> QM_STOPPING" for s
    using that by (cases s) simp_all
  with ok st show ?thesis by (auto simp: daemon_ok_def svc_GetProperty_def StatusStr_def)
qed

definition begun_daemon :: daemon where
  "begun_daemon = svc_Start (daemon_start std_number (\<lambda>_ _. None) False)"

definition running_daemon :: daemon where
  "running_daemon = begun_daemon\<lparr>dw := second_world, dthread := T_Loop\<rparr>"

lemma running_sel:
  "dmain running_daemon = M_Events" "dthread running_daemon = T_Loop" "dw running_daemon = second_world"
  "dfinished running_daemon = 0"
  by (simp_all add: running_daemon_def begun_daemon_def svc_Start_def qm_Start_def thread_running_def
      daemon_start_def)

lemma running_reachable: "dreachable std_number (civil 0) (\<lambda>_ _. None) False running_daemon"
proof -
  have "dmain begun_daemon \<noteq> M_Gone" and "dthread begun_daemon = T_Begun" and w: "dw begun_daemon = first_world"
    by (simp_all add: begun_daemon_def svc_Start_def qm_Start_def thread_running_def daemon_start_def
        first_world_def)
  then have "own_step std_number (civil 0) begun_daemon running_daemon"
    using own_step.begin_run [of begun_daemon std_number "civil 0" "\<lambda>_. 0" "\<lambda>_. None" True]
    by (simp add: running_daemon_def second_world_def)
  then show ?thesis
    using dreachable.go [OF dreachable.begin_service dstep.own] by (simp add: begun_daemon_def)
qed

theorem process_runs_the_service_witness:
  "svc_GetProperty PROPERTY_STATUS (wq second_world) \<noteq> ''Stopping''
     \<and> qm_status (wq second_world) \<noteq> QM_STOPPED"
  using process_runs_the_service [OF std_number_ok running_reachable] by (simp add: running_sel)

text \<open>C16: the wait of \<open>Stop\<close>, behind a stop, a restart or a quit, ends: three moves of the thread,
  whatever it receives and wherever it is, bring it out of its loop with the controller released,
  and the next turn of the wait goes on. Until then the turns of the wait change nothing.\<close>

theorem stop_needs_three_moves:
  assumes "qt_number_ok q" and "dreachable q lt ini g d" and "dmain d = M_Waiting p"
    and "qm_status (dq d) \<noteq> QM_STOPPED" and "3 \<le> length is"
  shows "stop_wait p d = d \<and>
    (let w = fold worker_move is (dw d); d' = d\<lparr>dw := w, dthread := T_Ending\<rparr>
     in wplace w = W_Off \<and> \<not> hasController (wq w) \<and> stop_wait p d' = after_stop p d'
      \<and> dmain (after_stop p d') = (if p = P_Quit then M_Gone else M_Events))"
proof -
  have ok: "daemon_ok q lt ini g d" by (rule dreachable_ok [OF assms(2,1)])
  then have run: "\<not> isRunning (dq d)" and st: "qm_status (dq d) = QM_STOPPING"
    using assms(3,4) by (auto simp: daemon_ok_def)
  have "reachable q lt ini g (dw d)" using ok by (simp add: daemon_ok_def)
  then have on: "wplace (dw d) \<noteq> W_Off" using status_stopped [OF assms(1)] assms(4) by blast
  have "moves_left (wplace (dw d)) \<le> length is" using moves_left_three [of "wplace (dw d)"] assms(5) by simp
  note m = moves_stopping [OF run st on this]
  have "(dq d)\<lparr>isRunning := False\<rparr> = dq d" using run by simp
  then have "stop_wait p d = d" using assms(4) by (simp add: stop_wait_def set_dq_def)
  then show ?thesis
    using m by (cases p) (simp_all add: Let_def stop_wait_def qm_Start_def thread_running_def)
qed

definition quitting_daemon :: daemon where
  "quitting_daemon = svc_Quit running_daemon"

lemma running_status: "qm_status (dq running_daemon) = QM_STARTED"
  by (simp add: running_sel second_world_def worker_enter_def ControllerLoad_ctl SetStatus_ctl Let_def)

definition sample_slots :: slot_env where
  "sample_slots = \<lparr>sl_depth = 1, sl_number = std_number, sl_now = 0, sl_zone = civil 0, sl_clock = (\<lambda>_. 0),
     sl_writable = (\<lambda>_. False), sl_rules = (\<lambda>_. None)\<rparr>"

theorem stop_needs_three_moves_witness:
  "\<forall>i. wplace (fold worker_move (replicate 3 i) (dw quitting_daemon)) = W_Off"
proof
  fix i
  have "dstep std_number (civil 0) running_daemon quitting_daemon"
    using dstep.call [of running_daemon B_Quit sample_slots std_number "civil 0" Reply "[]" quitting_daemon]
    by (simp add: running_sel(1) call_allowed_def sample_slots_def quitting_daemon_def)
  then have r: "dreachable std_number (civil 0) (\<lambda>_ _. None) False quitting_daemon"
    by (rule dreachable.go [OF running_reachable])
  have m: "dmain quitting_daemon = M_Waiting P_Quit" and "qm_status (dq quitting_daemon) = QM_STOPPING"
    using running_status
    by (simp_all add: quitting_daemon_def svc_Quit_def thread_running_def running_sel stop_then_def
        qm_Stop_def SetStatus_def qm_emit_def)
  then show "wplace (fold worker_move (replicate 3 i) (dw quitting_daemon)) = W_Off"
    using stop_needs_three_moves [OF std_number_ok r m, of "replicate 3 i"] by (simp add: Let_def)
qed



text \<open>A stop that comes between the start of the thread and its first step does nothing: the
  status is still \<open>Stopped\<close>, and the thread goes on to run.\<close>

lemma early_stop_is_lost:
  assumes "qt_number_ok q" and "dreachable q lt ini g d" and "dmain d = M_Events" and "dthread d = T_Begun"
  shows "svc_Stop d = d \<and> (\<exists>d'. own_step q lt (svc_Stop d) d' \<and> isRunning (dq d'))"
proof -
  have ok: "daemon_ok q lt ini g d" by (rule dreachable_ok [OF assms(2,1)])
  have "reachable q lt ini g (dw d)" and "wplace (dw d) = W_Off" using ok assms(4) by (simp_all add: daemon_ok_def)
  then have "qm_status (dq d) = QM_STOPPED" using status_stopped [OF assms(1)] by blast
  then have s: "svc_Stop d = d"
    using assms(3) by (simp add: svc_Stop_def stop_then_def)
  have "own_step q lt d (d\<lparr>dw := (dw d)\<lparr>wq := worker_enter q lt (\<lambda>_. 0) (\<lambda>_. None) True (dq d), wplace := W_Head\<rparr>,
                          dthread := T_Loop\<rparr>)"
    by (rule own_step.begin_run) (use assms in simp_all)
  then show ?thesis
    unfolding s by (intro conjI refl exI) (auto simp: worker_enter_def ControllerLoad_def SetStatus_def qm_emit_def Let_def)
qed

end
