(* ===== verification/X10_Path.thy ===== *)
theory X10_Path
  imports X10_Control_Laws X10_Promise X10_Daemon_Laws
begin

text \<open>
  The way of a command from a control on the desktop to the level of its unit in the service:
  \<open>control-widget.cpp\<close> starts a job, \<open>job.cpp\<close> makes it a call, \<open>X10DbusInterface.h\<close> and
  \<open>X10DbusAdaptor.cpp\<close> carry the call to its slot, \<open>x10dbusservice.cpp\<close> queues a command, and the
  thread of \<open>queue-manager.cpp\<close> executes it.
\<close>

section \<open>From the control to the bus\<close>

text \<open>The operation a control starts, with its parameters.\<close>

fun control_operation :: "widget_job \<Rightarrow> string" where
  "control_operation (JobSet a v) = ''Set''"
| "control_operation (JobSend a t) = ''Send''"

fun control_parameters :: "widget_job \<Rightarrow> (string \<times> QVariant) list" where
  "control_parameters (JobSet a v) = [(''Value'', QV_Int v)]"
| "control_parameters (JobSend a t) = [(''Command'', QV_String [cmd_char t])]"

text \<open>
  \<open>serviceForSource\<close> and \<open>startOperationCall\<close>: the job is made by the service of the unit and runs
  at once. \<open>None\<close> is a null access.
\<close>

definition control_job :: "nat \<Rightarrow> engine_env \<Rightarrow> widget_job \<Rightarrow> X10Engine \<Rightarrow> X10Engine option" where
  "control_job depth env j e = do {
     (s, e) \<leftarrow> serviceForSource depth env (job_source j) e;
     s \<leftarrow> s;
     job \<leftarrow> createJob s (control_operation j) (control_parameters j);
     (acts, e) \<leftarrow> job_start env job e;
     Some e
   }"

text \<open>The call that comes out for the unit \<open>u\<close> of the house \<open>ch\<close>.\<close>

fun job_bus_call :: "Channel \<Rightarrow> Unit \<Rightarrow> widget_job \<Rightarrow> bus_call" where
  "job_bus_call ch u (JobSet a v) = B_Set [ch] u v"
| "job_bus_call ch u (JobSend a t) = B_Send [ch] u [cmd_char t]"

abbreviation ask_status :: bus_call where
  "ask_status \<equiv> B_GetProperty PROPERTY_STATUS"

lemma job_call_calls:
  assumes "m_dbusInterface (m_dbus e)"
  shows "\<exists>acts e' n. job_call env c text e = Some (acts, e') \<and> talks e e'
    \<and> calls (m_dbus e') = calls (m_dbus e) @ c # replicate n ask_status"
proof -
  obtain r e1 where 1: "engine_call env c e = Some (r, e1)" "talks e e1"
      "calls (m_dbus e1) = calls (m_dbus e) @ [c]"
    using engine_call_Some [OF assms] by blast
  obtain e2 n where 2: "engine_Reconnect env e1 = Some (True, e2)" "talks e1 e2"
      "calls (m_dbus e2) = calls (m_dbus e1) @ replicate n ask_status"
    using engine_Reconnect_Some [OF talks_dbus [OF 1(2)], of env] by (auto simp: only_asks_def)
  show ?thesis
  proof (cases "r = NoReply")
    case True
    with 1 2 talks_trans [OF 1(2) 2(2)] show ?thesis
      by (intro exI [of _ "[SetError Failed, SetResult ''DBUS Down'']"] exI [of _ e2] exI [of _ n])
         (simp add: job_call_def CheckResult_def)
  next
    case False
    with 1 show ?thesis
      by (intro exI [of _ "[SetResult text]"] exI [of _ e1] exI [of _ 0]) (simp add: job_call_def CheckResult_def)
  qed
qed

lemma unit_text:
  assumes "qt_number_ok q" and "concrete ch u"
  shows "toInt q (dec_int u) = Some u" and "wrapu32 u = u" and "wrap32 u = u"
proof -
  have u: "1 \<le> u" "u \<le> 16" using assms(2) by (simp_all add: concrete_def)
  then have "in_int u" by (simp add: in_int_def INT_MIN_def INT_MAX_def)
  with assms(1) show "toInt q (dec_int u) = Some u" by (rule qt_number_okD)
  from u show "wrapu32 u = u" and "wrap32 u = u" by (simp_all add: wrapu32_def wrap32_def)
qed

lemma control_job_operation:
  assumes q: "qt_number_ok (e_number env)" and con: "concrete ch u" and j: "job_ok j"
    and d: "destination s = ch # dec_int u"
  shows "\<exists>msg. job_operation env \<lparr>j_service = s, operationName = control_operation j, parameters = control_parameters j\<rparr> e
    = job_call env (job_bus_call ch u j) msg e"
proof -
  note u = unit_text [OF q con]
  have src: "sourceToAddress (e_number env) (ch # dec_int u) ch0 u0 = (True, ch, u)" for ch0 u0
    using sourceToAddress_addr_str [OF q con] addr_str_concrete [OF con] by simp
  show ?thesis
  proof (cases j)
    case (JobSet a v)
    then have "isValidValue (e_number env) (QV_Int v)" using j by (simp add: isValidValue_def level_ok_def)
    with JobSet show ?thesis
      by (intro exI [of _ "''Set''"]) (simp add: job_operation_def d src param_def qv_toInt_of_def u)
  next
    case (JobSend a t)
    have "isValidCommand (QV_String [cmd_char t])" by (subst isValidCommand_iff) blast
    with JobSend show ?thesis
      by (intro exI [of _ "''Sent''"])
         (simp add: job_operation_def d src param_def qv_toInt_of_def qv_toString_def is_string_def u)
  qed
qed

lemma control_job_calls:
  assumes inv: "engine_inv env e" and q: "qt_number_ok (e_number env)" and con: "concrete ch u"
    and a: "job_source j = ch # dec_int u" and c: "st_find (eContainers e) (job_source j) = Some c" and j: "job_ok j"
  shows "\<exists>e' n. control_job depth env j e = Some e' \<and> engine_inv env e' \<and> eContainers e' = eContainers e
    \<and> calls (m_dbus e') = calls (m_dbus e) @ job_bus_call ch u j # replicate n ask_status"
proof -
  let ?a = "ch # dec_int u" and ?q = "e_number env"
  have valid: "isValidAddress ?q ?a"
    using isValidAddress_addr_str [OF q con] addr_str_concrete [OF con] by simp
  have name: "objectName c = ?a" using engine_invD(3) [OF inv c] a by simp
  have s: "serviceForSource depth env ?a e = Some (Some (X10Service_new ?a), e)"
    using valid c a name by (simp add: serviceForSource_def EngineContainer_service_def)
  let ?job = "\<lparr>j_service = X10Service_new ?a, operationName = control_operation j, parameters = control_parameters j\<rparr>"
  have job: "createJob (X10Service_new ?a) (control_operation j) (control_parameters j) = Some ?job"
    by (simp add: createJob_def X10Service_new_sel)
  have "isOperationEnabled (X10Service_new ?a) (control_operation j)" "control_operation j \<noteq> ''Start''"
    using unit_service_ready [of ?a] by (cases j; simp)+
  moreover obtain msg where "job_operation env ?job e = job_call env (job_bus_call ch u j) msg e"
    using control_job_operation [OF q con j] X10Service_new_sel(1) by blast
  moreover obtain acts e' n where e': "job_call env (job_bus_call ch u j) msg e = Some (acts, e')" "talks e e'"
      "calls (m_dbus e') = calls (m_dbus e) @ job_bus_call ch u j # replicate n ask_status"
    using job_call_calls [OF engine_invD(2) [OF inv]] by blast
  ultimately have "job_start env ?job e = Some (acts @ [EmitResult], e')" by (simp add: job_start_def)
  then have "control_job depth env j e = Some e'"
    by (simp add: control_job_def a s job)
  with e' talks_inv [OF e'(2) inv] show ?thesis by (auto simp: talks_def)
qed

text \<open>The jobs of a control, one after the other.\<close>

lemma control_jobs_calls:
  assumes "engine_inv env e" and q: "qt_number_ok (e_number env)" and con: "concrete ch u"
    and "st_find (eContainers e) (ch # dec_int u) \<noteq> None"
    and "list_all job_ok js" and "list_all (\<lambda>j. job_source j = ch # dec_int u) js"
  shows "\<exists>e' cs. fold_opt (control_job depth env) js e = Some e' \<and> calls (m_dbus e') = calls (m_dbus e) @ cs
    \<and> filter (\<lambda>c. c \<noteq> ask_status) cs = map (job_bus_call ch u) js"
  using assms
proof (induction js arbitrary: e)
  case Nil
  then show ?case by simp
next
  case (Cons j js)
  obtain c where c: "st_find (eContainers e) (ch # dec_int u) = Some c" using Cons.prems(4) by blast
  have "job_source j = ch # dec_int u" and "job_ok j" using Cons.prems(5,6) by simp_all
  with c control_job_calls [OF Cons.prems(1) q con, of j c depth] obtain e1 n where
    1: "control_job depth env j e = Some e1" "engine_inv env e1" "eContainers e1 = eContainers e"
      "calls (m_dbus e1) = calls (m_dbus e) @ job_bus_call ch u j # replicate n ask_status"
    by auto
  obtain e2 cs where 2: "fold_opt (control_job depth env) js e1 = Some e2"
      "calls (m_dbus e2) = calls (m_dbus e1) @ cs" "filter (\<lambda>c. c \<noteq> ask_status) cs = map (job_bus_call ch u) js"
    using Cons.IH [OF 1(2) q con] Cons.prems(4-6) 1(3) by auto
  have "job_bus_call ch u j \<noteq> ask_status" by (cases j) simp_all
  with 1 2 show ?case
    by (intro exI [of _ e2] exI [of _ "job_bus_call ch u j # replicate n ask_status @ cs"]) simp
qed

section \<open>From the bus to the queue\<close>

text \<open>The command a call queues.\<close>

fun job_cmd :: "int \<Rightarrow> Channel \<Rightarrow> Unit \<Rightarrow> widget_job \<Rightarrow> COMMAND" where
  "job_cmd now ch u (JobSet a v) = COMMAND_new now ch u CMD_SET v"
| "job_cmd now ch u (JobSend a t) = COMMAND_new now ch u t (-1)"

lemma job_cmd_sel [simp]:
  "channel (job_cmd now ch u j) = ch" "cunit (job_cmd now ch u j) = u" "address (job_cmd now ch u j) = addr_str ch u"
  by (cases j; simp add: address_def)+

lemma job_cmd_ok:
  assumes "concrete ch u" and "job_ok j"
  shows "cmd_ok (job_cmd now ch u j)"
  using assms by (cases j) (auto simp: cmd_ok_def chan_ok_def concrete_def)

lemma job_call_slot:
  assumes con: "concrete ch u" and j: "job_ok j" and depth: "0 < sl_depth se" and q: "qt_number_ok (sl_number se)"
  shows "slot_call se (job_bus_call ch u j) d =
    Some (Reply, [], set_dq (enqueue (job_cmd (sl_now se) ch u j) (dq d)) d)"
proof -
  obtain n where n: "sl_depth se = Suc n" using depth by (cases "sl_depth se") auto
  have ch: "house_letter ch" and u: "1 \<le> u" "u \<le> 16" using con by (simp_all add: concrete_def)
  have valid: "isValidChannel (QV_String [ch])" "isValidUnit (sl_number se) (QV_UInt u)" "to_upper [ch] ! 0 = ch"
    using ch u unit_text(3) [OF q con]
    by (simp_all add: isValidChannel_def isValidUnit_def to_upper_def house_letter_upper)
  have queue: "QueueCommand (sl_depth se) (sl_number se) (sl_now se) (job_cmd (sl_now se) ch u j) s =
      Some (enqueue (job_cmd (sl_now se) ch u j) s)" for s
    using house_letter_not_star [OF ch] u by (simp add: n QueueCommand.simps)
  show ?thesis
  proof (cases j)
    case (JobSet a v)
    then have "isValidValue (sl_number se) (QV_Int v)" using j by (simp add: isValidValue_def level_ok_def)
    with JobSet valid queue unit_text(3) [OF q con] show ?thesis
      by (simp add: svc_Set_def QueueCommand_new_def)
  next
    case (JobSend a t)
    have "isValidCommand (QV_String [cmd_char t])" by (subst isValidCommand_iff) blast
    with JobSend valid queue unit_text(3) [OF q con] show ?thesis
      by (simp add: svc_Send_def QueueCommand_new_def)
  qed
qed

section \<open>The calls among the moves of the thread\<close>

text \<open>
  The calls of a client are served in order, the moves of the thread come anywhere between them;
  the controller is quiet and nobody else calls.
\<close>

inductive path_run :: "slot_env \<Rightarrow> bus_call list \<Rightarrow> daemon \<Rightarrow> daemon \<Rightarrow> bool" for se where
  served: "path_run se [] d d"
| thread: "quiet i \<Longrightarrow> path_run se cs (d\<lparr>dw := worker_move i (dw d)\<rparr>) d' \<Longrightarrow> path_run se cs d d'"
| client: "call_allowed c d \<Longrightarrow> bus_message se c d = Some (r, evs, d1) \<Longrightarrow> path_run se cs d1 d' \<Longrightarrow>
    path_run se (c # cs) d d'"

lemma path_promise:
  assumes "path_run se cs d d'" and con: "concrete ch u" and depth: "0 < sl_depth se"
    and q: "qt_number_ok (sl_number se)"
    and "filter (\<lambda>c. c \<noteq> ask_status) cs = map (job_bus_call ch u) js" and "list_all job_ok js"
    and "calm (sl_number se) (dw d)" and "place_ok (wplace (dw d))"
  shows "calm (sl_number se) (dw d') \<and> place_ok (wplace (dw d'))
    \<and> promised (dw d') = fold level_step (map (job_cmd (sl_now se) ch u) js) (promised (dw d))"
  using assms(1,5-)
proof (induction arbitrary: js rule: path_run.induct)
  case (served d)
  then show ?case by simp
next
  case (thread i cs d d')
  note m = move_keeps_promise [OF q thread.prems(3,4) thread.hyps(1)]
  show ?case using thread.IH [OF thread.prems(1,2)] m by simp
next
  case (client c d r evs d1 cs d')
  show ?case
  proof (cases "c = ask_status")
    case True
    then have "d1 = d" using client.hyps(2) by simp
    with client.IH client.prems True show ?thesis by simp
  next
    case False
    then obtain j js' where j: "js = j # js'" "c = job_bus_call ch u j"
        "filter (\<lambda>c. c \<noteq> ask_status) cs = map (job_bus_call ch u) js'"
      using client.prems(1) by (cases js) auto
    have jok: "job_ok j" "list_all job_ok js'" using client.prems(2) j(1) by simp_all
    let ?cmd = "job_cmd (sl_now se) ch u j"
    have d1: "d1 = set_dq (enqueue ?cmd (dq d)) d"
      using client.hyps(2) job_call_slot [OF con jok(1) depth q, of d] j(2) by simp
    have "concrete (channel ?cmd) (cunit ?cmd)" using con by simp
    note e = enqueue_promise [OF client.prems(3) this job_cmd_ok [OF con jok(1)]]
    have "dw d1 = (dw d)\<lparr>wq := enqueue ?cmd (dq d)\<rparr>" by (simp add: d1 set_dq_def)
    then show ?thesis
      using client.IH [OF j(3) jok(2)] e client.prems(4) j(1) by simp
  qed
qed

text \<open>There are such runs.\<close>

lemma calls_served:
  assumes con: "concrete ch u" and depth: "0 < sl_depth se" and q: "qt_number_ok (sl_number se)"
    and "unlocked (wplace (dw d))" and "list_all job_ok js"
    and "filter (\<lambda>c. c \<noteq> ask_status) cs = map (job_bus_call ch u) js"
  shows "\<exists>d'. path_run se cs d d'"
  using assms(4-)
proof (induction cs arbitrary: d js)
  case Nil
  show ?case using path_run.served by blast
next
  case (Cons c cs)
  show ?case
  proof (cases "c = ask_status")
    case True
    then have "bus_message se c d = Some (Reply_string (svc_GetProperty PROPERTY_STATUS (dq d)), [], d)"
      by simp
    moreover have "call_allowed c d" using True by (simp add: call_allowed_def)
    ultimately show ?thesis
      using Cons.IH [OF Cons.prems(1,2)] Cons.prems(3) True path_run.client by fastforce
  next
    case False
    then obtain j js' where j: "js = j # js'" "c = job_bus_call ch u j"
        "filter (\<lambda>c. c \<noteq> ask_status) cs = map (job_bus_call ch u) js'"
      using Cons.prems(3) by (cases js) auto
    let ?d = "set_dq (enqueue (job_cmd (sl_now se) ch u j) (dq d)) d"
    have "job_ok j" and js': "list_all job_ok js'" using Cons.prems(2) j(1) by simp_all
    then have 1: "bus_message se c d = Some (Reply, [], ?d)" using job_call_slot [OF con _ depth q] j(2) by simp
    have 2: "call_allowed c d" using Cons.prems(1) j(2) by (cases j) (simp_all add: call_allowed_def)
    have "unlocked (wplace (dw ?d))" using Cons.prems(1) by (simp add: set_dq_def)
    from Cons.IH [OF this js' j(3)] show ?thesis using path_run.client [OF 2 1] by blast
  qed
qed

lemma path_exists:
  assumes "concrete ch u" and "0 < sl_depth se" and q: "qt_number_ok (sl_number se)"
    and w: "calm (sl_number se) (dw d)" "place_ok (wplace (dw d))" and "list_all job_ok js"
    and "filter (\<lambda>c. c \<noteq> ask_status) cs = map (job_bus_call ch u) js"
  shows "\<exists>d'. path_run se cs d d'"
proof (cases "unlocked (wplace (dw d))")
  case True
  then show ?thesis by (rule calls_served [OF assms(1-3) _ assms(6,7)])
next
  case False
  then have a: "wplace (dw d) = W_After 0"
    using w(1) by (auto simp: unlocked_def calm_def calm_place_def split: place.splits)
  let ?i = "\<lparr>mi_result = 0, mi_received = undefined, mi_load = False, mi_now = 0\<rparr>"
  let ?d = "d\<lparr>dw := worker_move ?i (dw d)\<rparr>"
  have "quiet ?i" by (simp add: quiet_def)
  moreover have "unlocked (wplace (dw ?d))"
    using calmD(4) [OF w(1)]
    by (simp add: worker_move.simps a unlocked_def split: prod.splits option.splits)
  ultimately show ?thesis
    using calls_served [OF assms(1-3) _ assms(6,7), of ?d] path_run.thread by blast
qed

section \<open>What the control shows and what is promised\<close>

lemma exec_op_level: "clevel (fst (exec_op cmd c)) = cmd_level cmd (clevel c)"
  by (auto simp: exec_op_def cmd_level_def SetValue_def split: option.splits)

lemma job_effect_level: "clevel (job_effect j c) = cmd_level (job_cmd now ch u j) (clevel c)"
proof -
  have shape: "cmd_level a cur = cmd_level b cur" if "ctype a = ctype b" "cvalue a = cvalue b" for a b cur
    unfolding cmd_level_def using exec_value_shape [OF that] by simp
  show ?thesis by (cases j) (auto simp: job_effect.simps exec_op_level intro: shape)
qed

lemma promise_of_jobs:
  assumes "clevel c = f (addr_str ch u)"
  shows "fold level_step (map (job_cmd now ch u) js) f (addr_str ch u) = clevel (fold job_effect js c)"
    and "a \<noteq> addr_str ch u \<Longrightarrow> fold level_step (map (job_cmd now ch u) js) f a = f a"
proof -
  have "fold level_step (map (job_cmd now ch u) js) f (addr_str ch u) = clevel (fold job_effect js c)
    \<and> (a \<noteq> addr_str ch u \<longrightarrow> fold level_step (map (job_cmd now ch u) js) f a = f a)"
    using assms
  proof (induction js arbitrary: f c)
    case Nil
    then show ?case by simp
  next
    case (Cons j js)
    have "clevel (job_effect j c) = level_step (job_cmd now ch u j) f (addr_str ch u)"
      using Cons.prems by (simp add: level_step_def job_effect_level [of j c now ch u])
    note ih = Cons.IH [where f = "level_step (job_cmd now ch u j) f", OF this]
    have "a \<noteq> addr_str ch u \<Longrightarrow> level_step (job_cmd now ch u j) f a = f a" by (simp add: level_step_def)
    with ih show ?case by simp
  qed
  then show "fold level_step (map (job_cmd now ch u) js) f (addr_str ch u) = clevel (fold job_effect js c)"
    and "a \<noteq> addr_str ch u \<Longrightarrow> fold level_step (map (job_cmd now ch u) js) f a = f a" by auto
qed

text \<open>The jobs of a run of a control.\<close>

lemma control_run:
  assumes "control_ok w" and "ready env w" and "list_all user_event evs"
  shows "\<exists>w' js. fold_opt (widget_step q env) evs w = Some w' \<and> sent w' = sent w @ js
    \<and> list_all job_ok js \<and> list_all (\<lambda>j. job_source j = waddress w) js
    \<and> (\<forall>c. clevel c = wvalue w \<longrightarrow> clevel (fold job_effect js c) = wvalue w')"
  using assms
proof (induction evs arbitrary: w)
  case Nil
  then show ?case by simp
next
  case (Cons ev evs)
  have ev: "user_event ev" and evs: "list_all user_event evs" using Cons.prems(3) by simp_all
  obtain w1 where 1: "widget_step q env ev w = Some w1" "control_ok w1" "waddress w1 = waddress w"
    using event_keeps [OF user_event_ok [OF ev] Cons.prems(1,2)] by blast
  obtain js where js: "sent w1 = sent w @ js" "list_all (\<lambda>j. job_source j = waddress w) js"
      "\<forall>c. clevel c = wvalue w \<longrightarrow> clevel (fold job_effect js c) = wvalue w1"
    using event_predicts [OF ev Cons.prems(1,2) 1(1)] by blast
  have "list_all job_ok js" using control_okD(6) [OF 1(2)] js(1) by simp
  moreover have "ready env w1" using 1(3) Cons.prems(2) ready_cong by blast
  with Cons.IH [OF 1(2) _ evs] obtain w2 ks
    where "fold_opt (widget_step q env) evs w1 = Some w2" "sent w2 = sent w1 @ ks" "list_all job_ok ks"
      "list_all (\<lambda>j. job_source j = waddress w) ks"
      "\<forall>c. clevel c = wvalue w1 \<longrightarrow> clevel (fold job_effect ks c) = wvalue w2"
    unfolding 1(3) by blast
  ultimately show ?case using 1(1) js by (intro exI [of _ w2] exI [of _ "js @ ks"]) simp
qed

section \<open>Properties\<close>


definition plain_manager :: QueueManager where
  "plain_manager = (busy_manager [])\<lparr>qm_config := (qm_config (busy_manager []))\<lparr>SMART_QUEUE := False\<rparr>\<rparr>"

definition plain_daemon :: daemon where
  "plain_daemon = \<lparr>dw = \<lparr>wq = plain_manager, wplace = W_Head, wsent = []\<rparr>, dini = (\<lambda>_ _. None),
     dfiles = (\<lambda>_. None), dthread = T_Loop, dmain = M_Events, dfinished = 0\<rparr>"

lemma plain_calm: "calm std_number (dw plain_daemon)" "place_ok (wplace (dw plain_daemon))"
    "promised (dw plain_daemon) a = -1"
proof -
  have "qm_ok std_number (busy_manager [])" by (rule busy_ok) simp
  then show "calm std_number (dw plain_daemon)"
    by (simp add: calm_def plain_daemon_def calm_place_def plain_manager_def qm_ok_def)
       (simp add: busy_manager_def sample_manager_def QueueManager_new_def Config_Load_ranges)
  show "place_ok (wplace (dw plain_daemon))" by (simp add: plain_daemon_def place_ok_def)
  show "promised (dw plain_daemon) a = -1"
    by (simp add: promised_def pending_def plain_daemon_def plain_manager_def busy_manager_def
        sample_manager_def QueueManager_new_def container_value_def st_find_def)
qed


text \<open>C12: with the smart queue two opposite presses on a control, the second before the thread took
  the first, leave the service exactly as it was: the second command removes the first. Where the
  unit is off, or at the end of its range in the direction of the first press, the control shows
  another level from then on: a unit that is off and should be dimmed and brightened stays off.\<close>

theorem opposite_presses_vanish:
  fixes up :: bool
  assumes "control_ok w" and "ready wenv w" and "waddress w = ch # dec_int u" and "concrete ch u"
    and "qt_number_ok (sl_number se)" and "0 < sl_depth se"
    and "SMART_QUEUE (qm_config (dq d))" and "queueCommands (dq d) = []"
  defines "first \<equiv> (if up then CMD_BRIGHT else CMD_DIM)" and "second \<equiv> (if up then CMD_DIM else CMD_BRIGHT)"
  shows "\<exists>w' d1. fold_opt (widget_step q wenv) (if up then [PushBright, PushDim] else [PushDim, PushBright]) w = Some w'
    \<and> sent w' = sent w @ [JobSend (waddress w) first, JobSend (waddress w) second]
    \<and> bus_message se (B_Send [ch] u [cmd_char first]) d = Some (Reply, [], d1)
    \<and> bus_message se (B_Send [ch] u [cmd_char second]) d1 = Some (Reply, [], d)
    \<and> (wvalue w' = wvalue w \<longleftrightarrow> wvalue w \<noteq> -1 \<and> wvalue w \<noteq> (if up then MAX_VALUE else 0))"
proof -
  let ?l1 = "moved up (wvalue w)" and ?l2 = "moved (\<not> up) (moved up (wvalue w))"
  obtain w1 where w1: "on_pushDirection wenv up w = Some w1" "control_ok w1" "waddress w1 = waddress w"
    using push_direction.keeps [OF assms(1,2)] by blast
  have s1: "sent w1 = sent w @ [JobSend (waddress w) first]" "wvalue w1 = ?l1"
    using w1(1) by (auto simp: on_pushDirection_ready [OF assms(1,2)] first_def Let_def)
  have r1: "ready wenv w1" using ready_cong [OF w1(3)] assms(2) by simp
  obtain w2 where w2: "on_pushDirection wenv (\<not> up) w1 = Some w2"
    using push_direction.keeps [OF w1(2) r1] by blast
  have s2: "sent w2 = sent w1 @ [JobSend (waddress w) second]" "wvalue w2 = ?l2"
    using w2 s1(2) by (auto simp: on_pushDirection_ready [OF w1(2) r1] second_def w1(3) Let_def)
  let ?c1 = "job_cmd (sl_now se) ch u (JobSend (waddress w) first)"
  let ?c2 = "job_cmd (sl_now se) ch u (JobSend (waddress w) second)"
  have ok: "job_ok (JobSend (waddress w) first)" "job_ok (JobSend (waddress w) second)"
    by (simp_all add: first_def second_def)
  define d1 where "d1 = set_dq (enqueue ?c1 (dq d)) d"
  have q1: "dq d1 = (dq d)\<lparr>queueCommands := [?c1]\<rparr>"
    using assms(7,8) by (simp add: d1_def enqueue_def set_dq_def)
  have "enqueue ?c2 (dq d1) = dq d"
    using assms(7,8) by (simp add: q1 enqueue_def first_def second_def)
  then have gone: "set_dq (enqueue ?c2 (dq d1)) d1 = d" by (simp add: d1_def set_dq_def)
  have 1: "bus_message se (B_Send [ch] u [cmd_char first]) d = Some (Reply, [], d1)"
    using job_call_slot [OF assms(4) ok(1) assms(6,5), of d] by (simp add: d1_def)
  have 2: "bus_message se (B_Send [ch] u [cmd_char second]) d1 = Some (Reply, [], d)"
    using job_call_slot [OF assms(4) ok(2) assms(6,5), of d1] gone by simp
  have 3: "?l2 = wvalue w \<longleftrightarrow> wvalue w \<noteq> -1 \<and> wvalue w \<noteq> (if up then MAX_VALUE else 0)"
    using control_okD(2) [OF assms(1)] by (auto simp: moved_def level_ok_def MAX_VALUE_def Let_def)
  have "fold_opt (widget_step q wenv) (if up then [PushBright, PushDim] else [PushDim, PushBright]) w = Some w2"
    using w1(1) w2 by (cases up) simp_all
  with 1 2 3 s1(1) s2 show ?thesis by (intro exI [of _ w2] exI [of _ d1]) simp
qed

definition smart_daemon :: daemon where
  "smart_daemon = set_dq (busy_manager []) plain_daemon"

theorem opposite_presses_vanish_witness:
  "\<exists>w' d1. fold_opt (widget_step std_number sample_desktop) [PushDim, PushBright] sample_control = Some w'
     \<and> bus_message sample_slots (B_Send ''E'' 5 ''b'') d1 = Some (Reply, [], smart_daemon) \<and> wvalue w' \<noteq> -1"
proof -
  have con: "concrete CHR ''E'' 5" by (simp add: concrete_def house_letter_range)
  have w: "waddress sample_control = CHR ''E'' # dec_int 5"
    by (simp add: sample_control_def new_control_address)
  have v: "wvalue sample_control = -1"
    by (simp add: sample_control_def ControlWidget_new_def ConnectSource_def redraw_def X10Unit_new_def Let_def)
  have m: "SMART_QUEUE (qm_config (dq smart_daemon))" "queueCommands (dq smart_daemon) = []"
    using sample_smart by (simp_all add: smart_daemon_def set_dq_def busy_manager_def)
  have s: "sl_number sample_slots = std_number" "0 < sl_depth sample_slots" by (simp_all add: sample_slots_def)
  show ?thesis
    using opposite_presses_vanish [OF sample_control_ok w con, of sample_slots smart_daemon std_number False]
      m s std_number_ok v
    by auto
qed

end
