(* ===== verification/X10_Wire.thy ===== *)
theory X10_Wire
  imports X10_Levels X10_Controller
begin

text \<open>
  From the queue to the device: the elementary commands that a \<open>CMD_SET\<close> makes of itself
  (\<open>queue-manager.cpp\<close>), how many they are against the fewest that would do, and the frames that the
  controller and its plugin make of them (\<open>x10controller.cpp\<close>, \<open>x10plugin.h\<close>).
\<close>

unbundle bit_operations_syntax

section \<open>What goes through the plugin\<close>

text \<open>The virtual \<open>send\<close> of the plugins, with the results of the write and of the read behind it.\<close>

datatype wire = Frame "byte list" | Shell string

definition plugin_send :: "int \<times> int \<Rightarrow> 'h plugin \<Rightarrow> x10_ha_command \<Rightarrow> wire list" where
  "plugin_send res p x =
     (case p of
        P_libusb u \<Rightarrow> (case fst (Libusb_send (fst res) (snd res) u x) of None \<Rightarrow> [] | Some bs \<Rightarrow> [Frame bs])
      | P_driver d \<Rightarrow> (case Driver_send d x of None \<Rightarrow> [] | Some line \<Rightarrow> [Shell line]))"

text \<open>
  What \<open>x10_send\<close> does for one command after the other. \<open>None\<close> is an access outside the table of
  unit codes or through a null plugin.
\<close>

fun wire_run ::
    "int \<times> int \<Rightarrow> 'h X10Controller \<Rightarrow> x10_ha_command list \<Rightarrow> (wire list \<times> 'h X10Controller) option" where
  "wire_run res c [] = Some ([], c)"
| "wire_run res c (x # xs) =
     (case x10_send c (Some x) of
        None \<Rightarrow> None
      | Some (r, sent, c') \<Rightarrow>
          (case (if sent = [] then Some [] else map_option (\<lambda>p. concat (map (plugin_send res p) sent)) (m_driver c)) of
             None \<Rightarrow> None
           | Some out \<Rightarrow> map_option (\<lambda>(rest, c''). (out @ rest, c'')) (wire_run res c' xs)))"

section \<open>The elementary commands of a set\<close>

text \<open>The plan for level \<open>v\<close> at level \<open>cur\<close>, as a list at once.\<close>

definition dims_to :: "int \<Rightarrow> COMMAND_TYPE list" where
  "dims_to v = (if v = MAX_VALUE then [CMD_ON] else replicate (nat (MAX_VALUE - v)) CMD_DIM)"

definition set_plan :: "int \<Rightarrow> int \<Rightarrow> COMMAND_TYPE list" where
  "set_plan v cur =
     (if v = -1 then [CMD_OFF]
      else if cur = v then []
      else if cur = -1 then dims_to v
      else if cur > v then replicate (nat (cur - v)) CMD_DIM
      else if v - cur > 2 + MAX_VALUE - v then CMD_OFF # dims_to v
      else replicate (nat (v - cur)) CMD_BRIGHT)"

text \<open>The thread makes one command of it in each round.\<close>

definition set_code :: "int \<Rightarrow> int \<Rightarrow> COMMAND_TYPE list" where
  "set_code v cur =
     (case snd (next_command 0 (COMMAND_new 0 CHR ''A'' 1 CMD_SET v) cur) of None \<Rightarrow> [] | Some c \<Rightarrow> [ctype c])"

fun set_codes :: "nat \<Rightarrow> int \<Rightarrow> int \<Rightarrow> COMMAND_TYPE list" where
  "set_codes 0 v cur = []"
| "set_codes (Suc k) v cur =
     set_code v cur @ (if fst (set_next v cur) then [] else set_codes k v (snd (set_next v cur)))"

lemma set_code_eq:
  "set_code v cur =
     (if v = -1 then [CMD_OFF]
      else if cur = v then []
      else if cur = -1 then if v = 7 then [CMD_ON] else [CMD_DIM]
      else if cur > v then [CMD_DIM]
      else if v - cur > 9 - v then [CMD_OFF]
      else [CMD_BRIGHT])"
  by (simp add: set_code_def next_command_def MAX_VALUE_def Let_def)

lemma set_codes_table:
  "list_all (\<lambda>v. list_all (\<lambda>cur. set_codes 8 v cur = set_plan v cur)
     [-1, 0, 1, 2, 3, 4, 5, 6, 7]) [-1, 0, 1, 2, 3, 4, 5, 6, 7]"
  by (simp add: eval_nat_numeral set_next_eq set_code_eq set_plan_def dims_to_def MAX_VALUE_def)

lemma set_codes_plan: "level_ok v \<Longrightarrow> level_ok cur \<Longrightarrow> set_codes 8 v cur = set_plan v cur"
  using set_codes_table unfolding levels list_all_iff by blast

text \<open>The command for the controller.\<close>

definition ha_of :: "Channel \<Rightarrow> Unit \<Rightarrow> COMMAND_TYPE \<Rightarrow> x10_ha_command" where
  "ha_of ch u t = the (new_x10_ha_command (parse_cmd_code (cmd_char t)) ch u)"

lemma round_set_sent:
  assumes s: "qm_ok q s" and run: "isRunning s" and last: "queueCommands s = others @ [cmd]"
    and set: "ctype cmd = CMD_SET" and con: "concrete (channel cmd) (cunit cmd)" and loaded: "controllerLoaded s"
  shows "fst (worker_round now s) =
      map (ha_of (channel cmd) (cunit cmd)) (set_code (cvalue cmd) (levels s (address cmd)))"
    and "controllerLoaded (snd (worker_round now s))"
proof -
  have inv: "st_inv (Containers s)" using s by (simp add: qm_okD(1) containers_okD(1))
  obtain n i where n: "next_command 0 (COMMAND_new 0 CHR ''A'' 1 CMD_SET (cvalue cmd)) (levels s (address cmd)) = (n, i)"
    by fastforce
  note f = set_fetched [OF run last set inv n, of now]
  obtain c s1 where cs: "worker_fetch now s = (c, s1)" by fastforce
  have s1: "controllerLoaded s1" "containers_ok (Containers s1)"
    using f loaded s by (auto simp: cs qm_emit_def qm_okD(1) CheckContainerExist_ok split: if_splits)
  have c: "case i of None \<Rightarrow> c = None
    | Some e \<Rightarrow> \<exists>d. c = Some d \<and> channel d = channel cmd \<and> cunit d = cunit cmd \<and> ctype d = ctype e"
    using f by (auto simp: cs split: if_splits option.splits)
  have "fst (worker_round now s) = map (ha_of (channel cmd) (cunit cmd)) (set_code (cvalue cmd) (levels s (address cmd)))
      \<and> controllerLoaded (snd (worker_round now s))"
  proof (cases i)
    case None
    with c s1 show ?thesis by (simp add: worker_round_def cs set_code_def n)
  next
    case (Some e)
    then obtain d where d: "c = Some d" "channel d = channel cmd" "cunit d = cunit cmd" "ctype d = ctype e"
      using c by auto
    note w = worker_exec_value(4,5) [OF s1(2), of d, unfolded d(2,3), OF con]
    obtain x where x: "new_x10_ha_command (parse_cmd_code (cmd_char (ctype e))) (channel cmd) (cunit cmd) = Some x"
      using concrete_new_cmd [OF con] by blast
    show ?thesis
      using w s1(1) x by (simp add: worker_round_def cs d Some set_code_def n ha_of_def case_prod_beta)
  qed
  then show "fst (worker_round now s) =
      map (ha_of (channel cmd) (cunit cmd)) (set_code (cvalue cmd) (levels s (address cmd)))"
    and "controllerLoaded (snd (worker_round now s))" by auto
qed

lemma rounds_set_sent:
  assumes "qt_number_ok q" and "qm_ok q s" and "isRunning s" and "queueCommands s = others @ [cmd]"
    and "ctype cmd = CMD_SET" and "concrete (channel cmd) (cunit cmd)" and "controllerLoaded s"
    and "set_rounds k (cvalue cmd) (levels s (address cmd)) = Some (n, l)"
  shows "fst (rounds n now s) =
    map (ha_of (channel cmd) (cunit cmd)) (set_codes k (cvalue cmd) (levels s (address cmd)))"
  using assms(2-)
proof (induction k arbitrary: s cmd n)
  case 0
  then show ?case by simp
next
  case (Suc k)
  let ?s = "snd (worker_round now s)"
  obtain fin lvl where plan: "set_next (cvalue cmd) (levels s (address cmd)) = (fin, lvl)" by fastforce
  note r = round_set [OF Suc.prems(1-5) plan, of now] and o = round_set_sent [OF Suc.prems(1-6), of now]
  show ?case
  proof (cases fin)
    case True
    then have "n = 1" using Suc.prems(7) plan by simp
    with o True plan show ?thesis by simp
  next
    case False
    then obtain m where m: "set_rounds k (cvalue cmd) lvl = Some (m, l)" "n = Suc m"
      using Suc.prems(7) plan by auto
    obtain b where b: "queueCommands ?s = others @ [cmd\<lparr>notified := b\<rparr>]" using r(3) False by auto
    have ad: "address (cmd\<lparr>notified := b\<rparr>) = address cmd" by (simp add: address_def)
    have "fst (rounds m now ?s) = map (ha_of (channel cmd) (cunit cmd)) (set_codes k (cvalue cmd) lvl)"
      using Suc.IH [OF worker_round_ok [OF assms(1) Suc.prems(1)] r(2) b] Suc.prems(4,5) m(1) r(1) ad o(2) by simp
    with o m(2) False plan show ?thesis by simp
  qed
qed

lemma set_plan_sent:
  assumes "qt_number_ok q" and "qm_ok q s" and "isRunning s" and "queueCommands s = others @ [cmd]"
    and "ctype cmd = CMD_SET" and "concrete (channel cmd) (cunit cmd)" and "controllerLoaded s"
  shows "\<exists>n \<le> 8. queueCommands (snd (rounds n now s)) = others
    \<and> levels (snd (rounds n now s)) (address cmd) = cvalue cmd
    \<and> fst (rounds n now s) = map (ha_of (channel cmd) (cunit cmd)) (set_plan (cvalue cmd) (levels s (address cmd)))"
proof -
  have ok: "level_ok (cvalue cmd)" using qm_okD(3) [OF assms(2), of cmd] assms(4,5) by (simp add: cmd_ok_def)
  have cur: "level_ok (levels s (address cmd))" by (rule container_value_ok [OF qm_okD(1) [OF assms(2)]])
  obtain n where n: "n \<le> 8" "set_rounds 8 (cvalue cmd) (levels s (address cmd)) = Some (n, cvalue cmd)"
    using set_rounds_reach [OF ok cur] by blast
  with rounds_set [OF assms(1-6) n(2), of now] rounds_set_sent [OF assms n(2), of now] set_codes_plan [OF ok cur]
  show ?thesis by auto
qed

section \<open>The fewest commands\<close>

definition elementary :: "COMMAND_TYPE \<Rightarrow> COMMAND" where
  "elementary t = COMMAND_new 0 CHR ''A'' 1 t (-1)"

definition reached :: "COMMAND_TYPE list \<Rightarrow> int \<Rightarrow> int" where
  "reached ts cur = fold (\<lambda>t. cmd_level (elementary t)) ts cur"

abbreviation moves :: "COMMAND_TYPE list" where
  "moves \<equiv> [CMD_ON, CMD_OFF, CMD_DIM, CMD_BRIGHT]"

definition fewest :: "int \<Rightarrow> int \<Rightarrow> nat" where
  "fewest v cur = nat
     (if cur = v then 0
      else if v = -1 then 1
      else if cur = -1 then if v = MAX_VALUE then 1 else MAX_VALUE - v
      else if cur > v then cur - v
      else if v = MAX_VALUE then min (v - cur) 2
      else min (v - cur) (1 + MAX_VALUE - v))"

lemma fewest_table:
  "list_all (\<lambda>v. list_all (\<lambda>cur. list_all (\<lambda>t.
       fewest v cur \<le> Suc (fewest v (cmd_level (elementary t) cur))) moves)
     [-1, 0, 1, 2, 3, 4, 5, 6, 7]) [-1, 0, 1, 2, 3, 4, 5, 6, 7]"
  by code_simp

lemma plan_table:
  "list_all (\<lambda>v. list_all (\<lambda>cur. length (set_plan v cur) \<le> Suc (fewest v cur))
     [-1, 0, 1, 2, 3, 4, 5, 6, 7]) [-1, 0, 1, 2, 3, 4, 5, 6, 7]"
  by code_simp

lemma cmd_level_table:
  "list_all (\<lambda>cur. list_all (\<lambda>t. level_ok (cmd_level (elementary t) cur)) moves) [-1, 0, 1, 2, 3, 4, 5, 6, 7]"
  by code_simp

lemma fewest_step:
  assumes "level_ok v" and "level_ok cur" and "t \<in> set moves"
  shows "fewest v cur \<le> Suc (fewest v (cmd_level (elementary t) cur))"
    and "level_ok (cmd_level (elementary t) cur)"
  using fewest_table cmd_level_table assms unfolding levels list_all_iff by blast+

lemma fewest_reached:
  "level_ok v \<Longrightarrow> level_ok cur \<Longrightarrow> set ts \<subseteq> set moves \<Longrightarrow> reached ts cur = v \<Longrightarrow> fewest v cur \<le> length ts"
proof (induction ts arbitrary: cur)
  case Nil
  then show ?case by (simp add: reached_def fewest_def)
next
  case (Cons t ts)
  have "t \<in> set moves" using Cons.prems(3) by (meson list.set_intros(1) subsetD)
  note t = fewest_step [OF Cons.prems(1,2) this]
  have "fewest v (cmd_level (elementary t) cur) \<le> length ts"
    by (rule Cons.IH [OF Cons.prems(1) t(2)])
       (use Cons.prems(3,4) in \<open>simp_all add: reached_def del: list.set(2)\<close>, meson set_subset_Cons subset_trans)
  with t(1) show ?case by simp
qed

lemma set_plan_short:
  assumes "level_ok v" and "level_ok cur" and "set ts \<subseteq> set moves" and "reached ts cur = v"
  shows "length (set_plan v cur) \<le> Suc (length ts)"
proof -
  have "length (set_plan v cur) \<le> Suc (fewest v cur)"
    using plan_table assms(1,2) unfolding levels list_all_iff by blast
  with fewest_reached [OF assms] show ?thesis by simp
qed

section \<open>Frames\<close>

text \<open>
  The frame for a move of a unit: dim and bright are made with the unit one lower, and the units 9 to 16
  with the unit eight lower.
\<close>

definition is_dim :: "COMMAND_TYPE \<Rightarrow> bool" where
  "is_dim t \<longleftrightarrow> t = CMD_DIM \<or> t = CMD_BRIGHT"

definition plugin_cmd :: "Channel \<Rightarrow> Unit \<Rightarrow> COMMAND_TYPE \<Rightarrow> x10_ha_command" where
  "plugin_cmd ch u t =
     \<lparr>ha_cmd = parse_cmd_code (cmd_char t), ha_house = HouseCodeLut ! house_index ch,
      ha_unit = UnitCodeLut ! nat ((u - 1) mod 8 - (if is_dim t then 1 else 0))\<rparr>"

definition addressed :: "'h X10Controller \<Rightarrow> Channel \<Rightarrow> Unit \<Rightarrow> bool" where
  "addressed c ch u \<longleftrightarrow>
     m_lastHouse c = HouseCodeLut ! house_index ch \<and> m_lastUnit c = UnitCodeLut ! nat (u - 1)"

definition plan_frames :: "bool \<Rightarrow> Channel \<Rightarrow> Unit \<Rightarrow> COMMAND_TYPE list \<Rightarrow> wire list" where
  "plan_frames again ch u ts =
     map (\<lambda>t. Frame (transmit_bytes (plugin_cmd ch u t)))
       ((if ts \<noteq> [] \<and> is_dim (hd ts) \<and> \<not> again then [CMD_ON] else []) @ ts)"

definition sent_to :: "Channel \<Rightarrow> Unit \<Rightarrow> 'h X10Controller \<Rightarrow> 'h X10Controller" where
  "sent_to ch u c = c\<lparr>m_lastHouse := HouseCodeLut ! house_index ch, m_lastUnit := UnitCodeLut ! nat (u - 1)\<rparr>"

definition real_unit :: "char \<Rightarrow> int \<Rightarrow> bool" where
  "real_unit ch u \<longleftrightarrow> is_house ch \<and> 1 \<le> u \<and> u \<le> 16"

lemma concrete_real: "concrete ch u \<Longrightarrow> real_unit ch u"
  by (simp add: concrete_def real_unit_def house_letter_is_house)

lemma new_command_ha_of:
  "new_x10_ha_command (parse_cmd_code (cmd_char t)) h u = Some x \<Longrightarrow> real_unit h u \<and> x = ha_of h u t"
  by (auto simp: ha_of_def new_x10_ha_command_eq real_unit_def split: if_splits)

lemma ha_of_sel:
  assumes "real_unit ch u"
  shows "ha_of ch u t = \<lparr>ha_cmd = parse_cmd_code (cmd_char t), ha_house = HouseCodeLut ! house_index ch,
    ha_unit = UnitCodeLut ! nat (u - 1)\<rparr>"
  using assms by (simp add: ha_of_def new_x10_ha_command_eq real_unit_def)

lemma move_codes:
  "t \<in> set moves \<Longrightarrow>
     (parse_cmd_code (cmd_char t) = X10CMD_DIM \<or> parse_cmd_code (cmd_char t) = X10CMD_BRIGHT) = is_dim t"
  by (auto simp: parse_cmd_code_def is_dim_def)

lemma send_move:
  assumes con: "real_unit ch u" and t: "t \<in> set moves"
  shows "send_now c (ha_of ch u t) =
     (if is_dim t \<and> u mod 8 = 1 then None else Some ([plugin_cmd ch u t], sent_to ch u c))"
proof -
  let ?x = "ha_of ch u t"
  have u: "1 \<le> u" "u \<le> 16" using con by (simp_all add: real_unit_def)
  then have v: "(if u \<le> 8 then u else u - 8) = (u - 1) mod 8 + 1" and first: "(u - 1) mod 8 = 0 \<longleftrightarrow> u mod 8 = 1"
    by presburger+
  have "ha_unit ?x = UnitCodeLut ! nat (u - 1)" by (simp add: ha_of_sel [OF con])
  note n = send_now_table [OF u this, of c, unfolded v]
  have code: "(ha_cmd ?x = X10CMD_DIM \<or> ha_cmd ?x = X10CMD_BRIGHT) = is_dim t"
    using move_codes [OF t] by (simp add: ha_of_sel [OF con])
  show ?thesis
    unfolding n code using first by (simp add: plugin_cmd_def sent_to_def ha_of_sel [OF con])
qed

text \<open>An operational controller with the USB plugin writes what it is given.\<close>

definition usb_ready :: "'h X10Controller \<Rightarrow> bool" where
  "usb_ready c \<longleftrightarrow> IsOperational c \<and> controller_ok c \<and> Controller_Type c = LIBUSB"

lemma usb_ready_plugin:
  assumes "usb_ready c"
  obtains p where "m_driver c = Some p" and "\<And>res x. plugin_send res p x = [Frame (transmit_bytes x)]"
  using assms
  by (auto simp: usb_ready_def controller_ok_def Controller_Type_def plugin_send_def Libusb_send_def
      x10_transmit_cmd_def Let_def split: option.splits plugin.splits)

lemma sent_to_sel [simp]:
  "usb_ready (sent_to ch u c) = usb_ready c" "addressed (sent_to ch u c) ch u"
  "m_driver (sent_to ch u c) = m_driver c" "sent_to ch u (sent_to ch u c) = sent_to ch u c"
  by (simp_all add: usb_ready_def sent_to_def addressed_def controller_ok_def Controller_Type_def)

lemma x10_send_move:
  assumes con: "real_unit ch u" and t: "t \<in> set moves" and c: "IsOperational c"
  shows "x10_send c (Some (ha_of ch u t)) =
     (if is_dim t \<and> u mod 8 = 1 then None
      else Some (0, map (plugin_cmd ch u) ((if is_dim t \<and> \<not> addressed c ch u then [CMD_ON] else []) @ [t]),
                 sent_to ch u c))"
proof -
  have on: "(ha_of ch u t)\<lparr>ha_cmd := X10CMD_ON\<rparr> = ha_of ch u CMD_ON"
    by (simp add: ha_of_sel [OF con] parse_cmd_code_def)
  have code: "(ha_cmd (ha_of ch u t) = X10CMD_DIM \<or> ha_cmd (ha_of ch u t) = X10CMD_BRIGHT) = is_dim t"
    using move_codes [OF t] by (simp add: ha_of_sel [OF con])
  have addr: "(ha_house (ha_of ch u t) \<noteq> m_lastHouse c \<or> ha_unit (ha_of ch u t) \<noteq> m_lastUnit c) = (\<not> addressed c ch u)"
    by (auto simp: addressed_def ha_of_sel [OF con])
  have "send_now c' (ha_of ch u CMD_ON) = Some ([plugin_cmd ch u CMD_ON], sent_to ch u c')" for c' :: "'a X10Controller"
    using send_move [OF con, of CMD_ON c'] by (simp add: is_dim_def)
  then show ?thesis
    using c addr by (auto simp: x10_send_def on code send_move [OF con t])
qed

lemma wire_run_moves:
  "real_unit ch u \<Longrightarrow> usb_ready c \<Longrightarrow> set ts \<subseteq> set moves \<Longrightarrow>
     wire_run res c (map (ha_of ch u) ts) =
       (if u mod 8 = 1 \<and> list_ex is_dim ts then None
        else Some (plan_frames (addressed c ch u) ch u ts, if ts = [] then c else sent_to ch u c))"
proof (induction ts arbitrary: c)
  case Nil
  then show ?case by (simp add: plan_frames_def)
next
  case (Cons t ts)
  have t: "t \<in> set moves" and ts: "set ts \<subseteq> set moves"
    using Cons.prems(3) by (auto simp del: list.set(2) intro: list.set_intros)
  obtain p where p: "m_driver c = Some p" "\<And>res x. plugin_send res p x = [Frame (transmit_bytes x)]"
    using usb_ready_plugin [OF Cons.prems(2)] by blast
  have "IsOperational c" using Cons.prems(2) by (simp add: usb_ready_def)
  note s = x10_send_move [OF Cons.prems(1) t this]
  have ih: "wire_run res (sent_to ch u c) (map (ha_of ch u) ts) =
       (if u mod 8 = 1 \<and> list_ex is_dim ts then None else Some (plan_frames True ch u ts, sent_to ch u c))"
    using Cons.IH [OF Cons.prems(1) _ ts, of "sent_to ch u c"] Cons.prems(2) by simp
  show ?case
    by (simp add: s p ih plan_frames_def comp_def concat_map_singleton)
qed

lemma dim_bright_table:
  "list_all (\<lambda>i. ((ucast ((UnitCodeLut ! i AND 0xFF) OR X10CMD_BRIGHT) :: byte) =
      ucast ((UnitCodeLut ! i AND 0xFF) OR X10CMD_DIM)) = odd i) [0, 1, 2, 3, 4, 5, 6 :: nat]"
  by (simp add: UnitCodeLut_def)

lemma dim_bright_frames:
  assumes "1 \<le> u" and "u \<le> 16" and "u mod 8 \<noteq> 1"
  shows "transmit_bytes (plugin_cmd ch u CMD_BRIGHT) = transmit_bytes (plugin_cmd ch u CMD_DIM) \<longleftrightarrow> odd u"
proof -
  let ?i = "nat ((u - 1) mod 8 - 1)"
  obtain n where n: "(u - 1) mod 8 - 1 = int n" "n < 7" and odd: "odd n \<longleftrightarrow> odd u"
  proof (rule that [of ?i])
    have "0 \<le> (u - 1) mod 8 - 1" and "(u - 1) mod 8 - 1 < 7" and par: "odd ((u - 1) mod 8 - 1) \<longleftrightarrow> odd u"
      using assms by presburger+
    then show "(u - 1) mod 8 - 1 = int ?i" and "?i < 7" by auto
    then show "odd ?i \<longleftrightarrow> odd u" using par by (metis even_of_nat)
  qed
  then have i: "?i \<in> set [0, 1, 2, 3, 4, 5, 6]" and odd: "odd ?i \<longleftrightarrow> odd u" by auto
  have "((ucast ((UnitCodeLut ! ?i AND 0xFF) OR X10CMD_BRIGHT) :: byte) =
      ucast ((UnitCodeLut ! ?i AND 0xFF) OR X10CMD_DIM)) = odd ?i"
    using dim_bright_table i unfolding list_all_iff by blast
  moreover have "\<not> IS_CAM_CODE X10CMD_BRIGHT" "\<not> IS_CAM_CODE X10CMD_DIM" by (simp_all add: IS_CAM_CODE_def)
  ultimately show ?thesis
    using odd by (simp add: transmit_bytes_def plugin_cmd_def is_dim_def parse_cmd_code_def Let_def)
qed

section \<open>Properties\<close>

text \<open>C5: a \<open>CMD_SET\<close> sends the controller exactly its plan, in at most eight rounds: dims, brights, an on,
  or an off before them. The plan is at most one command longer than any sequence of on, off, dim and
  bright commands that takes the unit from its level to the one asked for.\<close>

theorem set_sends_its_plan:
  assumes "qt_number_ok q" and "qm_ok q s" and "isRunning s" and "queueCommands s = others @ [cmd]"
    and "ctype cmd = CMD_SET" and "concrete (channel cmd) (cunit cmd)" and "controllerLoaded s"
  shows "(\<exists>n \<le> 8. queueCommands (snd (rounds n now s)) = others
      \<and> levels (snd (rounds n now s)) (address cmd) = cvalue cmd
      \<and> fst (rounds n now s) = map (ha_of (channel cmd) (cunit cmd)) (set_plan (cvalue cmd) (levels s (address cmd))))
    \<and> (\<forall>ts. set ts \<subseteq> set moves \<and> reached ts (levels s (address cmd)) = cvalue cmd \<longrightarrow>
         length (set_plan (cvalue cmd) (levels s (address cmd))) \<le> Suc (length ts))"
proof
  have "level_ok (cvalue cmd)" using qm_okD(3) [OF assms(2), of cmd] assms(4,5) by (simp add: cmd_ok_def)
  moreover have "level_ok (levels s (address cmd))" by (rule container_value_ok [OF qm_okD(1) [OF assms(2)]])
  ultimately show "\<forall>ts. set ts \<subseteq> set moves \<and> reached ts (levels s (address cmd)) = cvalue cmd \<longrightarrow>
         length (set_plan (cvalue cmd) (levels s (address cmd))) \<le> Suc (length ts)"
    using set_plan_short by blast
qed (rule set_plan_sent [OF assms])

lemma busy_set:
  assumes "level_ok v"
  shows "qm_ok std_number (busy_manager [e5 CMD_SET v])"
  by (rule busy_ok) (simp add: e5_ok assms)

lemma e5_sel [simp]:
  "channel (e5 t v) = CHR ''E''" "cunit (e5 t v) = 5" "ctype (e5 t v) = t" "cvalue (e5 t v) = v"
  by (simp_all add: e5_def)

lemma concrete_E5: "concrete CHR ''E'' 5"
  using e5_concrete by simp

lemma busy_set_sel:
  "isRunning (busy_manager cs)" "queueCommands (busy_manager cs) = cs" "controllerLoaded (busy_manager cs)"
  "levels (busy_manager cs) a = -1"
  by (simp_all add: busy_manager_def sample_manager_def QueueManager_new_def container_value_def st_find_def)

theorem set_sends_its_plan_witness:
  "\<exists>n \<le> 8. map ha_cmd (fst (rounds n 0 (busy_manager [e5 CMD_SET 4]))) = [X10CMD_DIM, X10CMD_DIM, X10CMD_DIM]"
proof -
  have "level_ok (4 :: int)" by (simp add: level_ok_def MAX_VALUE_def)
  from set_sends_its_plan [OF std_number_ok busy_set [OF this], of "[]" "e5 CMD_SET 4" 0]
  obtain n where "n \<le> 8" "fst (rounds n 0 (busy_manager [e5 CMD_SET 4])) = map (ha_of CHR ''E'' 5) (set_plan 4 (-1))"
    by (auto simp: busy_set_sel concrete_E5)
  then show ?thesis
    by (intro exI [of _ n])
       (simp add: ha_of_sel [OF concrete_real [OF concrete_E5]] set_plan_def dims_to_def MAX_VALUE_def parse_cmd_code_def eval_nat_numeral)
qed

text \<open>C6: with the USB plugin a \<open>CMD_SET\<close> puts the frames of its plan on the device: an on frame where the
  plan begins with a dim or bright and another unit was addressed last, then one frame for each command,
  dim and bright with the unit one lower. The units 9 to 16 get the frames of the units eight lower,
  and for the units 1 and 9 a plan with a dim or bright reads outside the table of unit codes.\<close>

theorem set_on_the_wire:
  assumes "qt_number_ok q" and "qm_ok q s" and "isRunning s" and "queueCommands s = others @ [cmd]"
    and "ctype cmd = CMD_SET" and "concrete (channel cmd) (cunit cmd)" and "controllerLoaded s"
    and "IsOperational c" and "controller_ok c" and "Controller_Type c = LIBUSB"
  defines "plan \<equiv> set_plan (cvalue cmd) (levels s (address cmd))"
  shows "\<exists>n \<le> 8. queueCommands (snd (rounds n now s)) = others
    \<and> map_option fst (wire_run res c (fst (rounds n now s))) =
        (if cunit cmd mod 8 = 1 \<and> list_ex is_dim plan then None
         else Some (plan_frames (addressed c (channel cmd) (cunit cmd)) (channel cmd) (cunit cmd) plan))"
proof -
  obtain n where n: "n \<le> 8" "queueCommands (snd (rounds n now s)) = others"
      "fst (rounds n now s) = map (ha_of (channel cmd) (cunit cmd)) plan"
    using set_plan_sent [OF assms(1-7), of now] unfolding plan_def by blast
  have "set plan \<subseteq> set moves" by (auto simp: plan_def set_plan_def dims_to_def)
  moreover have usb: "usb_ready c" using assms(8-10) by (simp add: usb_ready_def)
  ultimately have "map_option fst (wire_run res c (fst (rounds n now s))) =
        (if cunit cmd mod 8 = 1 \<and> list_ex is_dim plan then None
         else Some (plan_frames (addressed c (channel cmd) (cunit cmd)) (channel cmd) (cunit cmd) plan))"
    using wire_run_moves [OF concrete_real [OF assms(6)] usb, of plan res] by (simp only: n(3)) simp
  with n(1,2) show ?thesis by blast
qed

text \<open>The frames of a set to level 5 for E5, which is off: on, and two dims.\<close>

lemma e5_bytes:
  "transmit_bytes \<lparr>ha_cmd = X10CMD_ON, ha_house = HOUSE_E, ha_unit = 0x040\<rparr> = [0x20, 0x80, 0x7F, 0x40, 0xBF]"
  "transmit_bytes \<lparr>ha_cmd = X10CMD_DIM, ha_house = HOUSE_E, ha_unit = 0x018\<rparr> = [0x20, 0x80, 0x7F, 0x98, 0x67]"
  by (simp_all add: transmit_bytes_def IS_CAM_CODE_def Let_def)

lemma e5_frames:
  "plan_frames False CHR ''E'' 5 (set_plan 5 (-1)) =
     [Frame [0x20, 0x80, 0x7F, 0x40, 0xBF], Frame [0x20, 0x80, 0x7F, 0x98, 0x67], Frame [0x20, 0x80, 0x7F, 0x98, 0x67]]"
proof -
  have "replicate 2 x = [x, x]" for x :: wire by (simp add: numeral_2_eq_2)
  then show ?thesis
    by (simp add: plan_frames_def set_plan_def dims_to_def MAX_VALUE_def is_dim_def plugin_cmd_def parse_cmd_code_def
        HouseCodeLut_def UnitCodeLut_def house_index_def of_char_upper e5_bytes)
qed

lemma live_ready:
  "IsOperational live_controller" "controller_ok live_controller" "Controller_Type live_controller = LIBUSB"
  "\<not> addressed live_controller CHR ''E'' 5"
  by (simp_all add: live_controller_def controller_ok_def Controller_Type_def addressed_def house_index_def
      of_char_upper HouseCodeLut_def)

theorem set_on_the_wire_witness:
  "\<exists>n \<le> 8. map_option fst (wire_run (5, 1) live_controller (fst (rounds n 0 (busy_manager [e5 CMD_SET 5]))))
     = Some [Frame [0x20, 0x80, 0x7F, 0x40, 0xBF], Frame [0x20, 0x80, 0x7F, 0x98, 0x67],
             Frame [0x20, 0x80, 0x7F, 0x98, 0x67]]"
proof -
  have "level_ok (5 :: int)" by (simp add: level_ok_def MAX_VALUE_def)
  from set_on_the_wire [OF std_number_ok busy_set [OF this], where others = "[]" and cmd = "e5 CMD_SET 5"
      and c = live_controller and res = "(5, 1)" and now = 0]
  have "\<exists>n \<le> 8. queueCommands (snd (rounds n 0 (busy_manager [e5 CMD_SET 5]))) = []
    \<and> map_option fst (wire_run (5, 1) live_controller (fst (rounds n 0 (busy_manager [e5 CMD_SET 5]))))
      = Some (plan_frames False CHR ''E'' 5 (set_plan 5 (-1)))"
    by (simp add: busy_set_sel concrete_E5 live_ready del: map_option_eq_Some)
  then show ?thesis unfolding e5_frames by blast
qed

text \<open>C7: the frames of dim and bright keep the bits of the unit that is one lower, and one of these bits
  is what tells the two apart: for every odd unit but 1 and 9 a bright is sent as the frame of a dim.
  For the even units the two differ.\<close>

theorem bright_is_sent_as_dim:
  assumes "new_x10_ha_command X10CMD_BRIGHT h u = Some b" and "new_x10_ha_command X10CMD_DIM h u = Some d"
    and "IsOperational c" and "controller_ok c" and "Controller_Type c = LIBUSB" and "u mod 8 \<noteq> 1"
  shows "map_option fst (wire_run res c [b]) \<noteq> None
    \<and> (map_option fst (wire_run res c [b]) = map_option fst (wire_run res c [d]) \<longleftrightarrow> odd u)"
proof -
  have usb: "usb_ready c" using assms(3-5) by (simp add: usb_ready_def)
  have b: "real_unit h u" "b = ha_of h u CMD_BRIGHT" and d: "d = ha_of h u CMD_DIM"
    using new_command_ha_of [of CMD_BRIGHT h u b] new_command_ha_of [of CMD_DIM h u d] assms(1,2)
    by (simp_all add: parse_cmd_code_def)
  then have "1 \<le> u" and "u \<le> 16" by (simp_all add: real_unit_def)
  with wire_run_moves [OF b(1) usb, of "[CMD_BRIGHT]" res] wire_run_moves [OF b(1) usb, of "[CMD_DIM]" res]
    dim_bright_frames [of u h] assms(6)
  show ?thesis by (auto simp: b(2) d plan_frames_def is_dim_def)
qed

theorem bright_is_sent_as_dim_witness:
  "\<exists>b d. new_x10_ha_command X10CMD_BRIGHT CHR ''E'' 5 = Some b \<and> new_x10_ha_command X10CMD_DIM CHR ''E'' 5 = Some d
     \<and> map_option fst (wire_run (5, 1) live_controller [b]) = map_option fst (wire_run (5, 1) live_controller [d])"
proof -
  obtain b d where bd: "new_x10_ha_command X10CMD_BRIGHT CHR ''E'' 5 = Some b"
      "new_x10_ha_command X10CMD_DIM CHR ''E'' 5 = Some d"
    using house_E by (simp add: new_x10_ha_command_eq)
  from bright_is_sent_as_dim [OF bd live_ready(1-3), of "(5, 1)"] bd show ?thesis by simp
qed

end
