(* ===== verification/X10_Logger.thy ===== *)
theory X10_Logger
  imports X10_Prelude
begin

text \<open>
  \<open>common/logger.h\<close> and \<open>logger.cpp\<close>: the log that all programs write. The environment variables, the
  clock (as the text that \<open>strftime\<close> makes of it) and the success of \<open>fopen\<close> are arguments; what is
  printed is a list of entries with the file they go to, and \<open>entry_text\<close> is the text of an entry.
\<close>

section \<open>Settings\<close>

datatype ELOG = ERROR | DEBUG | INFO | CAT

definition getVar :: "(string \<Rightarrow> string option) \<Rightarrow> string \<Rightarrow> string" where
  "getVar env var = (case env var of Some v \<Rightarrow> v | None \<Rightarrow> '''')"

definition ENABLE_DEBUG :: "(string \<Rightarrow> string option) \<Rightarrow> bool" where
  "ENABLE_DEBUG env \<longleftrightarrow> to_upper (getVar env ''DEBUG'') = ''1''"

definition ENABLE_COLOR :: "(string \<Rightarrow> string option) \<Rightarrow> bool" where
  "ENABLE_COLOR env \<longleftrightarrow> to_upper (getVar env ''ENABLE_COLOR'') \<noteq> ''0''"

definition LogToStr :: "bool \<Rightarrow> ELOG \<Rightarrow> string" where
  "LogToStr color level =
     (let esc = CHR 0x1B in
      case level of
        ERROR \<Rightarrow> if color then esc # ''[1;31mERROR'' @ esc # ''[0m '' else ''ERROR ''
      | DEBUG \<Rightarrow> if color then esc # ''[1;32mDEBUG'' @ esc # ''[0m '' else ''DEBUG ''
      | INFO \<Rightarrow> if color then esc # ''[1;34mINFO'' @ esc # ''[0m  '' else ''INFO  ''
      | CAT \<Rightarrow> '''')"

section \<open>The text of a message\<close>

text \<open>
  \<open>vsnprintf\<close> for a message that is \<open>msg\<close> when nothing limits it, on a buffer of \<open>sz\<close> characters,
  the last of which is for the terminating zero: the result and the characters written. The loops of \<open>Log\<close> and
  \<open>string_format\<close> grow the buffer until the message fits.
\<close>

definition vsnprintf :: "string \<Rightarrow> nat \<Rightarrow> int \<times> string" where
  "vsnprintf msg sz = (int (length msg), take (sz - 1) msg)"

partial_function (option) format_loop :: "string \<Rightarrow> nat \<Rightarrow> string option" where
  "format_loop msg sz =
     (let (n, str) = vsnprintf msg sz in
      if n > -1 \<and> n < int sz then Some (take (nat n) str)
      else if n > -1 then format_loop msg (nat (n + 1))
      else format_loop msg (sz * 2))"

definition string_format :: "string \<Rightarrow> string option" where
  "string_format msg = format_loop msg 100"

lemma format_fits: "length msg < sz \<Longrightarrow> format_loop msg sz = Some msg"
  by (subst format_loop.simps) (simp add: vsnprintf_def)

lemma format_grows: "format_loop msg sz = Some msg"
proof (cases "length msg < sz")
  case False
  then have "format_loop msg sz = format_loop msg (nat (int (length msg) + 1))"
    by (subst format_loop.simps) (simp add: vsnprintf_def)
  then show ?thesis using format_fits [of msg "nat (int (length msg) + 1)"] by simp
qed (rule format_fits)

section \<open>The log\<close>

datatype log_entry = Repeated int | Line ELOG string string

definition entry_text :: "bool \<Rightarrow> log_entry \<Rightarrow> string" where
  "entry_text color e =
     (case e of
        Repeated n \<Rightarrow> ''Last message repeated '' @ dec_int n @ '' times'' @ [CHR 0x0A]
      | Line level heure str \<Rightarrow>
          ''X10 - '' @ (if level \<noteq> CAT then heure @ LogToStr color level @ str @ [CHR 0x0A] else str))"

text \<open>\<open>m_logger\<close> is the name of the file that is open; without one the standard output is written.\<close>

record Logger =
  lg_fileName :: string
  lg_lastError :: string
  lg_lastErrorCount :: int
  lg_logger :: "string option"
  lg_out :: "(string option \<times> log_entry) list"

definition Logger_start :: Logger where
  "Logger_start =
     \<lparr>lg_fileName = '''', lg_lastError = '''', lg_lastErrorCount = 0, lg_logger = None, lg_out = []\<rparr>"

definition SetLastError :: "string \<Rightarrow> Logger \<Rightarrow> Logger" where
  "SetLastError v s = s\<lparr>lg_lastError := v\<rparr>"

definition ClearLastError :: "Logger \<Rightarrow> Logger" where
  "ClearLastError s = s\<lparr>lg_lastError := ''''\<rparr>"

definition Logger_Open :: "(string \<Rightarrow> bool) \<Rightarrow> Logger \<Rightarrow> bool \<times> Logger" where
  "Logger_Open fopen s =
     (if fopen (lg_fileName s) then (True, s\<lparr>lg_logger := Some (lg_fileName s)\<rparr>)
      else (False, s\<lparr>lg_logger := None, lg_fileName := ''''\<rparr>))"

definition Logger_Close :: "Logger \<Rightarrow> Logger" where
  "Logger_Close s =
     (if lg_logger s = None \<or> lg_fileName s = '''' then s else s\<lparr>lg_logger := None, lg_fileName := ''''\<rparr>)"

definition SetDestination :: "(string \<Rightarrow> bool) \<Rightarrow> string \<Rightarrow> Logger \<Rightarrow> bool \<times> Logger" where
  "SetDestination fopen fileName s =
     (if lg_fileName s = fileName then (True, s)
      else let s = (if lg_fileName s \<noteq> '''' then Logger_Close s else s);
               s = s\<lparr>lg_fileName := fileName\<rparr>
           in if fileName \<noteq> '''' then Logger_Open fopen s else (False, s))"

definition log_print :: "log_entry \<Rightarrow> Logger \<Rightarrow> Logger" where
  "log_print e s = s\<lparr>lg_out := lg_out s @ [(lg_logger s, e)]\<rparr>"

definition Log :: "bool \<Rightarrow> string \<Rightarrow> ELOG \<Rightarrow> string \<Rightarrow> Logger \<Rightarrow> Logger option" where
  "Log debug heure level msg s =
     (if level = DEBUG \<and> \<not> debug then Some s
      else case format_loop msg 100 of
        None \<Rightarrow> None
      | Some str \<Rightarrow>
          Some (if lg_lastError s = str then s\<lparr>lg_lastErrorCount := lg_lastErrorCount s + 1\<rparr>
                else let s = (if lg_lastErrorCount s \<noteq> 0
                              then (log_print (Repeated (lg_lastErrorCount s)) s)\<lparr>lg_lastErrorCount := 0\<rparr> else s)
                     in log_print (Line level heure str) (s\<lparr>lg_lastError := str\<rparr>)))"

section \<open>What the log tells\<close>

text \<open>The calls a program makes, and the messages that are to appear.\<close>

datatype log_op = LogMessage ELOG string string | LogClear | LogTo string

definition log_step :: "bool \<Rightarrow> (string \<Rightarrow> bool) \<Rightarrow> log_op \<Rightarrow> Logger \<Rightarrow> Logger option" where
  "log_step debug fopen op s =
     (case op of
        LogMessage level heure msg \<Rightarrow> Log debug heure level msg s
      | LogClear \<Rightarrow> Some (ClearLastError s)
      | LogTo f \<Rightarrow> Some (snd (SetDestination fopen f s)))"

fun log_run :: "bool \<Rightarrow> (string \<Rightarrow> bool) \<Rightarrow> log_op list \<Rightarrow> Logger \<Rightarrow> Logger option" where
  "log_run debug fopen [] s = Some s"
| "log_run debug fopen (op # ops) s = Option.bind (log_step debug fopen op s) (log_run debug fopen ops)"

fun op_message :: "bool \<Rightarrow> log_op \<Rightarrow> string list" where
  "op_message debug (LogMessage level heure msg) = (if level = DEBUG \<and> \<not> debug then [] else [msg])"
| "op_message debug LogClear = []"
| "op_message debug (LogTo f) = []"

text \<open>A reader of the log expands the counts.\<close>

fun read_entry :: "log_entry \<Rightarrow> string list \<Rightarrow> string list" where
  "read_entry (Line level heure str) msgs = msgs @ [str]"
| "read_entry (Repeated n) msgs = msgs @ replicate (nat n) (last msgs)"

definition read_log :: "log_entry list \<Rightarrow> string list" where
  "read_log es = fold read_entry es []"

lemma read_log_snoc [simp]: "read_log (es @ [e]) = read_entry e (read_log es)"
  by (simp add: read_log_def)

text \<open>Where the program is with a reader: what the count still keeps back.\<close>

definition log_told :: "Logger \<Rightarrow> string list" where
  "log_told s = read_entry (Repeated (lg_lastErrorCount s)) (read_log (map snd (lg_out s)))"

definition log_ok :: "Logger \<Rightarrow> bool" where
  "log_ok s \<longleftrightarrow> 0 \<le> lg_lastErrorCount s
     \<and> (lg_lastError s \<noteq> '''' \<longrightarrow> read_log (map snd (lg_out s)) \<noteq> [] \<and> last (read_log (map snd (lg_out s))) = lg_lastError s)
     \<and> lg_logger s = (if lg_fileName s = '''' then None else Some (lg_fileName s))"

lemma log_ok_start: "log_ok Logger_start"
  by (simp add: log_ok_def Logger_start_def)

lemma log_message:
  assumes "log_ok s" and "msg \<noteq> ''''"
  shows "\<exists>s'. Log debug heure level msg s = Some s' \<and> log_ok s'
    \<and> log_told s' = log_told s @ op_message debug (LogMessage level heure msg)"
proof (cases "lg_lastError s = msg")
  case True
  with assms show ?thesis
    by (auto simp: Log_def format_grows log_ok_def log_told_def nat_add_distrib replicate_append_same
        simp flip: replicate_Suc)
next
  case False
  with assms show ?thesis
    by (auto simp: Log_def format_grows log_ok_def log_told_def log_print_def Let_def)
qed

lemma destination_ok:
  "log_ok s \<Longrightarrow> log_ok (snd (SetDestination fopen f s)) \<and> lg_out (snd (SetDestination fopen f s)) = lg_out s
     \<and> lg_lastErrorCount (snd (SetDestination fopen f s)) = lg_lastErrorCount s"
  by (auto simp: SetDestination_def Logger_Close_def Logger_Open_def log_ok_def Let_def)

lemma log_step_told:
  assumes "log_ok s" and "\<forall>level heure. op \<noteq> LogMessage level heure ''''"
  shows "\<exists>s'. log_step debug fopen op s = Some s' \<and> log_ok s' \<and> log_told s' = log_told s @ op_message debug op"
proof (cases op)
  case (LogMessage level heure msg)
  with log_message [OF assms(1)] assms(2) show ?thesis by (simp add: log_step_def del: op_message.simps)
next
  case LogClear
  with assms(1) show ?thesis by (simp add: log_step_def ClearLastError_def log_ok_def log_told_def)
next
  case (LogTo f)
  with destination_ok [OF assms(1)] show ?thesis by (simp add: log_step_def log_told_def)
qed

lemma log_run_told:
  "log_ok s \<Longrightarrow> \<forall>level heure. LogMessage level heure '''' \<notin> set ops \<Longrightarrow>
     \<exists>s'. log_run debug fopen ops s = Some s' \<and> log_ok s' \<and> log_told s' = log_told s @ concat (map (op_message debug) ops)"
proof (induction ops arbitrary: s)
  case Nil
  then show ?case by simp
next
  case (Cons op ops)
  then obtain s1 where "log_step debug fopen op s = Some s1" "log_ok s1" "log_told s1 = log_told s @ op_message debug op"
    using log_step_told [of s op] by fastforce
  with Cons.IH [of s1] Cons.prems(2) show ?case by simp
qed

section \<open>Properties\<close>

text \<open>C38: the log tells all messages, in their order: whatever programs log, none of it empty, and wherever
  the log is directed, the lines with the counts written out are the messages that are not filtered, but for
  the last ones of equal text, which are counted and not yet told.\<close>

theorem log_tells_all:
  assumes "\<forall>level heure. LogMessage level heure '''' \<notin> set ops"
  shows "\<exists>s. log_run debug fopen ops Logger_start = Some s \<and>
    (let told = read_log (map snd (lg_out s))
     in told @ replicate (nat (lg_lastErrorCount s)) (last told) = concat (map (op_message debug) ops))"
proof -
  have "log_told Logger_start = []" by (simp add: log_told_def Logger_start_def read_log_def)
  with log_run_told [OF log_ok_start assms] show ?thesis by (auto simp: log_told_def Let_def)
qed

theorem log_tells_all_witness:
  "\<exists>s. log_run False (\<lambda>f. False) [LogMessage ERROR ''12:00:00 '' ''a'', LogMessage INFO ''12:00:01 '' ''a'',
      LogMessage INFO ''12:00:02 '' ''b''] Logger_start = Some s
    \<and> lg_out s = [(None, Line ERROR ''12:00:00 '' ''a''), (None, Repeated 1), (None, Line INFO ''12:00:02 '' ''b'')]
    \<and> read_log (map snd (lg_out s)) = [''a'', ''a'', ''b'']"
proof -
  let ?ops = "[LogMessage ERROR ''12:00:00 '' ''a'', LogMessage INFO ''12:00:01 '' ''a'',
      LogMessage INFO ''12:00:02 '' ''b'']"
  obtain s where s: "log_run False (\<lambda>f. False) ?ops Logger_start = Some s"
    "read_log (map snd (lg_out s)) @ replicate (nat (lg_lastErrorCount s)) (last (read_log (map snd (lg_out s))))
       = concat (map (op_message False) ?ops)"
    using log_tells_all [of ?ops False "\<lambda>f. False"] by (auto simp: Let_def)
  then have "lg_out s = [(None, Line ERROR ''12:00:00 '' ''a''), (None, Repeated 1), (None, Line INFO ''12:00:02 '' ''b'')]"
      "lg_lastErrorCount s = 0"
    by (auto simp: log_step_def Log_def format_grows Logger_start_def log_print_def)
  with s show ?thesis by simp
qed

end
