(* ===== verification/X10_Layout.thy ===== *)
theory X10_Layout
  imports X10_Widget "HOL-Library.Multiset"
begin

text \<open>
  How the applet shows its units: the pictures of \<open>plasmoid/icons/resources\<close>, the rows of controls that
  \<open>layoutControlWidgets\<close> of \<open>x10-widget.cpp\<close> builds, and the applet among the events that change its table.
\<close>

section \<open>Icons\<close>

datatype EICON = ICON_ON | ICON_ON_TIMER | ICON_OFF | ICON_DOWN | ICON_UP | ICON_APPON | ICON_APPOFF
  | ICON_APPPOWERING | ICON_RULES

definition IconName :: "string \<Rightarrow> EICON \<Rightarrow> string" where
  "IconName prefix icon = prefix @ ''/share/x10-widget/'' @
     (case icon of
        ICON_ON \<Rightarrow> ''light_on.png''
      | ICON_ON_TIMER \<Rightarrow> ''light_on_timer.png''
      | ICON_OFF \<Rightarrow> ''light_off.png''
      | ICON_DOWN \<Rightarrow> ''arrowdown.png''
      | ICON_UP \<Rightarrow> ''arrowup.png''
      | ICON_APPON \<Rightarrow> ''connect_established.png''
      | ICON_APPOFF \<Rightarrow> ''connect_no.png''
      | ICON_APPPOWERING \<Rightarrow> ''connect_creating.png''
      | ICON_RULES \<Rightarrow> ''clock.png'')"

text \<open>\<open>QIcon\<close> of a file is \<open>load\<close>; the nine members are loaded once, by the constructor.\<close>

record 'icon ResManager =
  m_iconOn :: 'icon
  m_iconOnTimer :: 'icon
  m_iconOff :: 'icon
  m_iconDown :: 'icon
  m_iconUp :: 'icon
  m_iconAppOn :: 'icon
  m_iconAppOff :: 'icon
  m_iconAppPowering :: 'icon
  m_iconRules :: 'icon

definition ResManager_new :: "(string \<Rightarrow> 'icon) \<Rightarrow> string \<Rightarrow> 'icon ResManager" where
  "ResManager_new load prefix =
     \<lparr>m_iconOn = load (IconName prefix ICON_ON), m_iconOnTimer = load (IconName prefix ICON_ON_TIMER),
      m_iconOff = load (IconName prefix ICON_OFF), m_iconDown = load (IconName prefix ICON_DOWN),
      m_iconUp = load (IconName prefix ICON_UP), m_iconAppOn = load (IconName prefix ICON_APPON),
      m_iconAppOff = load (IconName prefix ICON_APPOFF),
      m_iconAppPowering = load (IconName prefix ICON_APPPOWERING),
      m_iconRules = load (IconName prefix ICON_RULES)\<rparr>"

definition ResManager_Icon :: "'icon ResManager \<Rightarrow> EICON \<Rightarrow> 'icon" where
  "ResManager_Icon m icon =
     (case icon of
        ICON_ON \<Rightarrow> m_iconOn m
      | ICON_ON_TIMER \<Rightarrow> m_iconOnTimer m
      | ICON_OFF \<Rightarrow> m_iconOff m
      | ICON_DOWN \<Rightarrow> m_iconDown m
      | ICON_UP \<Rightarrow> m_iconUp m
      | ICON_APPON \<Rightarrow> m_iconAppOn m
      | ICON_APPOFF \<Rightarrow> m_iconAppOff m
      | ICON_APPPOWERING \<Rightarrow> m_iconAppPowering m
      | ICON_RULES \<Rightarrow> m_iconRules m)"

lemma icon_of_name: "ResManager_Icon (ResManager_new load prefix) icon = load (IconName prefix icon)"
  by (cases icon) (simp_all add: ResManager_Icon_def ResManager_new_def)

section \<open>Rows of controls\<close>

text \<open>
  The proxy of Qt sorts the rows of the table by \<open>COL_COL\<close> and then by \<open>COL_ROW\<close>: \<open>order ns\<close> is what
  \<open>mapToSource\<close> gives for its rows, one after the other. The sorting of Qt is an argument; what is relied
  on is that it is a sorting by \<open>COL_ROW\<close>.
\<close>

type_synonym proxy = "ControlWidgetInfo list \<Rightarrow> nat list"

definition proxy_ok :: "proxy \<Rightarrow> bool" where
  "proxy_ok order \<longleftrightarrow>
     (\<forall>ns. mset (order ns) = mset [0..<length ns] \<and> sorted (map (\<lambda>k. irow (ns ! k)) (order ns)))"

text \<open>The state of the loop: the nodes, the rows of the layout with their nodes, and \<open>m_lastRow\<close> once set.\<close>

fun layout_loop ::
    "widget_env \<Rightarrow> nat list \<Rightarrow> ControlWidgetInfo list \<times> nat list list \<times> int option
       \<Rightarrow> (ControlWidgetInfo list \<times> nat list list) option" where
  "layout_loop env [] (ns, rows, lastRow) = Some (ns, rows)"
| "layout_loop env (k # ks) (ns, rows, lastRow) =
     (if k < length ns
      then let i = ns ! k;
               (rows, lastRow) = (if lastRow \<noteq> Some (irow i) then (rows @ [[]], Some (irow i)) else (rows, lastRow));
               i = UpdateWidget env (CreateWidget env i)
           in layout_loop env ks (ns[k := i], butlast rows @ [last rows @ [k]], lastRow)
      else None)"

definition layout_rows ::
    "proxy \<Rightarrow> widget_env \<Rightarrow> ControlWidgetInfo list \<Rightarrow> (ControlWidgetInfo list \<times> nat list list) option" where
  "layout_rows order env ns = layout_loop env (order ns) (ns, [], None)"

section \<open>The rows are those of the table\<close>

abbreviation shown :: "widget_env \<Rightarrow> ControlWidgetInfo \<Rightarrow> ControlWidgetInfo" where
  "shown env i \<equiv> UpdateWidget env (CreateWidget env i)"

lemma shown_row [simp]: "irow (shown env i) = irow i"
  by (simp add: UpdateWidget_def CreateWidget_def split: option.splits)

text \<open>A control is put at the end of the last row, or in a new one. Rows have one number each.\<close>

definition place_in :: "(nat \<Rightarrow> int) \<Rightarrow> nat list list \<Rightarrow> nat \<Rightarrow> nat list list" where
  "place_in f rows k =
     (if rows \<noteq> [] \<and> f (hd (last rows)) = f k then butlast rows @ [last rows @ [k]] else rows @ [[k]])"

definition one_row :: "(nat \<Rightarrow> int) \<Rightarrow> nat list \<Rightarrow> bool" where
  "one_row f r \<longleftrightarrow> r \<noteq> [] \<and> (\<forall>k \<in> set r. f k = f (hd r))"

lemma one_row_intros [intro]: "one_row f [k]" "one_row f r \<Longrightarrow> f (hd r) = f k \<Longrightarrow> one_row f (r @ [k])"
  unfolding one_row_def by (simp, metis Un_iff append_is_Nil_conv empty_iff empty_set hd_append2 insert_iff list.set(2) set_append)

lemma one_row_nonempty: "one_row f r \<Longrightarrow> r \<noteq> []"
  by (simp add: one_row_def)

definition rows_ok :: "(nat \<Rightarrow> int) \<Rightarrow> nat list list \<Rightarrow> bool" where
  "rows_ok f rows \<longleftrightarrow>
     (\<forall>r \<in> set rows. one_row f r) \<and> sorted_wrt (<) (map (\<lambda>r. f (hd r)) rows)"

lemma rows_ok_simps:
  "rows_ok f []"
  "rows_ok f (rs @ [r]) \<longleftrightarrow> rows_ok f rs \<and> one_row f r \<and> (\<forall>r' \<in> set rs. f (hd r') < f (hd r))"
  by (auto simp: rows_ok_def sorted_wrt_append)

lemma place_in_ok:
  assumes "rows_ok f rows" and "\<forall>r \<in> set rows. f (hd r) \<le> f k"
  shows "rows_ok f (place_in f rows k)" and "concat (place_in f rows k) = concat rows @ [k]"
    and "set (map (\<lambda>r. f (hd r)) (place_in f rows k)) = insert (f k) (set (map (\<lambda>r. f (hd r)) rows))"
proof -
  have "rows_ok f (place_in f rows k) \<and> concat (place_in f rows k) = concat rows @ [k]
    \<and> set (map (\<lambda>r. f (hd r)) (place_in f rows k)) = insert (f k) (set (map (\<lambda>r. f (hd r)) rows))"
  proof (cases rows rule: rev_cases)
    case Nil
    then show ?thesis using rows_ok_simps(2) [of f "[]" "[k]"] by (auto simp: place_in_def rows_ok_simps)
  next
    case (snoc rs r)
    have r: "rows_ok f rs" "one_row f r" "\<forall>r' \<in> set rs. f (hd r') < f (hd r)" "r \<noteq> []"
      using assms(1) one_row_nonempty unfolding snoc rows_ok_simps by auto
    show ?thesis
    proof (cases "f (hd r) = f k")
      case True
      have p: "place_in f rows k = rs @ [r @ [k]]" using True by (simp add: place_in_def snoc)
      have "rows_ok f (rs @ [r @ [k]])" unfolding rows_ok_simps using r True by (auto simp: hd_append)
      then show ?thesis unfolding p using r(4) True by (auto simp: snoc)
    next
      case False
      have "f (hd r) < f k" using assms(2) False by (simp add: snoc order.not_eq_order_implies_strict)
      then have "rows_ok f (rows @ [[k]])" unfolding rows_ok_simps using r(3) assms(1) by (auto simp: snoc)
      moreover have "place_in f rows k = rows @ [[k]]" using False by (simp add: place_in_def snoc)
      ultimately show ?thesis by auto
    qed
  qed
  then show "rows_ok f (place_in f rows k)" and "concat (place_in f rows k) = concat rows @ [k]"
    and "set (map (\<lambda>r. f (hd r)) (place_in f rows k)) = insert (f k) (set (map (\<lambda>r. f (hd r)) rows))" by auto
qed

lemma placed_ok:
  "rows_ok f rows \<Longrightarrow> sorted (map f ks) \<Longrightarrow> \<forall>r \<in> set rows. \<forall>k \<in> set ks. f (hd r) \<le> f k \<Longrightarrow>
     rows_ok f (foldl (place_in f) rows ks) \<and> concat (foldl (place_in f) rows ks) = concat rows @ ks"
proof (induction ks arbitrary: rows)
  case (Cons k ks)
  have "\<forall>r \<in> set rows. f (hd r) \<le> f k" using Cons.prems(3) by simp
  note p = place_in_ok [OF Cons.prems(1) this]
  have "\<forall>r \<in> set (place_in f rows k). \<forall>j \<in> set ks. f (hd r) \<le> f j"
  proof (intro ballI)
    fix r j assume r: "r \<in> set (place_in f rows k)" and j: "j \<in> set ks"
    have "f (hd r) \<in> insert (f k) (set (map (\<lambda>r. f (hd r)) rows))" unfolding p(3) [symmetric] using r by auto
    then show "f (hd r) \<le> f j" using Cons.prems(2,3) j by auto
  qed
  with Cons.IH [OF p(1)] Cons.prems(2) p(2) show ?case by simp
qed simp

lemma layout_loop_eq:
  assumes "\<forall>k < length ns. irow (ns ! k) = f k" and "\<forall>k \<in> set ks. k < length ns" and "[] \<notin> set rows"
    and "lastRow = (if rows = [] then None else Some (f (hd (last rows))))"
  shows "layout_loop env ks (ns, rows, lastRow) =
    Some (foldl (\<lambda>ns k. ns[k := shown env (ns ! k)]) ns ks, foldl (place_in f) rows ks)"
  using assms
proof (induction ks arbitrary: ns rows lastRow)
  case (Cons k ks)
  let ?ns = "ns[k := shown env (ns ! k)]" and ?rows = "place_in f rows k"
  have k: "k < length ns" and f: "irow (ns ! k) = f k" using Cons.prems(1,2) by simp_all
  have ih: "layout_loop env ks (?ns, ?rows, Some (f k)) =
      Some (foldl (\<lambda>ns k. ns[k := shown env (ns ! k)]) ?ns ks, foldl (place_in f) ?rows ks)"
  proof (rule Cons.IH)
    show "\<forall>j < length ?ns. irow (?ns ! j) = f j" using Cons.prems(1) k by (auto simp: nth_list_update)
    show "[] \<notin> set ?rows" using Cons.prems(3) by (auto simp: place_in_def dest: in_set_butlastD)
    show "Some (f k) = (if ?rows = [] then None else Some (f (hd (last ?rows))))"
      using Cons.prems(3) by (auto simp: place_in_def hd_append dest: last_in_set)
  qed (use Cons.prems(2) in simp)
  show ?case
    using ih k Cons.prems(4) by (auto simp: f place_in_def [of f rows k] Let_def split: if_splits)
qed simp

lemma shown_all:
  assumes "distinct ks" and "\<forall>k \<in> set ks. k < length ns"
  shows "foldl (\<lambda>ns k. ns[k := g (ns ! k)]) ns ks = map (\<lambda>k. if k \<in> set ks then g (ns ! k) else ns ! k) [0..<length ns]"
  using assms
proof (induction ks arbitrary: ns)
  case Nil
  then show ?case by (simp add: map_nth)
next
  case (Cons k ks)
  then show ?case by (auto simp: nth_list_update intro!: nth_equalityI)
qed

text \<open>What the proxy gives leads to the nodes of \<open>layoutControlWidgets\<close>, and to their rows.\<close>

lemma layout_rows_eq:
  assumes "proxy_ok order"
  shows "\<exists>rows. layout_rows order env ns = Some (map (shown env) ns, rows) \<and> concat rows = order ns
    \<and> rows_ok (\<lambda>k. irow (ns ! k)) rows"
proof -
  let ?f = "\<lambda>k. irow (ns ! k)" and ?ks = "order ns"
  have p: "mset ?ks = mset [0..<length ns]" "sorted (map ?f ?ks)" using assms by (auto simp: proxy_ok_def)
  have set: "set ?ks = {0..<length ns}" using mset_eq_setD [OF p(1)] by simp
  have dist: "distinct ?ks" using mset_eq_imp_distinct_iff [OF p(1)] by simp
  have "layout_rows order env ns =
      Some (foldl (\<lambda>ns k. ns[k := shown env (ns ! k)]) ns ?ks, foldl (place_in ?f) [] ?ks)"
    unfolding layout_rows_def by (rule layout_loop_eq) (use set in auto)
  moreover have "foldl (\<lambda>ns k. ns[k := shown env (ns ! k)]) ns ?ks = map (shown env) ns"
    using shown_all [OF dist, of ns "shown env"] set by (auto intro!: nth_equalityI)
  moreover have "rows_ok ?f (foldl (place_in ?f) [] ?ks) \<and> concat (foldl (place_in ?f) [] ?ks) = ?ks"
    using placed_ok [OF rows_ok_simps(1) p(2)] by simp
  ultimately show ?thesis by auto
qed

section \<open>The applet among its events\<close>

text \<open>The actions of the menu with the slots they trigger, and the start of the applet: whether it fails for want of
  icons, its actions, the sources it connects to, and the applet with its configuration.\<close>

datatype menu_action = ActionAllOff | ActionAllOn

definition createMenu :: "menu_action list" where
  "createMenu = [ActionAllOff, ActionAllOn]"

fun menu_slot :: "widget_env \<Rightarrow> menu_action \<Rightarrow> X10Widget \<Rightarrow> X10Widget option" where
  "menu_slot env ActionAllOff x = widget_AllOff env x"
| "menu_slot env ActionAllOn x = widget_AllOn env x"

definition widget_init ::
    "qt_number \<Rightarrow> widget_env \<Rightarrow> bool \<Rightarrow> kgroup \<Rightarrow> (string list \<times> kconfig) option \<Rightarrow> X10Widget
       \<Rightarrow> bool \<times> menu_action list \<times> string list \<times> X10Widget" where
  "widget_init q env noIcon cg ng x =
     (noIcon, createMenu, if w_valid env then [SOURCE_PROPERTIES] else [], widget_readConfig q env cg ng x)"

text \<open>
  What changes the rows: the configuration file, the data of the engine, the buttons and cells of the dialog and
  its end, the menu. A removed row is a selected one.
\<close>

datatype applet_op =
    ReadConfig kgroup "(string list \<times> kconfig) option"
  | EngineData string "string \<Rightarrow> QVariant option"
  | EditCell QModelIndex QVariant role
  | AddNode
  | RemoveNode nat
  | AcceptConfig SettingsForm
  | CancelConfig
  | RestoreDefaults
  | Menu menu_action

definition settingsRestoreDefaults :: "X10Widget \<Rightarrow> X10Widget \<times> SettingsForm" where
  "settingsRestoreDefaults x = (let x = x\<lparr>x_config := defaultConfig\<rparr> in (rulesToCfg x, plasmoidToCfg x))"

fun applet_step :: "qt_number \<Rightarrow> Rule \<Rightarrow> widget_env \<times> applet_op \<Rightarrow> X10Widget \<Rightarrow> X10Widget option" where
  "applet_step q fresh (env, ReadConfig cg ng) x = Some (widget_readConfig q env cg ng x)"
| "applet_step q fresh (env, EngineData source data) x = Some (applet_dataUpdated q fresh source data x)"
| "applet_step q fresh (env, EditCell i v r) x =
     map_option (\<lambda>(b, ns). x\<lparr>m_nodes := ns\<rparr>) (model_setData q i v r (m_nodes x))"
| "applet_step q fresh (env, AddNode) x = nodeButtonAdd q env x"
| "applet_step q fresh (env, RemoveNode row) x = nodeButtonRem row x"
| "applet_step q fresh (env, AcceptConfig f) x = Some (snd (configAccepted env f x))"
| "applet_step q fresh (env, CancelConfig) x = Some (configCancelled q fresh env x)"
| "applet_step q fresh (env, RestoreDefaults) x = Some (fst (settingsRestoreDefaults x))"
| "applet_step q fresh (env, Menu a) x = menu_slot env a x"

definition with_controls :: "ControlWidgetInfo list \<Rightarrow> bool" where
  "with_controls ns \<longleftrightarrow> (\<forall>i \<in> set ns. i_widget i \<noteq> None)"

lemma layout_controls [simp]: "with_controls (m_nodes (layoutControlWidgets env x))"
  using layout_has_widgets [of env x] by (simp add: with_controls_def list_all_iff)

lemma edit_keeps_control:
  "edit_cell q col v i = Some j \<Longrightarrow> i_widget j = i_widget i"
  "check_cell col v i = Some j \<Longrightarrow> i_widget j = i_widget i"
  by (auto simp: edit_cell_def check_cell_def set_style_def split: if_splits)

lemma setData_controls:
  assumes "model_setData q x v r ns = Some (b, ms)" and "with_controls ns"
  shows "with_controls ms"
proof (cases "ms = ns")
  case False
  let ?k = "nat (x_row x)"
  obtain i where i: "ms = ns[?k := i]" "i_widget i = i_widget (ns ! ?k)" and k: "0 \<le> x_row x" "x_row x < rowCount ns"
    using assms(1) False edit_keeps_control
    by (auto simp: model_setData_def Let_def split: if_splits option.splits)
  have "?k < length ns" using k by (simp add: rowCount_def nat_less_iff)
  then have "i_widget i \<noteq> None" using assms(2) i(2) by (simp add: with_controls_def)
  then show ?thesis
    using assms(2) set_update_subset_insert [of ns ?k i] unfolding i(1) with_controls_def by blast
qed (use assms(2) in simp)

lemma for_all_nodes_controls: "for_all_nodes f ns = Some ms \<Longrightarrow> with_controls ms"
  by (induction ns arbitrary: ms) (auto simp: with_controls_def on_widget_def split: option.splits)

lemma removeRows_controls: "removeRows p n ns = Some ms \<Longrightarrow> with_controls ns \<Longrightarrow> with_controls ms"
  by (induction p n ns rule: removeRows.induct)
     (auto simp: with_controls_def split: if_splits dest: in_set_takeD in_set_dropD)

lemma nodeButtonRem_controls:
  assumes "nodeButtonRem row x = Some y" and "with_controls (m_nodes x)"
  shows "with_controls (m_nodes y)"
proof -
  let ?ns = "m_nodes x"
  have row: "row < length ?ns" and y: "m_nodes y = take row ?ns @ drop (Suc row) ?ns"
    using assms(1) by (auto simp: nodeButtonRem_def numeral_eq_Suc split: if_splits)
  then show ?thesis using assms(2) by (auto simp: with_controls_def dest: in_set_takeD in_set_dropD)
qed

lemma applet_step_controls:
  assumes "applet_step q fresh (env, op) x = Some y" and "with_controls (m_nodes x)"
  shows "with_controls (m_nodes y)"
proof (cases op)
  case (ReadConfig cg ng)
  with assms show ?thesis
    by (auto simp: widget_readConfig_def Let_def layout_controls split: option.splits)
next
  case (EditCell i v r)
  with assms setData_controls show ?thesis by auto
next
  case AddNode
  with assms show ?thesis
    by (auto simp: nodeButtonAdd_def Let_def layout_controls split: option.splits)
next
  case (RemoveNode row)
  with assms nodeButtonRem_controls show ?thesis by auto
next
  case (Menu a)
  with assms show ?thesis
    by (cases a) (auto simp: widget_AllOn_def widget_AllOff_def dest: for_all_nodes_controls)
qed (use assms in \<open>auto simp: applet_dataUpdated_def configAccepted_def configCancelled_def
      settingsRestoreDefaults_def rulesToCfg_def layout_controls Let_def\<close>)

lemma applet_run_controls:
  assumes "fold_opt (applet_step q fresh) ops (X10Widget_new garbage) = Some x"
  shows "with_controls (m_nodes x)"
proof -
  have "with_controls (m_nodes y) \<Longrightarrow> fold_opt (applet_step q fresh) ops y = Some x \<Longrightarrow> with_controls (m_nodes x)" for y
    by (induction ops arbitrary: y) (auto split: option.splits dest: applet_step_controls)
  from this [OF _ assms] show ?thesis by (simp add: X10Widget_new_def with_controls_def)
qed

section \<open>Properties\<close>

text \<open>C35: whatever happens to the applet, every row of its table has a control, so that the menu's commands to
  all units reach all of them, and the layout shows each control once: the controls with one row number make
  one row, the rows are in the order of their numbers, and laying out changes nothing but the controls.\<close>

theorem layout_places_every_control:
  assumes "fold_opt (applet_step q fresh) ops (X10Widget_new garbage) = Some x" and "proxy_ok order"
  shows "widget_AllOff env x \<noteq> None \<and> widget_AllOn env x \<noteq> None
    \<and> (\<exists>rows. layout_rows order env (m_nodes x) = Some (m_nodes (layoutControlWidgets env x), rows)
        \<and> mset (concat rows) = mset [0..<length (m_nodes x)]
        \<and> (\<forall>r \<in> set rows. r \<noteq> [] \<and> (\<forall>k \<in> set r. irow (m_nodes x ! k) = irow (m_nodes x ! hd r)))
        \<and> sorted_wrt (<) (map (\<lambda>r. irow (m_nodes x ! hd r)) rows))"
proof -
  have "list_all (\<lambda>i. i_widget i \<noteq> None) (m_nodes x)"
    using applet_run_controls [OF assms(1)] by (simp add: with_controls_def list_all_iff)
  then have all: "for_all_nodes f (m_nodes x) \<noteq> None" for f
    using for_all_nodes_Some [of "m_nodes x" f] by auto
  obtain rows where "layout_rows order env (m_nodes x) = Some (map (shown env) (m_nodes x), rows)"
      "concat rows = order (m_nodes x)" "rows_ok (\<lambda>k. irow (m_nodes x ! k)) rows"
    using layout_rows_eq [OF assms(2)] by blast
  moreover have "mset (order (m_nodes x)) = mset [0..<length (m_nodes x)]"
    using assms(2) by (simp add: proxy_ok_def)
  moreover have "m_nodes (layoutControlWidgets env x) = map (shown env) (m_nodes x)"
    by (simp add: layoutControlWidgets_def)
  ultimately have "\<exists>rows. layout_rows order env (m_nodes x) = Some (m_nodes (layoutControlWidgets env x), rows)
        \<and> mset (concat rows) = mset [0..<length (m_nodes x)]
        \<and> (\<forall>r \<in> set rows. r \<noteq> [] \<and> (\<forall>k \<in> set r. irow (m_nodes x ! k) = irow (m_nodes x ! hd r)))
        \<and> sorted_wrt (<) (map (\<lambda>r. irow (m_nodes x ! hd r)) rows)"
    unfolding rows_ok_def one_row_def by (intro exI [of _ rows]) (simp only:, blast)
  moreover have "widget_AllOff env x \<noteq> None" "widget_AllOn env x \<noteq> None"
    using all by (simp_all add: widget_AllOff_def widget_AllOn_def)
  ultimately show ?thesis by blast
qed

text \<open>A sorting by row numbers that keeps the order of the table, and an applet with two new rows.\<close>

definition stable_proxy :: proxy where
  "stable_proxy ns = sort_key (\<lambda>k. irow (ns ! k)) [0..<length ns]"

lemma stable_proxy_ok: "proxy_ok stable_proxy"
  by (simp add: proxy_ok_def stable_proxy_def)

definition new_applet :: X10Widget where
  "new_applet = X10Widget_new ('''', False)"

definition two_rows :: X10Widget where
  "two_rows = the (fold_opt (applet_step std_number text_rule) [(sample_desktop, AddNode), (sample_desktop, AddNode)] new_applet)"

lemma added_row:
  "\<exists>y. nodeButtonAdd q env x = Some y \<and> length (m_nodes y) = Suc (length (m_nodes x))"
proof -
  obtain i ns where "insertRows 0 1 (m_nodes x) = i # ns" "length ns = length (m_nodes x)"
    by (simp add: insertRows_def insertRow_def Let_def case_prod_beta)
  then show ?thesis
    by (simp add: nodeButtonAdd_def model_setData_def rowCount_def edit_cell_def col_defs layoutControlWidgets_def Let_def)
qed

theorem layout_places_every_control_witness:
  "\<exists>rows. layout_rows stable_proxy sample_desktop (m_nodes two_rows)
       = Some (m_nodes (layoutControlWidgets sample_desktop two_rows), rows) \<and> length (concat rows) = 2"
proof -
  obtain y where y: "nodeButtonAdd std_number sample_desktop new_applet = Some y" "length (m_nodes y) = 1"
    using added_row [of std_number sample_desktop new_applet] by (auto simp: new_applet_def X10Widget_new_def)
  obtain z where z: "nodeButtonAdd std_number sample_desktop y = Some z" "length (m_nodes z) = 2"
    using added_row [of std_number sample_desktop y] y(2) by auto
  have run: "fold_opt (applet_step std_number text_rule) [(sample_desktop, AddNode), (sample_desktop, AddNode)]
      (X10Widget_new ('''', False)) = Some two_rows" and len: "length (m_nodes two_rows) = 2"
    using y z by (simp_all add: two_rows_def new_applet_def)
  obtain rows where r: "layout_rows stable_proxy sample_desktop (m_nodes two_rows)
       = Some (m_nodes (layoutControlWidgets sample_desktop two_rows), rows)"
      "mset (concat rows) = mset [0..<length (m_nodes two_rows)]"
    using layout_places_every_control [OF run stable_proxy_ok, of sample_desktop] by blast
  from arg_cong [OF r(2), of size] r(1) len show ?thesis by auto
qed

end
