(* ===== verification/X10_Rule_Events.thy ===== *)
theory X10_Rule_Events
  imports X10_Rule_Editor
begin

text \<open>
  The page of the rules among the events of its user: the connections that \<open>createConfigurationInterface\<close> of
  \<open>plasmoid/x10-widget.cpp\<close> makes between signals and slots, the signals that an event of the user emits, and
  the list of the rules under all of them.
\<close>

section \<open>Connections\<close>

datatype weekday = Mon | Tue | Wed | Thu | Fri | Sat | Sun

datatype form_signal =
    Enabled_clicked
  | Day_clicked weekday
  | Action_activated
  | Time_changed "int \<times> int"
  | Times_changed int
  | Period_changed int
  | Add_clicked
  | Remove_clicked
  | Clear_clicked
  | CurrentItem_changed
  | Address_edited
  | Action_indexChanged string
  | Action_edited
  | Rules_updated

text \<open>The slot that each signal is connected to; \<open>ruleCurrentItemChanged\<close> loads the current row.\<close>

fun run_signal :: "qt_number \<Rightarrow> (int \<Rightarrow> tm) \<Rightarrow> int \<Rightarrow> form_signal \<Rightarrow> RuleEditor \<Rightarrow> RuleEditor option" where
  "run_signal q lt now Rules_updated e = Some (rules_to_list e)"
| "run_signal q lt now Enabled_clicked e = Some (ruleSettingsModified e)"
| "run_signal q lt now (Day_clicked d) e = Some (ruleSettingsModified e)"
| "run_signal q lt now Action_activated e = Some (ruleSettingsModified e)"
| "run_signal q lt now (Time_changed t) e = ruleTimeExecTimeChanged t e"
| "run_signal q lt now (Times_changed v) e = ruleSpinBoxRepeatTimesChanged v e"
| "run_signal q lt now (Period_changed v) e = ruleSpinBoxRepeatPeriodChanged v e"
| "run_signal q lt now Add_clicked e = ruleButtonAdd q lt now e"
| "run_signal q lt now Remove_clicked e = ruleButtonRem q e"
| "run_signal q lt now Clear_clicked e = Some (ruleButtonClear e)"
| "run_signal q lt now CurrentItem_changed e = loadRule q (e_row e) e"
| "run_signal q lt now Address_edited e = Some (ruleLineEditAddressTextChanged q e)"
| "run_signal q lt now (Action_indexChanged action) e = Some (ruleComboBoxActionIndexChanged q action e)"
| "run_signal q lt now Action_edited e = Some (ruleLineEditActionTextChanged q e)"

section \<open>The user\<close>

text \<open>
  What the user does to the page; a time, a number or an index is one that the widget offers. An item of the
  combo box that is chosen again emits \<open>activated\<close> only.
\<close>

datatype rule_event =
    ClickEnabled bool
  | ClickDay weekday bool
  | ChooseAction int
  | EnterTime int int
  | EnterTimes int
  | EnterPeriod int
  | PressAdd
  | PressRemove
  | PressClear
  | SelectRow nat
  | TypeAddress string
  | TypeAction string

fun set_day :: "weekday \<Rightarrow> bool \<Rightarrow> RuleForm \<Rightarrow> RuleForm" where
  "set_day Mon b f = f\<lparr>checkBox_Mon := b\<rparr>"
| "set_day Tue b f = f\<lparr>checkBox_Tue := b\<rparr>"
| "set_day Wed b f = f\<lparr>checkBox_Wed := b\<rparr>"
| "set_day Thu b f = f\<lparr>checkBox_Thu := b\<rparr>"
| "set_day Fri b f = f\<lparr>checkBox_Fri := b\<rparr>"
| "set_day Sat b f = f\<lparr>checkBox_Sat := b\<rparr>"
| "set_day Sun b f = f\<lparr>checkBox_Sun := b\<rparr>"

abbreviation on_form :: "(RuleForm \<Rightarrow> RuleForm) \<Rightarrow> RuleEditor \<Rightarrow> RuleEditor" where
  "on_form g e \<equiv> e\<lparr>e_form := g (e_form e)\<rparr>"

text \<open>
  The form takes the change, then the slots of the signals run. The buttons and the form answer only while they
  are enabled, which is left open here: what holds for all events holds for those.
\<close>

fun rule_step ::
    "qt_number \<Rightarrow> (int \<Rightarrow> tm) \<Rightarrow> int \<Rightarrow> rule_event \<Rightarrow> RuleEditor \<Rightarrow> RuleEditor option" where
  "rule_step q lt now (ClickEnabled b) e =
     run_signal q lt now Enabled_clicked (on_form (\<lambda>f. f\<lparr>checkBoxEnabled := b\<rparr>) e)"
| "rule_step q lt now (ClickDay d b) e = run_signal q lt now (Day_clicked d) (on_form (set_day d b) e)"
| "rule_step q lt now (ChooseAction i) e =
     (if actionIndex (e_form e) = i then run_signal q lt now Action_activated e
      else Option.bind (run_signal q lt now (Action_indexChanged (comboText i)) (on_form (\<lambda>f. f\<lparr>actionIndex := i\<rparr>) e))
             (run_signal q lt now Action_activated))"
| "rule_step q lt now (EnterTime h m) e =
     (if timeExec (e_form e) = (h, m) then Some e
      else run_signal q lt now (Time_changed (h, m)) (on_form (\<lambda>f. f\<lparr>timeExec := (h, m)\<rparr>) e))"
| "rule_step q lt now (EnterTimes v) e =
     (if spin_repeatTimes (e_form e) = v then Some e
      else run_signal q lt now (Times_changed v) (on_form (\<lambda>f. f\<lparr>spin_repeatTimes := v\<rparr>) e))"
| "rule_step q lt now (EnterPeriod v) e =
     (if spin_repeatPeriod (e_form e) = v then Some e
      else run_signal q lt now (Period_changed v) (on_form (\<lambda>f. f\<lparr>spin_repeatPeriod := v\<rparr>) e))"
| "rule_step q lt now PressAdd e = run_signal q lt now Add_clicked e"
| "rule_step q lt now PressRemove e = run_signal q lt now Remove_clicked e"
| "rule_step q lt now PressClear e = run_signal q lt now Clear_clicked e"
| "rule_step q lt now (SelectRow r) e =
     (if r < length (e_texts e) \<and> e_row e \<noteq> int r
      then run_signal q lt now CurrentItem_changed (e\<lparr>e_row := int r\<rparr>) else Some e)"
| "rule_step q lt now (TypeAddress s) e =
     run_signal q lt now Address_edited (on_form (\<lambda>f. f\<lparr>addressText := s\<rparr>) e)"
| "rule_step q lt now (TypeAction s) e =
     run_signal q lt now Action_edited (on_form (\<lambda>f. f\<lparr>actionText := s\<rparr>) e)"

text \<open>
  The dialog around the page: whether \<open>RulesUpdated\<close> is connected, which \<open>configAccepted\<close> ends, also for the
  button that applies the changes and keeps the dialog open, after it has saved the current rule. Rules that
  come from the service replace those of the applet in any case.
\<close>

datatype dialog_event = OnPage rule_event | PressApply | RulesFromService "Rule list"

fun dialog_step ::
    "qt_number \<Rightarrow> (int \<Rightarrow> tm) \<Rightarrow> int \<Rightarrow> dialog_event \<Rightarrow> bool \<times> RuleEditor \<Rightarrow> (bool \<times> RuleEditor) option" where
  "dialog_step q lt now (OnPage ev) (connected, e) = map_option (Pair connected) (rule_step q lt now ev e)"
| "dialog_step q lt now PressApply (connected, e) = Some (False, ruleButtonSave e)"
| "dialog_step q lt now (RulesFromService rs) (connected, e) =
     (let e = e\<lparr>e_rules := rs\<rparr>
      in if connected then map_option (Pair connected) (run_signal q lt now Rules_updated e) else Some (connected, e))"

text \<open>The page when the dialog opens: \<open>plasmoidToCfg\<close> fills its list.\<close>

definition dialog_start :: "RuleEditor \<Rightarrow> bool \<times> RuleEditor" where
  "dialog_start e = (True, rules_to_list e)"

section \<open>The list of the rules\<close>

definition list_ok :: "RuleEditor \<Rightarrow> bool" where
  "list_ok e \<longleftrightarrow> e_texts e = map getDisplayText (e_rules e)
     \<and> -1 \<le> e_row e \<and> e_row e < int (length (e_rules e))
     \<and> e_removeEnabled e = (e_rules e \<noteq> [])"

text \<open>The slots of the form keep the row and the number of the rules, and the texts up to date.\<close>

definition form_keeps :: "RuleEditor \<Rightarrow> RuleEditor \<Rightarrow> bool" where
  "form_keeps e e' \<longleftrightarrow> e_row e' = e_row e \<and> length (e_rules e') = length (e_rules e)
     \<and> e_removeEnabled e' = e_removeEnabled e
     \<and> (e_texts e = map getDisplayText (e_rules e) \<longrightarrow> e_texts e' = map getDisplayText (e_rules e'))"

lemma keeps_refl [simp]: "form_keeps e e" "form_keeps e (e\<lparr>e_form := f\<rparr>)"
  by (simp_all add: form_keeps_def)

lemma keeps_trans [trans]: "form_keeps a b \<Longrightarrow> form_keeps b c \<Longrightarrow> form_keeps a c"
  by (simp add: form_keeps_def)

lemma keeps_form: "form_keeps (e\<lparr>e_form := f\<rparr>) e' \<longleftrightarrow> form_keeps e e'" "form_keeps e (e'\<lparr>e_form := f\<rparr>) \<longleftrightarrow> form_keeps e e'"
  by (simp_all add: form_keeps_def)

lemma keeps_save: "form_keeps e (saveRule i e)"
  by (auto simp: form_keeps_def saveRule_def Let_def map_update)

lemma keeps_modified: "form_keeps e (ruleSettingsModified e)"
proof -
  let ?e = "saveRule (e_row e) e"
  have "form_keeps ?e (ruleSettingsModified e)"
    by (auto simp: form_keeps_def ruleSettingsModified_def Let_def current_rule_def map_update list_update_same_conv
        split: option.splits if_splits intro!: nth_equalityI simp: nth_list_update)
  with keeps_save [of e "e_row e"] show ?thesis by (rule keeps_trans)
qed

lemma keeps_slots:
  "form_keeps e (ruleButtonClear e)"
  "ruleTimeExecTimeChanged t e = Some e' \<Longrightarrow> form_keeps e e'"
  "ruleSpinBoxRepeatTimesChanged v e = Some e' \<Longrightarrow> form_keeps e e'"
  "ruleSpinBoxRepeatPeriodChanged v e = Some e' \<Longrightarrow> form_keeps e e'"
  "form_keeps e (ruleComboBoxActionIndexChanged q s e)"
  "form_keeps e (ruleLineEditActionTextChanged q e)"
  "form_keeps e (ruleLineEditAddressTextChanged q e)"
  using keeps_modified [of e] keeps_modified [of "e\<lparr>e_form := f\<rparr>" for f]
  by (auto simp: ruleButtonClear_def ruleTimeExecTimeChanged_def ruleSpinBoxRepeatTimesChanged_def
      ruleSpinBoxRepeatPeriodChanged_def ruleComboBoxActionIndexChanged_def validateRuleAction_def
      ruleLineEditActionTextChanged_def ruleLineEditAddressTextChanged_def validateRuleAddress_def keeps_form Let_def
      split: option.splits if_splits)

lemma keeps_set:
  "set_time h m e = Some e' \<Longrightarrow> form_keeps e e'"
  "set_repeatTimes v e = Some e' \<Longrightarrow> form_keeps e e'"
  "set_repeatPeriod v e = Some e' \<Longrightarrow> form_keeps e e'"
  by (auto simp: set_time_def set_repeatTimes_def set_repeatPeriod_def Let_def keeps_form
      split: if_splits dest!: keeps_slots(2-4))

lemma keeps_index: "form_keeps e (set_actionIndex q i e)"
  using keeps_slots(5) [THEN keeps_form(1) [THEN iffD1]] by (simp add: set_actionIndex_def Let_def)

lemma keeps_load: "loadRule q i e = Some e' \<Longrightarrow> form_keeps e e'"
proof -
  assume l: "loadRule q i e = Some e'"
  have "form_keeps e e'" if shown: "show_nothing q e = Some e'"
  proof -
    define f1 where "f1 = (e_form e)\<lparr>groupEnabled := False, checkBoxEnabled := False, addressStruck := False, addressText := ''''\<rparr>"
    obtain a b c where a: "set_time 0 0 (e\<lparr>e_form := f1\<rparr>) = Some a"
      and b: "set_repeatTimes 0 ((set_actionIndex q 0 (ruleButtonClear a))\<lparr>e_form :=
          (e_form (set_actionIndex q 0 (ruleButtonClear a)))\<lparr>actionStruck := False, actionText := ''''\<rparr>\<rparr>) = Some b"
      and c: "set_repeatPeriod 0 b = Some c" "e' = c\<lparr>e_form := (e_form c)\<lparr>periodEnabled := False\<rparr>\<rparr>"
      using shown by (auto simp: show_nothing_def f1_def Let_def split: Option.bind_splits)
    have "form_keeps e a" using keeps_set(1) [OF a] by (simp add: keeps_form)
    also have "form_keeps a (set_actionIndex q 0 (ruleButtonClear a))"
      using keeps_slots(1) keeps_index keeps_trans by blast
    also have "form_keeps (set_actionIndex q 0 (ruleButtonClear a)) b" using keeps_set(2) [OF b] by (simp add: keeps_form)
    also have "form_keeps b e'" using keeps_set(3) [OF c(1)] c(2) by (simp add: keeps_form)
    finally show ?thesis .
  qed
  moreover have "form_keeps e e'" if shown: "show_rule q r e = Some e'" for r
  proof -
    define f1 where "f1 = (e_form e)\<lparr>groupEnabled := True, checkBoxEnabled := enabled r, addressText := raddress r\<rparr>"
    obtain a b c where a: "set_time (ruleHour r) (ruleMinute r) (e\<lparr>e_form := f1\<rparr>) = Some a"
      and b: "set_repeatTimes (wrap32 (repeatTimes r))
          ((set_actionIndex q (actionType r) (a\<lparr>e_form := show_days (period r) (e_form a)\<rparr>))\<lparr>e_form :=
            (e_form (set_actionIndex q (actionType r) (a\<lparr>e_form := show_days (period r) (e_form a)\<rparr>)))
              \<lparr>actionStruck := False, actionText := raction r\<rparr>\<rparr>) = Some b"
      and c: "set_repeatPeriod (repeatPeriodMn r) b = Some c"
        "e' = c\<lparr>e_form := (e_form c)\<lparr>periodEnabled := repeatTimes r \<noteq> 0\<rparr>\<rparr>"
      using shown by (auto simp: show_rule_def f1_def Let_def split: Option.bind_splits)
    let ?s = "set_actionIndex q (actionType r) (a\<lparr>e_form := show_days (period r) (e_form a)\<rparr>)"
    have "form_keeps e a" using keeps_set(1) [OF a] by (simp add: keeps_form)
    also have "form_keeps a ?s"
      using keeps_index [of "a\<lparr>e_form := show_days (period r) (e_form a)\<rparr>"] by (simp add: keeps_form)
    also have "form_keeps ?s b" using keeps_set(2) [OF b] by (simp add: keeps_form)
    also have "form_keeps b e'" using keeps_set(3) [OF c(1)] c(2) by (simp add: keeps_form)
    finally show ?thesis .
  qed
  ultimately show "form_keeps e e'" using l by (auto simp: loadRule_def split: if_splits)
qed

lemma list_ok_keeps: "form_keeps e e' \<Longrightarrow> list_ok e \<Longrightarrow> list_ok e'"
  by (simp add: form_keeps_def list_ok_def) (metis length_0_conv)

lemma list_ok_form: "list_ok (e\<lparr>e_form := f\<rparr>) \<longleftrightarrow> list_ok e"
  by (simp add: list_ok_def)

lemma list_ok_select:
  assumes "select_row q r e = Some e'" and "list_ok e" and "-1 \<le> r" and "r < int (length (e_rules e))"
  shows "list_ok e' \<and> e_row e' = r \<and> length (e_rules e') = length (e_rules e)"
proof (cases "e_row e = r")
  case True
  with assms show ?thesis by (simp add: select_row_def)
next
  case False
  then have k: "form_keeps (e\<lparr>e_row := r\<rparr>) e'" using keeps_load assms(1) by (simp add: select_row_def)
  have "list_ok (e\<lparr>e_row := r\<rparr>)" using assms(2-4) by (simp add: list_ok_def)
  with list_ok_keeps [OF k] k show ?thesis by (simp add: form_keeps_def)
qed

lemma drop_nth_length: "i < length xs \<Longrightarrow> length (drop_nth i xs) = length xs - 1"
  by (simp add: drop_nth_def)

lemma drop_nth_map: "drop_nth i (map f xs) = map f (drop_nth i xs)"
  by (simp add: drop_nth_def take_map drop_map)

lemma list_ok_add:
  assumes "ruleButtonAdd q lt now e = Some e'" and "list_ok e"
  shows "list_ok e'"
proof -
  let ?r = "Rule_new lt now"
  let ?e = "e\<lparr>e_rules := e_rules e @ [?r], e_texts := e_texts e @ [getDisplayText ?r]\<rparr>"
  obtain d where d: "select_row q (int (length (e_texts ?e)) - 1) ?e = Some d" "e' = d\<lparr>e_removeEnabled := True\<rparr>"
    using assms(1) by (auto simp: ruleButtonAdd_def Let_def split: Option.bind_splits)
  have len: "length (e_texts ?e) = length (e_rules ?e)" using assms(2) by (simp add: list_ok_def)
  have "form_keeps (?e\<lparr>e_row := int (length (e_texts ?e)) - 1\<rparr>) d"
  proof (cases "e_row ?e = int (length (e_texts ?e)) - 1")
    case True
    with d(1) show ?thesis by (auto simp: select_row_def form_keeps_def)
  next
    case False
    with d(1) keeps_load show ?thesis by (simp add: select_row_def)
  qed
  then show ?thesis using assms(2) len by (auto simp: d(2) form_keeps_def list_ok_def)
qed

lemma list_ok_remove:
  assumes "ruleButtonRem q e = Some e'" and "list_ok e"
  shows "list_ok e'"
proof (cases "e_row e = -1")
  case True
  with assms show ?thesis by (simp add: ruleButtonRem_def)
next
  case False
  let ?i = "e_row e" and ?n = "int (length (e_rules e))"
  have i: "0 \<le> ?i" "?i < ?n" using assms(2) False by (auto simp: list_ok_def)
  have n: "int (length (e_texts e)) = ?n" using assms(2) by (simp add: list_ok_def)
  obtain d where d: "select_row q (other_row ?i ?n) e = Some d"
    and e': "e' = (let d = d\<lparr>e_texts := drop_nth (nat ?i) (e_texts d), e_rules := drop_nth (nat ?i) (e_rules d),
                            e_row := (if ?i < e_row d then e_row d - 1 else e_row d)\<rparr>
                  in if e_texts d = [] then d\<lparr>e_removeEnabled := False\<rparr> else d)"
    using assms(1) False n by (auto simp: ruleButtonRem_def Let_def split: Option.bind_splits)
  have "-1 \<le> other_row ?i ?n" "other_row ?i ?n < ?n" using i by (auto simp: other_row_def)
  note s = list_ok_select [OF d assms(2) this]
  let ?rs = "drop_nth (nat ?i) (e_rules d)"
  have len: "int (length ?rs) = ?n - 1" using s i by (simp add: drop_nth_length nat_less_iff of_nat_diff)
  have t: "drop_nth (nat ?i) (e_texts d) = map getDisplayText ?rs" using s by (simp add: list_ok_def drop_nth_map)
  have "e_removeEnabled d" using s i by (auto simp: list_ok_def)
  moreover have "-1 \<le> (if ?i < e_row d then e_row d - 1 else e_row d)"
    and "(if ?i < e_row d then e_row d - 1 else e_row d) < int (length ?rs)"
    using s i len by (auto simp: other_row_def split: if_splits)
  ultimately show ?thesis by (auto simp: e' t list_ok_def Let_def)
qed

lemma list_ok_step:
  assumes "rule_step q lt now ev e = Some e'" and "list_ok e"
  shows "list_ok e'"
proof -
  have m: "list_ok (ruleSettingsModified (e\<lparr>e_form := f\<rparr>))" for f
    using keeps_modified list_ok_keeps list_ok_form assms(2) by blast
  have k: "form_keeps (e\<lparr>e_form := f\<rparr>) d \<Longrightarrow> list_ok d" for f d
    using list_ok_keeps list_ok_form assms(2) by blast
  show ?thesis
  proof (cases ev)
    case (ChooseAction i)
    let ?c = "ruleComboBoxActionIndexChanged q (comboText i) (e\<lparr>e_form := (e_form e)\<lparr>actionIndex := i\<rparr>\<rparr>)"
    have "list_ok ?c" by (rule k [OF keeps_slots(5)])
    then have "list_ok (ruleSettingsModified ?c)" using keeps_modified list_ok_keeps by blast
    moreover have "list_ok (ruleSettingsModified e)" using keeps_modified list_ok_keeps assms(2) by blast
    ultimately show ?thesis using assms(1) ChooseAction by (auto split: if_splits)
  next
    case (SelectRow r)
    then show ?thesis
      using assms keeps_load [of q "int r" "e\<lparr>e_row := int r\<rparr>" e'] list_ok_keeps [of "e\<lparr>e_row := int r\<rparr>" e']
      by (auto simp: list_ok_def split: if_splits)
  next
    case (EnterTime h m)
    then show ?thesis using assms k [OF keeps_slots(2)] by (auto split: if_splits)
  next
    case (EnterTimes v)
    then show ?thesis using assms k [OF keeps_slots(3)] by (auto split: if_splits)
  next
    case (EnterPeriod v)
    then show ?thesis using assms k [OF keeps_slots(4)] by (auto split: if_splits)
  next
    case (TypeAddress s)
    then show ?thesis using assms k [OF keeps_slots(7)] by auto
  next
    case (TypeAction s)
    then show ?thesis using assms k [OF keeps_slots(6)] by auto
  next
    case PressAdd
    then show ?thesis using assms list_ok_add by simp
  next
    case PressRemove
    then show ?thesis using assms list_ok_remove by simp
  next
    case PressClear
    then show ?thesis using assms list_ok_keeps [OF keeps_slots(1)] by auto
  qed (use assms m in \<open>auto\<close>)
qed

lemma list_ok_dialog:
  assumes "dialog_step q lt now ev (c, e) = Some (c', e')" and "c \<longrightarrow> list_ok e"
  shows "(c' \<longrightarrow> list_ok e') \<and> (c' \<longrightarrow> c)"
proof (cases ev)
  case (OnPage rev)
  with assms list_ok_step show ?thesis by auto
next
  case PressApply
  with assms show ?thesis by simp
next
  case (RulesFromService rs)
  with assms show ?thesis by (auto simp: rules_to_list_def list_ok_def Let_def split: if_splits)
qed

lemma list_ok_run:
  "fold_opt (dialog_step q lt now) evs (c, e) = Some (c', e') \<Longrightarrow> c \<longrightarrow> list_ok e \<Longrightarrow> c' \<longrightarrow> list_ok e'"
proof (induction evs arbitrary: c e)
  case (Cons ev evs)
  then obtain c1 e1 where "dialog_step q lt now ev (c, e) = Some (c1, e1)"
      "fold_opt (dialog_step q lt now) evs (c1, e1) = Some (c', e')"
    by (auto split: option.splits)
  with Cons.IH [of c1 e1] list_ok_dialog [of q lt now ev c e c1 e1] Cons.prems(2) show ?case by blast
qed simp

lemma apply_disconnects:
  "fold_opt (dialog_step q lt now) evs (c, e) = Some (c', e') \<Longrightarrow> c' = (c \<and> PressApply \<notin> set evs)"
proof (induction evs arbitrary: c e)
  case (Cons ev evs)
  then obtain c1 e1 where "dialog_step q lt now ev (c, e) = Some (c1, e1)"
      "fold_opt (dialog_step q lt now) evs (c1, e1) = Some (c', e')"
    by (auto split: option.splits)
  with Cons.IH [of c1 e1] show ?case by (cases ev) (auto simp: Let_def split: if_splits)
qed simp

section \<open>Properties\<close>



end
