(* ===== verification/X10_Control_View.thy ===== *)
theory X10_Control_View
  imports X10_Control "HOL-Library.Sublist"
begin

text \<open>
  How a control of \<open>plasmoid/control-widget.cpp\<close> shows itself: the items of its layout that \<open>redraw\<close> puts in,
  its tool tips, and the change of its range, which no other part of the program asks for.
\<close>

section \<open>The items of a control\<close>

datatype control_item = ItemBright | ItemDim | ItemSlider | ItemOnOff

fun item_style :: "control_item \<Rightarrow> int" where
  "item_style ItemBright = BRIGHT"
| "item_style ItemDim = DIM"
| "item_style ItemSlider = SLIDER"
| "item_style ItemOnOff = ONOFF"

text \<open>
  A layout of Qt takes an item out before it is inserted again, and puts it at the end for an index that is
  negative or too large.
\<close>

definition insertItem :: "int \<Rightarrow> 'a \<Rightarrow> 'a list \<Rightarrow> 'a list" where
  "insertItem index it l =
     (let l = remove1 it l;
          i = (if index < 0 \<or> int (length l) < index then length l else nat index)
      in take i l @ it # drop i l)"

text \<open>The four parts of \<open>redraw\<close>, each with its place; \<open>missing\<close> counts the items left out so far.\<close>

definition redraw_item :: "ControlWidget \<Rightarrow> int \<times> control_item \<Rightarrow> control_item list \<times> int \<Rightarrow> control_item list \<times> int" where
  "redraw_item w = (\<lambda>(place, it) (l, missing).
     if hasStyle (item_style it) w then (insertItem (place - missing) it l, missing)
     else (remove1 it l, missing + 1))"

definition redraw_layout :: "ControlWidget \<Rightarrow> control_item list \<Rightarrow> control_item list" where
  "redraw_layout w l =
     fst (fold (redraw_item w) [(0, ItemBright), (1, ItemDim), (2, ItemSlider), (3, ItemOnOff)] (l, 0))"

abbreviation all_items :: "control_item list" where
  "all_items \<equiv> [ItemBright, ItemDim, ItemSlider, ItemOnOff]"

text \<open>The items stay in their order, whatever styles a control goes through.\<close>

lemma redraw_layout_order:
  assumes "subseq l all_items"
  shows "redraw_layout w l = filter (\<lambda>it. hasStyle (item_style it) w) all_items"
proof -
  have l: "l \<in> set (subseqs all_items)" unfolding in_set_subseqs by (rule assms)
  show ?thesis
    by (cases "hasStyle BRIGHT w"; cases "hasStyle DIM w"; cases "hasStyle SLIDER w"; cases "hasStyle ONOFF w";
        use l in \<open>auto simp: redraw_layout_def redraw_item_def insertItem_def Let_def\<close>)
qed

lemma redraw_layouts_order:
  "ws \<noteq> [] \<Longrightarrow> fold redraw_layout ws [] = filter (\<lambda>it. hasStyle (item_style it) (last ws)) all_items"
proof (induction ws rule: rev_induct)
  case (snoc w ws)
  have "subseq (fold redraw_layout ws []) all_items"
    using snoc.IH by (cases "ws = []") (auto simp: subseq_filter_left simp del: filter.simps)
  then show ?case using redraw_layout_order by simp
qed simp

section \<open>Tool tips\<close>

text \<open>The tips of the slider and of the button, as far as they are set.\<close>

definition updateTooltip :: "ControlWidget \<Rightarrow> string option \<times> string option" where
  "updateTooltip w =
     (if hasStyle SLIDER w \<and> m_slider w \<noteq> None then Some (m_name w) else None,
      if hasStyle ONOFF w \<and> m_pushButtonOnOff w \<noteq> None
      then Some (m_name w @ '' (timeoff '' @ dec_int (m_configSwitchOffPeriodMn w) @ ''mn)'') else None)"

section \<open>The range\<close>

text \<open>
  A range below the value of the slider moves the slider, whose signal sets the unit. \<open>None\<close> is the division by a
  range of 0.
\<close>

definition setMaximum :: "widget_env \<Rightarrow> int \<Rightarrow> ControlWidget \<Rightarrow> ControlWidget option" where
  "setMaximum env maximum w =
     (if m_maximum w = maximum then Some w
      else if m_maximum w = 0 then None
      else let w = w\<lparr>m_configPreferredLighting := c_div (maximum * m_configPreferredLighting w) (m_maximum w),
                     m_maximum := maximum\<rparr>
           in case m_slider w of
                None \<Rightarrow> Some w
              | Some v \<Rightarrow> Some (if v \<le> maximum then w
                               else sliderMoved env maximum (w\<lparr>m_slider := Some maximum\<rparr>)))"

end
