(* ===== verification/X10_Race.thy ===== *)
theory X10_Race
  imports X10_Levels
begin

text \<open>
  The containers of \<open>service/queue-manager.cpp\<close> between two threads. \<open>GetValue\<close>, called from the bus, and the
  execution of a command in \<open>run\<close> both look for a container and make a missing one, without a common
  lock. Even where each access to the map is atomic, which \<open>std::map\<close> does not promise, the search and the
  insertion of \<open>CheckContainerExist\<close> are two accesses. Here both run in such steps, in any order, for one unit.
\<close>

section \<open>The two threads in steps\<close>

datatype client_place = C_Find | C_New | C_Read | C_Done int

datatype exec_place = E_Find | E_New | E_Value | E_Set int | E_Done

record race =
  r_map :: "Container store"
  r_events :: "qm_event list"
  r_client :: client_place
  r_exec :: exec_place

definition client_move :: "string \<Rightarrow> race \<Rightarrow> race" where
  "client_move a s =
     (case r_client s of
        C_Find \<Rightarrow> s\<lparr>r_client := (if st_find (r_map s) a = None then C_New else C_Read)\<rparr>
      | C_New \<Rightarrow> s\<lparr>r_map := st_put a (Container_new a) (r_map s), r_client := C_Read\<rparr>
      | C_Read \<Rightarrow> s\<lparr>r_client := C_Done (container_value (r_map s) a)\<rparr>
      | C_Done v \<Rightarrow> s)"

definition exec_move :: "COMMAND \<Rightarrow> race \<Rightarrow> race" where
  "exec_move cmd s =
     (let a = address cmd in
      case r_exec s of
        E_Find \<Rightarrow> s\<lparr>r_exec := (if st_find (r_map s) a = None then E_New else E_Value)\<rparr>
      | E_New \<Rightarrow> s\<lparr>r_map := st_put a (Container_new a) (r_map s), r_exec := E_Value\<rparr>
      | E_Value \<Rightarrow> s\<lparr>r_exec := E_Set (container_value (r_map s) a)\<rparr>
      | E_Set cur \<Rightarrow>
          (let (m, evs) = on_container a (\<lambda>c. case exec_value cmd cur of None \<Rightarrow> (c, []) | Some v \<Rightarrow> SetValue v c) (r_map s)
           in s\<lparr>r_map := m, r_events := r_events s @ evs, r_exec := E_Done\<rparr>)
      | E_Done \<Rightarrow> s)"

text \<open>A schedule says which thread moves next.\<close>

datatype turn = Client | Thread

definition race_move :: "COMMAND \<Rightarrow> turn \<Rightarrow> race \<Rightarrow> race" where
  "race_move cmd t s = (case t of Client \<Rightarrow> client_move (address cmd) s | Thread \<Rightarrow> exec_move cmd s)"

definition race_start :: "Container store \<Rightarrow> race" where
  "race_start m = \<lparr>r_map = m, r_events = [], r_client = C_Find, r_exec = E_Find\<rparr>"

definition race_over :: "race \<Rightarrow> bool" where
  "race_over s \<longleftrightarrow> r_exec s = E_Done \<and> (case r_client s of C_Done v \<Rightarrow> True | _ \<Rightarrow> False)"

abbreviation levels_after :: "race \<Rightarrow> string \<Rightarrow> int" where
  "levels_after s \<equiv> container_value (r_map s)"

section \<open>With a container\<close>

text \<open>Where the unit has its container, neither thread makes one, and the level changes once.\<close>

definition settled :: "COMMAND \<Rightarrow> int \<Rightarrow> race \<Rightarrow> bool" where
  "settled cmd cur s \<longleftrightarrow> st_inv (r_map s) \<and> st_find (r_map s) (address cmd) \<noteq> None
     \<and> r_client s \<noteq> C_New \<and> r_exec s \<noteq> E_New
     \<and> (\<forall>v. r_client s = C_Done v \<longrightarrow> v = cur \<or> v = cmd_level cmd cur)
     \<and> (\<forall>v. r_exec s = E_Set v \<longrightarrow> v = cur)
     \<and> container_value (r_map s) (address cmd) = (if r_exec s = E_Done then cmd_level cmd cur else cur)"

lemma settled_move: "settled cmd cur s \<Longrightarrow> settled cmd cur (race_move cmd t s)"
proof (cases t)
  case Client
  assume "settled cmd cur s"
  with Client show ?thesis
    by (auto simp: settled_def race_move_def client_move_def split: client_place.splits)
next
  case Thread
  assume s: "settled cmd cur s"
  obtain c where c: "st_find (r_map s) (address cmd) = Some c" using s by (auto simp: settled_def)
  have inv: "st_inv (r_map s)" using s by (simp add: settled_def)
  have cur: "clevel c = container_value (r_map s) (address cmd)" by (simp add: container_value_def c)
  show ?thesis
  proof (cases "r_exec s")
    case (E_Set v)
    then have v: "v = cur" "clevel c = cur" using s cur by (simp_all add: settled_def)
    let ?r = "on_container (address cmd) (\<lambda>c. case exec_value cmd cur of None \<Rightarrow> (c, []) | Some v \<Rightarrow> SetValue v c) (r_map s)"
    have m: "st_inv (fst ?r) \<and> st_find (fst ?r) (address cmd) \<noteq> None
        \<and> container_value (fst ?r) (address cmd) = cmd_level cmd cur"
      using v by (auto simp: on_container_def c SetValue_def cmd_level_def container_value_def
          cmap.find_put [OF inv] cmap.invar_put [OF inv] split: option.splits)
    then show ?thesis
      using s E_Set by (auto simp: Thread settled_def race_move_def exec_move_def Let_def v case_prod_beta)
  qed (use s in \<open>auto simp: Thread settled_def race_move_def exec_move_def Let_def\<close>)
qed

lemma settled_run: "settled cmd cur s \<Longrightarrow> settled cmd cur (fold (race_move cmd) ts s)"
  by (induction ts arbitrary: s) (simp_all add: settled_move)

section \<open>Without one\<close>

lemma lost_level:
  assumes "st_inv m" and "st_find m (address cmd) = None" and "exec_value cmd (-1) = Some v"
  shows "\<exists>s. fold (race_move cmd) [Client, Thread, Thread, Thread, Thread, Client, Client] (race_start m) = s
    \<and> race_over s \<and> r_client s = C_Done (-1) \<and> container_value (r_map s) (address cmd) = -1
    \<and> r_events s = [SourceUpdated (address cmd) v]"
proof -
  let ?a = "address cmd"
  let ?m1 = "st_put ?a (Container_new ?a) m"
  have f1: "st_find ?m1 ?a = Some (Container_new ?a)" and i1: "st_inv ?m1"
    using cmap.find_put [OF assms(1)] cmap.invar_put [OF assms(1)] by simp_all
  have v1: "container_value ?m1 ?a = -1" unfolding container_value_def f1 by (simp add: Container_new_def)
  obtain c e where c: "SetValue v (Container_new ?a) = (c, e)" by fastforce
  have e: "e = [SourceUpdated ?a v]" using c by (auto simp: SetValue_def Container_new_def UpdateSource_def)
  have i2: "st_inv (st_put ?a c ?m1)" using cmap.invar_put [OF i1] by simp
  have f3: "st_find (st_put ?a (Container_new ?a) (st_put ?a c ?m1)) ?a = Some (Container_new ?a)"
    using cmap.find_put [OF i2] by simp
  have v3: "container_value (st_put ?a (Container_new ?a) (st_put ?a c ?m1)) ?a = -1"
    unfolding container_value_def f3 by (simp add: Container_new_def)
  show ?thesis
    by (simp add: race_move_def client_move_def exec_move_def race_start_def assms(2,3) on_container_def f1 v1 v3 c e
        Let_def race_over_def)
qed

section \<open>Properties\<close>

text \<open>C14: a request for the value of a unit, while the thread executes a command for it. Where the unit has its
  container, every order of their steps leaves the level of the command and answers with the level
  before or after it. For a unit without a container some order loses the level: all clients are
  told the new one, but the container that stays is a new one, and the unit is taken for off.\<close>

theorem first_request_can_lose_a_level:
  assumes "st_inv m" and "s = fold (race_move cmd) ts (race_start m)"
  shows "(st_find m (address cmd) \<noteq> None \<and> race_over s \<longrightarrow>
      levels_after s (address cmd) = cmd_level cmd (container_value m (address cmd))
      \<and> (\<exists>v. r_client s = C_Done v \<and> (v = container_value m (address cmd) \<or> v = cmd_level cmd (container_value m (address cmd)))))
    \<and> (st_find m (address cmd) = None \<and> exec_value cmd (-1) = Some v \<longrightarrow>
      (\<exists>us s'. s' = fold (race_move cmd) us (race_start m) \<and> race_over s' \<and> levels_after s' (address cmd) = -1
         \<and> r_events s' = [SourceUpdated (address cmd) v]))"
proof (intro conjI impI)
  assume h: "st_find m (address cmd) \<noteq> None \<and> race_over s"
  then have "settled cmd (container_value m (address cmd)) (race_start m)"
    using assms(1) by (simp add: settled_def race_start_def)
  from settled_run [OF this, of ts] h assms(2)
  show "levels_after s (address cmd) = cmd_level cmd (container_value m (address cmd))"
    and "\<exists>v. r_client s = C_Done v \<and> (v = container_value m (address cmd) \<or> v = cmd_level cmd (container_value m (address cmd)))"
    by (auto simp: settled_def race_over_def split: client_place.splits)
next
  assume "st_find m (address cmd) = None \<and> exec_value cmd (-1) = Some v"
  with lost_level [OF assms(1)] show "\<exists>us s'. s' = fold (race_move cmd) us (race_start m) \<and> race_over s'
      \<and> levels_after s' (address cmd) = -1 \<and> r_events s' = [SourceUpdated (address cmd) v]"
    by blast
qed

theorem first_request_can_lose_a_level_witness:
  "\<exists>us. let s = fold (race_move (e5 CMD_ON (-1))) us (race_start []) in
     race_over s \<and> levels_after s (address (e5 CMD_ON (-1))) = -1
     \<and> r_events s = [SourceUpdated (address (e5 CMD_ON (-1))) 7]"
proof -
  have i: "st_inv ([] :: Container store)" and f: "st_find ([] :: Container store) a = None" for a
    by (simp_all add: st_inv_def st_find_def)
  have "exec_value (e5 CMD_ON (-1)) (-1) = Some 7" by (simp add: exec_value_def e5_def MAX_VALUE_def)
  with first_request_can_lose_a_level [OF i refl, of "e5 CMD_ON (-1)" "[]" 7] f show ?thesis
    by (auto simp: Let_def)
qed

end
