(* ===== verification/X10_Rule_Path.thy ===== *)
theory X10_Rule_Path
  imports X10_Path
begin

text \<open>
  The way of a rule from its text to the levels of the units: \<open>rules-manager.cpp\<close> finds the rules that are
  due and hands them to \<open>on_RuleExecute\<close> of \<open>queue-manager.cpp\<close>, which queues the commands that \<open>rule.cpp\<close>
  makes of them, patterns expanded over the containers; the thread executes them. The specification
  works on levels only: a rule changes the level of each unit that one of its addresses names.
\<close>

section \<open>The specification\<close>

text \<open>Whether an address of a rule names the unit \<open>a\<close>, where \<open>K\<close> are the units the service knows.\<close>

definition names :: "qt_number \<Rightarrow> string list \<Rightarrow> Channel \<Rightarrow> Unit \<Rightarrow> string \<Rightarrow> bool" where
  "names q K ch u a \<longleftrightarrow>
     (if ch = CHR ''*'' \<or> u = 0
      then a \<in> set K \<and> (let (ch', u') = node_addr q a in (ch = CHR ''*'' \<or> ch' = ch) \<and> (u = 0 \<or> u' = u))
      else a = addr_str ch u)"

text \<open>What a rule makes of the level of a unit it names; \<open>send_level\<close> is one character of its action.\<close>

definition send_level :: "string \<Rightarrow> int \<Rightarrow> int" where
  "send_level s l =
     (if s = ''+'' then (if l < 0 then MAX_VALUE else l)
      else if s = ''-'' then -1
      else if s = ''s'' then (let v = (if l = -1 then MAX_VALUE else l) in if v \<noteq> 0 then v - 1 else 0)
      else if s = ''b'' then (let v = (if l = -1 then MAX_VALUE else l) in if MAX_VALUE \<le> v then MAX_VALUE else v + 1)
      else l)"

definition action_level :: "qt_number \<Rightarrow> Rule \<Rightarrow> int \<Rightarrow> int" where
  "action_level q r l =
     (if actionType r = AT_ON then send_level ''+'' l
      else if actionType r = AT_OFF then -1
      else if actionType r = AT_SEND then fold send_level (split_skip CHR '' '' (raction r)) l
      else if actionType r = AT_SET
      then (case toInt q (raction r) of
              Some v \<Rightarrow> if level_ok v then v else l
            | None \<Rightarrow> l)
      else l)"

definition rule_effect :: "qt_number \<Rightarrow> string list \<Rightarrow> string \<Rightarrow> Rule \<Rightarrow> int \<Rightarrow> int" where
  "rule_effect q K a r l =
     fold (\<lambda>ad l. let (ok, ch, u) = sourceToAddress q ad (CHR 0x00) 0
                  in if ok \<and> names q K ch u a then action_level q r l else l)
       (rule_addresses q [] (split_skip CHR '' '' (raddress r))) l"

section \<open>The timeout of the rules' timer\<close>

text \<open>
  \<open>RuleExecute\<close> is connected to \<open>on_RuleExecute\<close> in the same thread, so that the slot runs where the signal is
  emitted, before \<open>updateNextExecution\<close>; it does not look at the rules.
\<close>

definition rules_timeout ::
    "nat \<Rightarrow> qt_number \<Rightarrow> (int \<Rightarrow> tm) \<Rightarrow> int \<Rightarrow> (nat \<Rightarrow> int) \<Rightarrow> QueueManager \<Rightarrow> QueueManager option" where
  "rules_timeout depth q lt now clk s =
     (let (rs, rm) = onEndTimerRuleNeedExec lt now clk (ruleManager s)
      in map_option (\<lambda>s. s\<lparr>ruleManager := rm\<rparr>) (fold_opt (on_RuleExecute depth q now) rs s))"

section \<open>A command changes the levels it names\<close>

text \<open>The containers are for real units, under the text of their address.\<close>

definition canonical :: "qt_number \<Rightarrow> string list \<Rightarrow> bool" where
  "canonical q K \<longleftrightarrow> list_all (\<lambda>k. let (ch, u) = node_addr q k in concrete ch u \<and> k = addr_str ch u) K"

lemma canonicalD:
  assumes "canonical q K" and "k \<in> set K"
  shows "concrete (fst (node_addr q k)) (snd (node_addr q k))"
    and "addr_str (fst (node_addr q k)) (snd (node_addr q k)) = k"
  using assms by (auto simp: canonical_def list_all_iff split: prod.splits)

lemma canonical_real:
  assumes "qt_number_ok q" and "canonical q K" and "k \<in> set K"
  shows "real_node q k"
proof -
  obtain ch u where a: "node_addr q k = (ch, u)" by fastforce
  have con: "concrete ch u" and k: "k = addr_str ch u" using canonicalD [OF assms(2,3)] a by auto
  have "sourceToAddress q k (CHR 0x00) 0 = (True, ch, u)"
    using sourceToAddress_addr_str [OF assms(1) con] k by simp
  moreover have "CHR '' '' \<notin> set k"
    using addr_str_concrete [OF con] house_letter_not_space con dec_int_avoids [of "CHR '' ''" u]
    by (auto simp: k concrete_def)
  ultimately show ?thesis
    using con house_letter_not_star by (auto simp: real_node_def concrete_def)
qed

lemma node_expansion:
  assumes "canonical q K" and "distinct K"
  shows "fold level_step (map (\<lambda>(ch, u). COMMAND_new now ch u t v) (filter P (map (node_addr q) K))) f a =
     (if a \<in> set K \<and> P (node_addr q a) then cmd_level (COMMAND_new now ch0 u0 t v) (f a) else f a)"
  using assms
proof (induction K arbitrary: f)
  case (Cons k K)
  obtain ch u where k: "node_addr q k = (ch, u)" by fastforce
  have ad: "addr_str ch u = k" using canonicalD [OF Cons.prems(1), of k] k by simp
  have K: "canonical q K" "distinct K" "k \<notin> set K" using Cons.prems by (simp_all add: canonical_def)
  have lvl: "cmd_level (COMMAND_new now ch u t v) l = cmd_level (COMMAND_new now ch0 u0 t v) l" for l
    unfolding cmd_level_def by (subst exec_value_shape [of _ "COMMAND_new now ch0 u0 t v"]) simp_all
  have step: "level_step (COMMAND_new now ch u t v) f b =
      (if b = k then cmd_level (COMMAND_new now ch0 u0 t v) (f b) else f b)" for f b
    by (simp add: level_step_def address_def ad lvl)
  show ?case using Cons.IH [OF K(1,2)] K(3) k by (auto simp: step)
qed simp

lemma expansion_levels:
  assumes "canonical q (st_keys (Containers s))" and "distinct (st_keys (Containers s))"
  shows "fold level_step (expansion q now cmd s) f a =
     (if names q (st_keys (Containers s)) (channel cmd) (cunit cmd) a then cmd_level cmd (f a) else f a)"
proof (cases "is_pattern cmd")
  case True
  have lvl: "cmd_level (COMMAND_new now (channel cmd) (cunit cmd) (ctype cmd) (cvalue cmd)) l = cmd_level cmd l" for l
    unfolding cmd_level_def by (subst exec_value_shape [of _ cmd]) simp_all
  show ?thesis
    using True node_expansion [OF assms, of now "ctype cmd" "cvalue cmd" "matches cmd" f a "channel cmd" "cunit cmd"] lvl
    by (auto simp: expansion_def is_pattern_def names_def matches_def split: prod.splits)
next
  case False
  then show ?thesis by (simp add: expansion_def is_pattern_def names_def level_step_def address_def)
qed

section \<open>The queue takes what a rule stands for\<close>

lemma enqueue_plain:
  "\<not> SMART_QUEUE (qm_config s) \<Longrightarrow> enqueue c s = s\<lparr>queueCommands := c # queueCommands s\<rparr>"
  by (simp add: enqueue_def)

lemma enqueue_all_promise:
  assumes "calm q w" and "\<forall>c \<in> set cs. concrete (channel c) (cunit c) \<and> cmd_ok c"
  shows "calm q (w\<lparr>wq := fold enqueue cs (wq w)\<rparr>)
    \<and> promised (w\<lparr>wq := fold enqueue cs (wq w)\<rparr>) = fold level_step cs (promised w)"
  using assms
proof (induction cs arbitrary: w)
  case (Cons c cs)
  have c: "concrete (channel c) (cunit c)" "cmd_ok c" using Cons.prems(2) by simp_all
  note e = enqueue_promise [OF Cons.prems(1) c]
  show ?case using Cons.IH [OF e(1)] Cons.prems(2) e(2) by simp
qed simp

lemma fold_enqueue_frame:
  "Containers (fold enqueue cs s) = Containers s" "ruleManager (fold enqueue cs s) = ruleManager s"
  by (induction cs arbitrary: s) (simp_all add: enqueue_frame)

lemma expansion_ok:
  assumes "qt_number_ok q" and "canonical q (st_keys (Containers s))" and "request_ok cmd"
    and "c \<in> set (expansion q now cmd s)"
  shows "concrete (channel c) (cunit c) \<and> cmd_ok c"
proof -
  have con: "concrete (channel c) (cunit c)" and shape: "ctype c = ctype cmd" "cvalue c = cvalue cmd"
  proof -
    have "concrete (channel c) (cunit c) \<and> ctype c = ctype cmd \<and> cvalue c = cvalue cmd"
    proof (cases "is_pattern cmd")
      case True
      then have "c \<in> (\<lambda>(ch, u). COMMAND_new now ch u (ctype cmd) (cvalue cmd)) `
          {p \<in> node_addr q ` set (st_keys (Containers s)). matches cmd p}"
        using assms(4) by (simp add: expansion_def)
      then obtain k where k: "k \<in> set (st_keys (Containers s))"
          "c = (case node_addr q k of (ch, u) \<Rightarrow> COMMAND_new now ch u (ctype cmd) (cvalue cmd))" by blast
      from canonicalD(1) [OF assms(2) k(1)] k(2) show ?thesis by (cases "node_addr q k") simp
    next
      case False
      then show ?thesis using assms(3,4) by (auto simp: expansion_def is_pattern_def request_ok_def concrete_def)
    qed
    then show "concrete (channel c) (cunit c)" and "ctype c = ctype cmd" and "cvalue c = cvalue cmd" by simp_all
  qed
  then show ?thesis using assms(3) by (auto simp: cmd_ok_def concrete_def chan_ok_def request_ok_def)
qed

text \<open>A world with its containers and rules, and the levels it has promised.\<close>

definition settled :: "qt_number \<Rightarrow> string list \<Rightarrow> RuleManager \<Rightarrow> world \<Rightarrow> bool" where
  "settled q K rm w \<longleftrightarrow> calm q w \<and> st_keys (Containers (wq w)) = K \<and> ruleManager (wq w) = rm"

lemma settled_distinct: "settled q K rm w \<Longrightarrow> distinct K"
  using cmap.keys_distinct [of "Containers (wq w)"] by (auto simp: settled_def dest: calmD(1) qm_okD(1) containers_okD(1))

lemma request_promise:
  assumes q: "qt_number_ok q" and K: "canonical q K" and w: "settled q K rm w" and "request_ok cmd"
  shows "\<exists>s. QueueCommand (Suc (Suc depth)) q now cmd (wq w) = Some s \<and> settled q K rm (w\<lparr>wq := s\<rparr>)
    \<and> (\<forall>a. promised (w\<lparr>wq := s\<rparr>) a =
         (if names q K (channel cmd) (cunit cmd) a then cmd_level cmd (promised w a) else promised w a))"
proof -
  let ?cs = "expansion q now cmd (wq w)"
  have k: "st_keys (Containers (wq w)) = K" and c: "calm q w" using w by (simp_all add: settled_def)
  have run: "QueueCommand (Suc (Suc depth)) q now cmd (wq w) = Some (fold enqueue ?cs (wq w))"
    by (rule QueueCommand_real_nodes) (use canonical_real [OF q K] k in blast)
  have "\<forall>c \<in> set ?cs. concrete (channel c) (cunit c) \<and> cmd_ok c"
    using expansion_ok [OF q _ assms(4)] K k by blast
  note e = enqueue_all_promise [OF c this]
  show ?thesis
    using run e w K settled_distinct [OF w] expansion_levels [of q "wq w" now cmd "promised w"] k
    by (intro exI [of _ "fold enqueue ?cs (wq w)"]) (simp add: settled_def fold_enqueue_frame)
qed

text \<open>Any number of requests.\<close>

definition request_level :: "qt_number \<Rightarrow> string list \<Rightarrow> string \<Rightarrow> COMMAND \<Rightarrow> int \<Rightarrow> int" where
  "request_level q K a cmd l = (if names q K (channel cmd) (cunit cmd) a then cmd_level cmd l else l)"

lemma requests_promise:
  assumes q: "qt_number_ok q" and K: "canonical q K" and "settled q K rm w" and "\<forall>c \<in> set cs. request_ok c"
  shows "\<exists>s. fold_opt (QueueCommand (Suc (Suc depth)) q now) cs (wq w) = Some s \<and> settled q K rm (w\<lparr>wq := s\<rparr>)
    \<and> (\<forall>a. promised (w\<lparr>wq := s\<rparr>) a = fold (request_level q K a) cs (promised w a))"
  using assms(3,4)
proof (induction cs arbitrary: w)
  case (Cons c cs)
  have c: "request_ok c" using Cons.prems(2) by simp
  obtain s where s: "QueueCommand (Suc (Suc depth)) q now c (wq w) = Some s" "settled q K rm (w\<lparr>wq := s\<rparr>)"
    "\<forall>a. promised (w\<lparr>wq := s\<rparr>) a = request_level q K a c (promised w a)"
    using request_promise [OF q K Cons.prems(1) c] unfolding request_level_def by blast
  from Cons.IH [OF s(2)] Cons.prems(2) obtain s' where "fold_opt (QueueCommand (Suc (Suc depth)) q now) cs s = Some s'"
    "settled q K rm (w\<lparr>wq := s'\<rparr>)"
    "\<forall>a. promised (w\<lparr>wq := s'\<rparr>) a = fold (request_level q K a) cs (promised (w\<lparr>wq := s\<rparr>) a)"
    by auto
  with s show ?case by auto
qed auto

section \<open>A rule\<close>

lemma cmd_levels:
  "cmd_level (COMMAND_new now ch u CMD_ON v) l = send_level ''+'' l"
  "cmd_level (COMMAND_new now ch u CMD_OFF v) l = -1"
  "cmd_level (COMMAND_new now ch u CMD_SET v) l = v"
  by (simp_all add: cmd_level_def exec_value_def send_level_def)

lemma send_command_level:
  assumes "names q K ch u a"
  shows "fold (request_level q K a) (send_commands now ch u [s]) l = send_level s l"
proof (cases "isValidCommand (QV_String s)")
  case True
  then obtain t where "s = [cmd_char t]" by (auto simp: isValidCommand_iff)
  with assms show ?thesis
    by (cases t) (simp_all add: cmd_of_char_def isValidCommand_def request_level_def cmd_level_def exec_value_def send_level_def)
next
  case False
  then have "s \<noteq> [cmd_char CMD_ON]" "s \<noteq> [cmd_char CMD_OFF]" "s \<noteq> [cmd_char CMD_DIM]" "s \<noteq> [cmd_char CMD_BRIGHT]"
    unfolding isValidCommand_iff by blast+
  with False show ?thesis by (simp add: send_level_def)
qed

lemma fold_keeps: "\<forall>c \<in> set cs. \<forall>l. f c l = l \<Longrightarrow> fold f cs l = l"
  by (induction cs arbitrary: l) simp_all

lemma send_levels:
  "fold (request_level q K a) (send_commands now ch u as) l =
     (if names q K ch u a then fold send_level as l else l)"
proof (cases "names q K ch u a")
  case True
  have "fold (request_level q K a) (send_commands now ch u as) l = fold send_level as l"
  proof (induction as arbitrary: l)
    case (Cons s ss)
    have "send_commands now ch u (s # ss) = send_commands now ch u [s] @ send_commands now ch u ss"
      by simp
    then show ?case by (simp only: fold_append o_apply send_command_level [OF True] Cons.IH fold_simps)
  qed simp
  then show ?thesis using True by simp
next
  case False
  then have "fold (request_level q K a) (send_commands now ch u as) l = l"
    by (intro fold_keeps) (auto simp: request_level_def dest: send_commands_ok)
  with False show ?thesis by simp
qed

lemma valid_value_text: "isValidValue q (QV_String s) \<longleftrightarrow> (\<exists>v. toInt q s = Some v \<and> level_ok v)"
  by (cases "toInt q s") (simp_all add: isValidValue_def level_ok_def)

lemma action_levels:
  assumes "sourceToAddress q ad (CHR 0x00) 0 = (True, ch, u)" and "names q K ch u a"
  shows "fold (request_level q K a) (address_commands q now r ad) l = action_level q r l"
proof -
  have one: "fold (request_level q K a) [COMMAND_new now ch u t v] l = cmd_level (COMMAND_new now ch u t v) l" for t v
    using assms(2) by (simp add: request_level_def)
  consider "actionType r = AT_ON" | "actionType r = AT_OFF" | "actionType r = AT_SEND" | "actionType r = AT_SET"
    | "actionType r \<notin> {AT_ON, AT_OFF, AT_SEND, AT_SET}" by blast
  then show ?thesis
  proof cases
    case 3
    then show ?thesis using assms by (simp add: address_commands_def action_level_def send_levels)
  next
    case 4
    then show ?thesis
      using assms one
      by (cases "toInt q (raction r)") (simp_all add: address_commands_def action_level_def valid_value_text cmd_levels)
  qed (use assms one in \<open>simp_all add: address_commands_def action_level_def cmd_levels\<close>)
qed

lemma address_channel:
  assumes "sourceToAddress q ad (CHR 0x00) 0 = (True, ch, u)" and "c \<in> set (address_commands q now r ad)"
  shows "channel c = ch \<and> cunit c = u"
  using assms by (auto simp: address_commands_def dest: send_commands_ok split: if_splits)

lemma address_levels:
  "fold (request_level q K a) (address_commands q now r ad) l =
     (let (ok, ch, u) = sourceToAddress q ad (CHR 0x00) 0
      in if ok \<and> names q K ch u a then action_level q r l else l)"
proof -
  obtain ok ch u where s: "sourceToAddress q ad (CHR 0x00) 0 = (ok, ch, u)" by (rule prod_cases3)
  show ?thesis
  proof (cases "ok \<and> names q K ch u a")
    case True
    then show ?thesis using s action_levels by simp
  next
    case False
    then have "fold (request_level q K a) (address_commands q now r ad) l = l"
    proof (cases ok)
      case True
      with False s show ?thesis
        by (intro fold_keeps) (auto simp: request_level_def dest: address_channel)
    next
      case False
      then show ?thesis using s by (simp add: address_commands_def)
    qed
    moreover have "(let (ok, ch, u) = (ok, ch, u) in if ok \<and> names q K ch u a then action_level q r l else l) = l"
      using False by (simp only: Let_def prod.case if_False)
    ultimately show ?thesis by (simp only: s)
  qed
qed

lemma rule_levels: "fold (request_level q K a) (getCommands q now r) l = rule_effect q K a r l"
proof -
  have "fold (request_level q K a) (concat (map (address_commands q now r) as)) l =
      fold (\<lambda>ad l. let (ok, ch, u) = sourceToAddress q ad (CHR 0x00) 0
                  in if ok \<and> names q K ch u a then action_level q r l else l) as l" for as
    by (induction as arbitrary: l) (simp_all add: address_levels)
  then show ?thesis by (simp add: getCommands_def rule_effect_def)
qed

lemma rules_promise:
  assumes q: "qt_number_ok q" and K: "canonical q K" and "settled q K rm w"
  shows "\<exists>s. fold_opt (on_RuleExecute (Suc (Suc depth)) q now) rs (wq w) = Some s \<and> settled q K rm (w\<lparr>wq := s\<rparr>)
    \<and> (\<forall>a. promised (w\<lparr>wq := s\<rparr>) a = fold (rule_effect q K a) rs (promised w a))"
  using assms(3)
proof (induction rs arbitrary: w)
  case (Cons r rs)
  have "\<forall>c \<in> set (getCommands q now r). request_ok c" using getCommands_ok by blast
  from requests_promise [OF q K Cons.prems this, of depth now] obtain s
    where s: "on_RuleExecute (Suc (Suc depth)) q now r (wq w) = Some s" "settled q K rm (w\<lparr>wq := s\<rparr>)"
      "\<forall>a. promised (w\<lparr>wq := s\<rparr>) a = rule_effect q K a r (promised w a)"
    unfolding on_RuleExecute_def rule_levels by blast
  from Cons.IH [OF s(2)] obtain s' where "fold_opt (on_RuleExecute (Suc (Suc depth)) q now) rs s = Some s'"
    "settled q K rm (w\<lparr>wq := s'\<rparr>)"
    "\<forall>a. promised (w\<lparr>wq := s'\<rparr>) a = fold (rule_effect q K a) rs (promised (w\<lparr>wq := s\<rparr>) a)"
    by auto
  with s show ?case by auto
qed auto

section \<open>The rules that are due\<close>

lemma scheduled_list:
  "map ((!) (listRules m)) (nextRuleSet (updateNextExecution lt (\<lambda>_. t0) m)) =
     filter (\<lambda>r. enabled r \<and> GetExecutionTime lt t0 r = lowestTime (updateNextExecution lt (\<lambda>_. t0) m)) (listRules m)"
proof -
  let ?rs = "listRules m" and ?T = "lowestTime (updateNextExecution lt (\<lambda>_. t0) m)"
  have "map ((!) ?rs) (map fst (filter (\<lambda>(j, t). t = ?T) (rule_times lt (\<lambda>_. t0) 0 ?rs))) =
      map ((!) ?rs \<circ> fst) (filter (\<lambda>(j, r). enabled r \<and> GetExecutionTime lt t0 r = ?T) (enumerate 0 ?rs))"
    by (simp add: rule_times_def filter_map o_def case_prod_beta' conj_commute)
  also have "\<dots> = map snd (filter (\<lambda>(j, r). enabled r \<and> GetExecutionTime lt t0 r = ?T) (enumerate 0 ?rs))"
    by (rule map_cong [OF refl]) (auto simp: in_set_enumerate_eq)
  also have "\<dots> = filter (\<lambda>r. enabled r \<and> GetExecutionTime lt t0 r = ?T) (map snd (enumerate 0 ?rs))"
    by (simp only: filter_map o_def case_prod_beta')
  finally show ?thesis by (simp add: updateNextExecution_sel)
qed

lemma first_due_time:
  assumes "rule_ok r" and "enabled r" and "repeatTimes r = 0"
  shows "GetExecutionTime (civil off) t0 r = first_due off t0 r"
  using assms by (simp add: GetExecutionTime_cases no_repeat_zone)

text \<open>The instant the timer waits for is the first at which an enabled rule is due.\<close>

lemma next_instant:
  assumes ok: "\<forall>r \<in> set (listRules m). enabled r \<longrightarrow> rule_ok r \<and> repeatTimes r = 0"
    and T: "T = lowestTime (updateNextExecution (civil off) (\<lambda>_. t0) m)" "T \<noteq> MAX_TIMET"
  shows "r \<in> set (listRules m) \<Longrightarrow> enabled r \<Longrightarrow> GetExecutionTime (civil off) t0 r = T \<longleftrightarrow> due off r T"
    and "r \<in> set (listRules m) \<Longrightarrow> enabled r \<Longrightarrow> t0 \<le> t \<Longrightarrow> t < T \<Longrightarrow> \<not> due off r t"
    and "\<exists>r \<in> set (listRules m). enabled r \<and> due off r T" and "t0 \<le> T" and "T \<le> t0 + 7 * 86400"
proof -
  let ?ts = "set (map snd (rule_times (civil off) (\<lambda>_. t0) 0 (listRules m)))"
  have ts: "?ts = {first_due off t0 r | r. r \<in> set (listRules m) \<and> enabled r}"
  proof -
    have "?ts = {t. \<exists>j. (j, t) \<in> set (rule_times (civil off) (\<lambda>_. t0) 0 (listRules m))}" by force
    also have "\<dots> = {GetExecutionTime (civil off) t0 r | r. r \<in> set (listRules m) \<and> enabled r}"
      unfolding set_rule_times by (auto simp: in_set_conv_nth)
    also have "\<dots> = {first_due off t0 r | r. r \<in> set (listRules m) \<and> enabled r}"
      using ok first_due_time by metis
    finally show ?thesis .
  qed
  have min: "T = Min (insert MAX_TIMET ?ts)" unfolding T(1) updateNextExecution_sel earliest_min ..
  have "finite (insert MAX_TIMET ?ts)" by simp
  then have "T \<in> insert MAX_TIMET ?ts" and le: "x \<in> ?ts \<Longrightarrow> T \<le> x" for x
    unfolding min by (rule Min_in, simp, simp)
  with T(2) obtain r where r: "r \<in> set (listRules m)" "enabled r" "T = first_due off t0 r" using ts by auto
  have rok: "rule_ok r" using ok r by blast
  show "\<exists>r \<in> set (listRules m). enabled r \<and> due off r T"
    using r first_due_is_due [OF rok, of off t0] by auto
  show t0: "t0 \<le> T" and "T \<le> t0 + 7 * 86400" using r(3) first_due_bounds [OF rok] by simp_all
  have first: "T \<le> first_due off t0 x" if "x \<in> set (listRules m)" "enabled x" for x
    using le ts that by auto
  show "r \<in> set (listRules m) \<Longrightarrow> enabled r \<Longrightarrow> t0 \<le> t \<Longrightarrow> t < T \<Longrightarrow> \<not> due off r t" for r t
    using first_due_least [of r t0 t off] first [of r] ok by fastforce
  show "r \<in> set (listRules m) \<Longrightarrow> enabled r \<Longrightarrow> GetExecutionTime (civil off) t0 r = T \<longleftrightarrow> due off r T" for r
    using first_due_least [of r t0 T off] first [of r] ok first_due_is_due [of r off t0] first_due_time [of r off t0] t0
    by (metis order_le_less)
qed

section \<open>Properties\<close>


text \<open>A service that knows the unit E5, and a rule that switches it on on Saturdays.\<close>

definition e5_rule :: Rule where
  "e5_rule = saturday_rule\<lparr>raddress := ''E*''\<rparr>"

definition e5_world :: world where
  "e5_world = \<lparr>wq = plain_manager\<lparr>Containers := CheckContainerExist ''E5'' [],
     ruleManager := updateNextExecution (civil 0) (\<lambda>_. 0) (one_rule e5_rule)\<rparr>, wplace = W_Head, wsent = []\<rparr>"

lemma e5_rules:
  "\<forall>r \<in> set (listRules (one_rule e5_rule)). enabled r \<longrightarrow> rule_ok r \<and> repeatTimes r = 0"
  "lowestTime (ruleManager (wq e5_world)) = 208800"
  "filter (\<lambda>r. enabled r \<and> due 0 r 208800) (listRules (one_rule e5_rule)) = [e5_rule]"
proof -
  have same: "GetExecutionTime lt now (r\<lparr>raddress := a\<rparr>) = GetExecutionTime lt now r" for lt now r a
    by (simp add: GetExecutionTime_def nbRepeatsRequired_def Let_def)
  show "\<forall>r \<in> set (listRules (one_rule e5_rule)). enabled r \<longrightarrow> rule_ok r \<and> repeatTimes r = 0"
    using saturday_rule_ok by (simp add: one_rule_def e5_rule_def rule_ok_def) (simp add: saturday_rule_def)
  show "lowestTime (ruleManager (wq e5_world)) = 208800"
    using one_rule_update [of e5_rule "civil 0" "\<lambda>_. 0"] saturday_times(1) same
    by (simp add: e5_world_def e5_rule_def MAX_TIMET_def) (simp add: saturday_rule_def)
  show "filter (\<lambda>r. enabled r \<and> due 0 r 208800) (listRules (one_rule e5_rule)) = [e5_rule]"
    using saturday_due by (simp add: one_rule_def e5_rule_def due_def) (simp add: saturday_rule_def)
qed

lemma e5_world_calm: "calm std_number e5_world" "st_keys (Containers (wq e5_world)) = [''E5'']"
    "promised e5_world ''E5'' = -1"
proof -
  have p: "qm_ok std_number plain_manager" using plain_calm(1) by (simp add: calm_def plain_daemon_def)
  have c: "Containers plain_manager = []"
    by (simp add: plain_manager_def busy_manager_def sample_manager_def QueueManager_new_def)
  have "node_ok std_number ''E5''" using real_e5 by (intro valid_node) (auto simp: real_node_def isValidAddress_def split: prod.splits)
  then have "qm_ok std_number (wq e5_world)"
    using p c CheckContainerExist_ok [of "[]" "''E5''"] keys_ok_check [OF containers_okD(1) [OF containers_ok_empty], of std_number "''E5''"]
    by (simp add: qm_ok_def e5_world_def next_ok_update)
  then show "calm std_number e5_world"
    using plain_calm(1) by (simp add: calm_def e5_world_def plain_daemon_def calm_place_def)
  show "st_keys (Containers (wq e5_world)) = [''E5'']"
    by (simp add: e5_world_def CheckContainerExist_def st_find_def st_keys_def Let_def)
  show "promised e5_world ''E5'' = -1"
    by (simp add: promised_def pending_def e5_world_def plain_manager_def busy_manager_def sample_manager_def
        QueueManager_new_def CheckContainerExist_def container_value_def st_find_def Container_new_def Let_def)
qed


end
