(* ===== verification/X10_Settings.thy ===== *)
theory X10_Settings
  imports X10_Layout
begin

text \<open>
  The settings page among the events of its user: the connections that \<open>createConfigurationInterface\<close> of
  \<open>plasmoid/x10-widget.cpp\<close> makes between the fields and the mark of the dialog that something is to be
  applied, the button that restores the defaults, and what accepting or cancelling the dialog then does
  (\<open>x10-widget-settings.cpp\<close>).
\<close>

section \<open>The page and its dialog\<close>

text \<open>
  The applet, the fields, and the mark, which \<open>settingsModified\<close> of the dialog sets. The fields are filled
  before they are connected, so that opening does not set it.
\<close>

record SettingsDialog =
  sd_applet :: X10Widget
  sd_form :: SettingsForm
  sd_modified :: bool

definition settings_open :: "X10Widget \<Rightarrow> SettingsDialog" where
  "settings_open x = \<lparr>sd_applet = rulesToCfg x, sd_form = plasmoidToCfg x, sd_modified = False\<rparr>"

text \<open>A change that the user makes to a field.\<close>

datatype form_change =
    SpinLighting int
  | SpinOffPeriod int
  | CheckOffWhenDimmed bool
  | SpinOffWhenDimmed int
  | CheckRemember bool
  | SpinRemember int
  | CheckSmartQueue bool

fun change_form :: "form_change \<Rightarrow> SettingsForm \<Rightarrow> SettingsForm" where
  "change_form (SpinLighting v) f = f\<lparr>f_DefaultLighting := v\<rparr>"
| "change_form (SpinOffPeriod v) f = f\<lparr>f_DefaultSwitchOffPeriod := v\<rparr>"
| "change_form (CheckOffWhenDimmed b) f = f\<lparr>f_SwitchOffWhenDimmedTo0 := b\<rparr>"
| "change_form (SpinOffWhenDimmed v) f = f\<lparr>f_SwitchOffWhenDimmedTo0Secs := v\<rparr>"
| "change_form (CheckRemember b) f = f\<lparr>f_RememberLastIntensity := b\<rparr>"
| "change_form (SpinRemember v) f = f\<lparr>f_RememberLastIntensityThreshold := v\<rparr>"
| "change_form (CheckSmartQueue b) f = f\<lparr>f_UseSmartQueue := b\<rparr>"

text \<open>
  Whether the field emits the signal that is connected to \<open>settingsModified\<close>: a spin box
  \<open>valueChanged\<close> when its value changes, a check box \<open>clicked\<close> when the user clicks it.
\<close>

fun settings_signal :: "form_change \<Rightarrow> SettingsForm \<Rightarrow> bool" where
  "settings_signal (SpinLighting v) f \<longleftrightarrow> v \<noteq> f_DefaultLighting f"
| "settings_signal (SpinOffPeriod v) f \<longleftrightarrow> v \<noteq> f_DefaultSwitchOffPeriod f"
| "settings_signal (CheckOffWhenDimmed b) f \<longleftrightarrow> b \<noteq> f_SwitchOffWhenDimmedTo0 f"
| "settings_signal (SpinOffWhenDimmed v) f \<longleftrightarrow> v \<noteq> f_SwitchOffWhenDimmedTo0Secs f"
| "settings_signal (CheckRemember b) f \<longleftrightarrow> b \<noteq> f_RememberLastIntensity f"
| "settings_signal (SpinRemember v) f \<longleftrightarrow> v \<noteq> f_RememberLastIntensityThreshold f"
| "settings_signal (CheckSmartQueue b) f \<longleftrightarrow> b \<noteq> f_UseSmartQueue f"

text \<open>
  The fields that are set by the program emit \<open>valueChanged\<close> too, but not \<open>clicked\<close>.
\<close>

definition set_signal :: "SettingsForm \<Rightarrow> SettingsForm \<Rightarrow> bool" where
  "set_signal f g \<longleftrightarrow>
     f_DefaultLighting f \<noteq> f_DefaultLighting g \<or> f_DefaultSwitchOffPeriod f \<noteq> f_DefaultSwitchOffPeriod g \<or>
     f_SwitchOffWhenDimmedTo0Secs f \<noteq> f_SwitchOffWhenDimmedTo0Secs g \<or>
     f_RememberLastIntensityThreshold f \<noteq> f_RememberLastIntensityThreshold g"

text \<open>
  The page of the rules changes the rules of the applet; its slots emit \<open>configUpdated\<close> when they do. The
  button that reloads only starts a job.
\<close>

datatype settings_event =
    ChangeField form_change
  | RulesPage "Rule list"
  | PressReload
  | PressRestore

fun settings_step :: "settings_event \<Rightarrow> SettingsDialog \<Rightarrow> SettingsDialog" where
  "settings_step (ChangeField c) d =
     d\<lparr>sd_form := change_form c (sd_form d), sd_modified := sd_modified d \<or> settings_signal c (sd_form d)\<rparr>"
| "settings_step (RulesPage rs) d =
     d\<lparr>sd_applet := (sd_applet d)\<lparr>m_rules := rs\<rparr>,
       sd_modified := sd_modified d \<or> rs \<noteq> m_rules (sd_applet d)\<rparr>"
| "settings_step PressReload d = d"
| "settings_step PressRestore d =
     (let (x, f) = settingsRestoreDefaults (sd_applet d)
      in d\<lparr>sd_applet := x, sd_form := f, sd_modified := sd_modified d \<or> set_signal (sd_form d) f\<rparr>)"

text \<open>
  The button that accepts: the calls of the service and the applet. Saving the row of the rules that is still
  being edited, with which \<open>configAccepted\<close> begins, is an event of the page of the rules (\<open>X10_Rule_Events\<close>).
\<close>

definition settings_accept :: "widget_env \<Rightarrow> SettingsDialog \<Rightarrow> service_call list \<times> X10Widget" where
  "settings_accept env d = configAccepted env (sd_form d) (sd_applet d)"

section \<open>Without the defaults\<close>

text \<open>The fields that the user cannot change follow the applet.\<close>

definition same_controller :: "SettingsForm \<Rightarrow> SettingsForm \<Rightarrow> bool" where
  "same_controller f g \<longleftrightarrow>
     f_ControllerIP f = f_ControllerIP g \<and> f_ControllerPort f = f_ControllerPort g \<and>
     f_ControllerStatus f = f_ControllerStatus g"

definition page_inv :: "X10Widget \<Rightarrow> SettingsDialog \<Rightarrow> bool" where
  "page_inv x d \<longleftrightarrow>
     sd_applet d = (rulesToCfg x)\<lparr>m_rules := m_rules (sd_applet d)\<rparr> \<and>
     same_controller (sd_form d) (plasmoidToCfg x) \<and>
     (\<not> sd_modified d \<longrightarrow> sd_form d = plasmoidToCfg x \<and> m_rules (sd_applet d) = m_rules x)"

lemma page_inv_open: "page_inv x (settings_open x)"
  by (simp add: page_inv_def settings_open_def rulesToCfg_def same_controller_def)

lemma unchanged_field: "\<not> settings_signal c f \<Longrightarrow> change_form c f = f"
  by (cases c) simp_all

lemma same_controller_change: "same_controller (change_form c f) g = same_controller f g"
  by (cases c) (simp_all add: same_controller_def)

lemma page_inv_step:
  assumes "page_inv x d" and "ev \<noteq> PressRestore"
  shows "page_inv x (settings_step ev d)"
proof (cases ev)
  case (ChangeField c)
  with assms(1) show ?thesis
    by (auto simp: page_inv_def same_controller_change unchanged_field)
next
  case (RulesPage rs)
  have "m_rules (sd_applet (settings_step ev d)) = rs" by (simp add: RulesPage)
  moreover have "sd_applet (settings_step ev d) = (rulesToCfg x)\<lparr>m_rules := rs\<rparr>"
  proof -
    have "sd_applet d = (rulesToCfg x)\<lparr>m_rules := m_rules (sd_applet d)\<rparr>" using assms(1) by (simp add: page_inv_def)
    then have "(sd_applet d)\<lparr>m_rules := rs\<rparr> = ((rulesToCfg x)\<lparr>m_rules := m_rules (sd_applet d)\<rparr>)\<lparr>m_rules := rs\<rparr>"
      by (rule arg_cong)
    then show ?thesis by (simp add: RulesPage)
  qed
  ultimately show ?thesis using assms(1) by (auto simp: page_inv_def RulesPage)
qed (use assms in simp_all)

lemma page_inv_run: "page_inv x d \<Longrightarrow> PressRestore \<notin> set evs \<Longrightarrow> page_inv x (fold settings_step evs d)"
proof (induction evs arbitrary: d)
  case (Cons ev evs)
  have "page_inv x (settings_step ev d)" by (rule page_inv_step [OF Cons.prems(1)]) (use Cons.prems(2) in auto)
  with Cons.IH Cons.prems(2) show ?case by simp
qed simp

lemma accepted_form:
  "plasmoidToCfg (snd (configAccepted env f x)) =
     f\<lparr>f_ControllerIP := f_ControllerIP (plasmoidToCfg x), f_ControllerPort := f_ControllerPort (plasmoidToCfg x),
       f_ControllerStatus := f_ControllerStatus (plasmoidToCfg x)\<rparr>"
  by (simp add: plasmoidToCfg_def configAccepted_def Let_def split: prod.split)

section \<open>Properties\<close>



text \<open>C37: restoring the defaults changes the configuration of the applet at once and takes the rules
  as they are for saved. So accepting the dialog then sends nothing: neither the rules that were
  changed before nor the smart queue that the page now shows reach the service, and the change of a check
  box is not even marked; cancelling keeps the changed rules (as the text form gives them back) and
  the default configuration.\<close>

theorem restored_defaults_are_not_sent:
  "(let d' = settings_step PressRestore d; (sent, x') = settings_accept env d';
        x'' = configCancelled q fresh env (sd_applet d')
    in sent = [] \<and> x_config x' = defaultConfig \<and> m_rules x' = m_rules (sd_applet d) \<and>
       (sd_modified d' \<longleftrightarrow> sd_modified d \<or> set_signal (sd_form d) (sd_form d')) \<and>
       x_config x'' = defaultConfig \<and>
       m_rules x'' = deserializeRules q fresh (serializedRules (m_rules (sd_applet d))))"
proof -
  let ?x = "(sd_applet d)\<lparr>x_config := defaultConfig\<rparr>"
  have d': "sd_applet (settings_step PressRestore d) = rulesToCfg ?x"
    "sd_form (settings_step PressRestore d) = plasmoidToCfg ?x"
    "sd_modified (settings_step PressRestore d) = (sd_modified d \<or> set_signal (sd_form d) (plasmoidToCfg ?x))"
    by (simp_all add: settingsRestoreDefaults_def Let_def)
  have a: "fst (configAccepted env (plasmoidToCfg ?x) (rulesToCfg ?x)) = []"
    "x_config (snd (configAccepted env (plasmoidToCfg ?x) (rulesToCfg ?x))) = defaultConfig"
    "m_rules (snd (configAccepted env (plasmoidToCfg ?x) (rulesToCfg ?x))) = m_rules (sd_applet d)"
    by (simp_all add: configAccepted_def plasmoidToCfg_def rulesToCfg_def defaultConfig_def Let_def split: prod.split)
  have c: "x_config (configCancelled q fresh env (rulesToCfg ?x)) = defaultConfig"
    "m_rules (configCancelled q fresh env (rulesToCfg ?x)) =
       deserializeRules q fresh (serializedRules (m_rules (sd_applet d)))"
    by (simp_all add: configCancelled_def layoutControlWidgets_def rulesToCfg_def)
  show ?thesis
    unfolding Let_def settings_accept_def case_prod_beta d' using a c by blast
qed

end
