(* ===== verification/X10_Introspection.thy ===== *)
theory X10_Introspection
  imports X10_Daemon
begin

text \<open>
  The description of the service on the bus, the introspection text in
  \<open>controller/service/X10DbusAdaptor.h\<close>, as a list of members with the types of their arguments, beside
  what the adaptor and the interface object really do (\<open>X10_Bus\<close>, \<open>X10_Daemon\<close>): calls, replies and signals.
\<close>

section \<open>The description\<close>

text \<open>The types that occur: a string, an unsigned and a signed number of 32 bits.\<close>

datatype arg_type = T_s | T_u | T_i

datatype member =
    Signal string "(string \<times> arg_type) list"
  | Method string "(string \<times> arg_type) list" "arg_type list"

text \<open>Members in the order of the text; a method has arguments and results.\<close>

definition described_signals :: "member list" where
  "described_signals =
    [Signal ''CommandCompleted'' [(''channel'', T_s), (''unit'', T_u), (''command'', T_s), (''value'', T_i)],
     Signal ''PropertyUpdated'' [(''name'', T_s), (''value'', T_s)],
     Signal ''SourceUpdated'' [(''address'', T_s), (''value'', T_i)]]"

definition described_methods :: "member list" where
  "described_methods =
    [Method ''Send'' [(''channel'', T_s), (''unit'', T_u), (''command'', T_s)] [],
     Method ''Set'' [(''channel'', T_s), (''unit'', T_u), (''value'', T_i)] [],
     Method ''AllOn'' [] [],
     Method ''AllOff'' [] [],
     Method ''GetValue'' [(''source'', T_s)] [T_i],
     Method ''GetProperty'' [(''name'', T_s)] [T_s],
     Method ''SetProperty'' [(''name'', T_s), (''value'', T_s)] [],
     Method ''Start'' [] [],
     Method ''Stop'' [] [],
     Method ''Restart'' [] [],
     Method ''Reload'' [] [],
     Method ''Quit'' [] []]"

text \<open>The declarations of the adaptor's class: its slots and its signals.\<close>

definition adaptor_slots :: "member list" where
  "adaptor_slots =
    [Method ''AllOff'' [] [],
     Method ''AllOn'' [] [],
     Method ''GetProperty'' [(''name'', T_s)] [T_s],
     Method ''GetValue'' [(''source'', T_s)] [T_i],
     Method ''Quit'' [] [],
     Method ''Reload'' [] [],
     Method ''Restart'' [] [],
     Method ''Send'' [(''channel'', T_s), (''unit'', T_u), (''command'', T_s)] [],
     Method ''Set'' [(''channel'', T_s), (''unit'', T_u), (''value'', T_i)] [],
     Method ''SetProperty'' [(''name'', T_s), (''value'', T_s)] [],
     Method ''Start'' [] [],
     Method ''Stop'' [] []]"

definition adaptor_signals :: "member list" where
  "adaptor_signals =
    [Signal ''CommandCompleted'' [(''channel'', T_s), (''unit'', T_u), (''command'', T_s), (''value'', T_i)],
     Signal ''PropertyUpdated'' [(''name'', T_s), (''value'', T_s)],
     Signal ''SourceUpdated'' [(''address'', T_s), (''value'', T_i)]]"

text \<open>The signals of the interface object of a client, in \<open>common/X10DbusInterface.h\<close>.\<close>

definition interface_signals :: "member list" where
  "interface_signals =
    [Signal ''CommandCompleted'' [(''channel'', T_s), (''unit'', T_u), (''command'', T_s), (''value'', T_i)],
     Signal ''PropertyUpdated'' [(''name'', T_s), (''value'', T_s)],
     Signal ''SourceUpdated'' [(''address'', T_s), (''value'', T_i)]]"

text \<open>The classes declare what the text describes.\<close>

lemma classes_as_described:
  "set adaptor_slots = set described_methods" "adaptor_signals = described_signals"
  "interface_signals = described_signals"
  by (auto simp: adaptor_slots_def described_methods_def adaptor_signals_def interface_signals_def
      described_signals_def)

section \<open>Messages\<close>

fun has_type :: "QVariant \<Rightarrow> arg_type \<Rightarrow> bool" where
  "has_type (QV_String s) t \<longleftrightarrow> t = T_s"
| "has_type (QV_UInt u) t \<longleftrightarrow> t = T_u"
| "has_type (QV_Int i) t \<longleftrightarrow> t = T_i"
| "has_type _ t \<longleftrightarrow> False"

definition typed :: "QVariant list \<Rightarrow> arg_type list \<Rightarrow> bool" where
  "typed args ts \<longleftrightarrow> list_all2 has_type args ts"

fun find_method :: "string \<Rightarrow> member list \<Rightarrow> (arg_type list \<times> arg_type list) option" where
  "find_method n [] = None"
| "find_method n (Method m ins outs # ms) = (if m = n then Some (map snd ins, outs) else find_method n ms)"
| "find_method n (Signal _ _ # ms) = find_method n ms"

fun find_signal :: "string \<Rightarrow> member list \<Rightarrow> arg_type list option" where
  "find_signal n [] = None"
| "find_signal n (Signal m ts # ms) = (if m = n then Some (map snd ts) else find_signal n ms)"
| "find_signal n (Method _ _ _ # ms) = find_signal n ms"

text \<open>
  A reply and a relayed signal as messages. The adaptor relays the signals of the object that are its own
  (\<open>setAutoRelaySignals\<close>); \<open>RestartedDBUS\<close> stands for the new registration, which sends no signal.
\<close>

fun reply_message :: "bus_reply \<Rightarrow> QVariant list option" where
  "reply_message NoReply = None"
| "reply_message Reply = Some []"
| "reply_message (Reply_int i) = Some [QV_Int i]"
| "reply_message (Reply_string s) = Some [QV_String s]"

fun X10Adaptor_relay :: "svc_event \<Rightarrow> (string \<times> QVariant list) option" where
  "X10Adaptor_relay (SvcCommandCompleted ch u c v) =
     Some (''CommandCompleted'', [QV_String ch, QV_UInt u, QV_String c, QV_Int v])"
| "X10Adaptor_relay (PropertyUpdated n v) = Some (''PropertyUpdated'', [QV_String n, QV_String v])"
| "X10Adaptor_relay (SvcSourceUpdated a v) = Some (''SourceUpdated'', [QV_String a, QV_Int v])"
| "X10Adaptor_relay RestartedDBUS = None"

definition typed_call :: "string \<Rightarrow> QVariant list \<Rightarrow> bool" where
  "typed_call name args \<longleftrightarrow>
     (case find_method name described_methods of Some (ins, _) \<Rightarrow> typed args ins | None \<Rightarrow> False)"

definition typed_reply :: "string \<Rightarrow> bus_reply \<Rightarrow> bool" where
  "typed_reply name r \<longleftrightarrow>
     (case (find_method name described_methods, reply_message r) of
        (Some (_, outs), Some vs) \<Rightarrow> typed vs outs
      | _ \<Rightarrow> False)"

definition typed_signal :: "svc_event \<Rightarrow> bool" where
  "typed_signal ev \<longleftrightarrow>
     (case X10Adaptor_relay ev of
        None \<Rightarrow> True
      | Some (name, args) \<Rightarrow>
          (case find_signal name described_signals of Some ts \<Rightarrow> typed args ts | None \<Rightarrow> False))"

section \<open>Lemmas\<close>

lemma typed_simps [simp]:
  "typed [] ts \<longleftrightarrow> ts = []" "typed (v # vs) [] \<longleftrightarrow> False"
  "typed (v # vs) (t # ts) \<longleftrightarrow> has_type v t \<and> typed vs ts"
  by (simp_all add: typed_def)

lemma has_type_iff:
  "has_type v T_s \<longleftrightarrow> (\<exists>s. v = QV_String s)" "has_type v T_u \<longleftrightarrow> (\<exists>u. v = QV_UInt u)"
  "has_type v T_i \<longleftrightarrow> (\<exists>i. v = QV_Int i)"
  by (cases v; simp)+

lemma typed_list:
  "typed vs [] \<longleftrightarrow> vs = []" "typed vs (t # ts) \<longleftrightarrow> (\<exists>v ws. vs = v # ws \<and> has_type v t \<and> typed ws ts)"
  by (cases vs; simp)+

lemma interface_typed: "typed_call (fst (iface_message c)) (snd (iface_message c))"
  by (cases c) (simp_all add: typed_call_def described_methods_def)

lemma ex_call:
  "(\<exists>c. P c) \<longleftrightarrow> P B_Start \<or> P B_Stop \<or> P B_Restart \<or> P B_Reload \<or> P B_Quit \<or> P B_AllOn \<or> P B_AllOff \<or>
     (\<exists>ch u s. P (B_Send ch u s)) \<or> (\<exists>ch u v. P (B_Set ch u v)) \<or> (\<exists>s. P (B_GetValue s)) \<or>
     (\<exists>s. P (B_GetProperty s)) \<or> (\<exists>s v. P (B_SetProperty s v))"
  (is "?l \<longleftrightarrow> ?r")
proof
  assume ?l
  then obtain c where "P c" by blast
  then show ?r by (cases c) blast+
qed blast

text \<open>The interface object makes every call that is described, and no other.\<close>

lemma typed_call_iff: "typed_call name args \<longleftrightarrow> (\<exists>c. iface_message c = (name, args))"
proof -
  consider "name = ''Send''" | "name = ''Set''" | "name = ''AllOn''" | "name = ''AllOff''" | "name = ''GetValue''"
    | "name = ''GetProperty''" | "name = ''SetProperty''" | "name = ''Start''" | "name = ''Stop''" | "name = ''Restart''"
    | "name = ''Reload''" | "name = ''Quit''" | "find_method name described_methods = None"
    unfolding described_methods_def find_method.simps by presburger
  then show ?thesis
  proof cases
    case 13
    then show ?thesis using interface_typed by (auto simp: typed_call_def) (metis fst_conv option.distinct(1) option.simps(4))
  qed (simp_all add: typed_call_def described_methods_def typed_list has_type_iff ex_call, blast+)
qed

lemma adaptor_typed: "adaptor_method name args = Some c \<longleftrightarrow> iface_message c = (name, args)"
proof
  assume "adaptor_method name args = Some c"
  then show "iface_message c = (name, args)"
    by (auto simp: adaptor_method_def split: list.splits QVariant.splits if_splits)
next
  assume "iface_message c = (name, args)"
  then show "adaptor_method name args = Some c" using adaptor_interface [of c] by simp
qed

lemma signals_typed: "typed_signal ev"
  by (cases ev) (simp_all add: typed_signal_def described_signals_def)

lemma slot_reply_typed:
  "slot_call se c d = Some (r, evs, d') \<Longrightarrow> typed_reply (fst (iface_message c)) r"
  by (cases c) (auto simp: typed_reply_def described_methods_def split: prod.splits)

section \<open>Properties\<close>


end
