(* ===== verification/X10_Poll.thy ===== *)
theory X10_Poll
  imports X10_Interface
begin

text \<open>
  \<open>test/main.cpp\<close>: a client that asks for the status of the service every two seconds and connects again
  when there is no answer.
\<close>

section \<open>The program\<close>

text \<open>The value, what is printed, and the connection.\<close>

definition test_getProperty ::
    "Config \<Rightarrow> bus \<Rightarrow> string \<Rightarrow> IDBus \<Rightarrow> (string \<times> string list \<times> IDBus) option" where
  "test_getProperty config bus property d = do {
     (_, d) \<leftarrow> IDBus_iX10 config bus d;
     (r, d) \<leftarrow> bus_do bus (B_GetProperty property) d;
     (case reply_string r of
        None \<Rightarrow> do {
          (_, _, d) \<leftarrow> IDBus_Reconnect config bus d;
          Some (''NOREPLY'', [], d)
        }
      | Some s \<Rightarrow> Some (s, [s], d))
   }"

text \<open>The reply of \<open>SetProperty\<close>, which has no result, is read as one with a string.\<close>

definition test_setProperty :: "Config \<Rightarrow> bus \<Rightarrow> string \<Rightarrow> string \<Rightarrow> IDBus \<Rightarrow> (bool \<times> IDBus) option" where
  "test_setProperty config bus property v d = do {
     (_, d) \<leftarrow> IDBus_iX10 config bus d;
     (r, d) \<leftarrow> bus_do bus (B_SetProperty property v) d;
     if reply_string r \<noteq> None then Some (True, d)
     else do {
       (_, _, d) \<leftarrow> IDBus_Reconnect config bus d;
       Some (False, d)
     }
   }"

text \<open>The loop never ends: its first \<open>n\<close> turns, behind the question before it.\<close>

fun test_turns :: "nat \<Rightarrow> Config \<Rightarrow> bus \<Rightarrow> IDBus \<Rightarrow> (string list \<times> IDBus) option" where
  "test_turns 0 config bus d = Some ([], d)"
| "test_turns (Suc n) config bus d = do {
     (_, ls, d) \<leftarrow> test_getProperty config bus PROPERTY_STATUS d;
     (ls', d) \<leftarrow> test_turns n config bus d;
     Some (ls @ ls', d)
   }"

definition test_main :: "nat \<Rightarrow> Config \<Rightarrow> bus \<Rightarrow> (string list \<times> IDBus) option" where
  "test_main n config bus = test_turns (Suc n) config bus IDBus_new"

section \<open>Lemmas\<close>

text \<open>Answers that were given: the strings among the answers to the calls so far.\<close>

definition answers :: "bus \<Rightarrow> bus_call list \<Rightarrow> string set" where
  "answers bus cs = {s. \<exists>n < length cs. bus n (cs ! n) = Reply_string s}"

lemma reply_string_Some: "reply_string r = Some s \<longleftrightarrow> r = Reply_string s"
  by (cases r) simp_all

lemma answers_mono: "only_asks d d' \<Longrightarrow> answers bus (calls d) \<subseteq> answers bus (calls d')"
  by (auto simp: only_asks_def answers_def nth_append)

lemma getProperty_goes_on:
  "\<exists>v ls d'. test_getProperty config bus PROPERTY_STATUS d = Some (v, ls, d') \<and> m_dbusInterface d'
     \<and> only_asks d d' \<and> set ls \<subseteq> answers bus (calls d') \<and> (ls = [] \<longleftrightarrow> v = ''NOREPLY'' \<and> ls \<noteq> [v])"
proof -
  obtain evs d1 where 1: "IDBus_iX10 config bus d = Some (evs, d1)" "m_dbusInterface d1" "only_asks d d1"
    using IDBus_iX10_Some by blast
  let ?c = "B_GetProperty PROPERTY_STATUS"
  let ?d2 = "d1\<lparr>calls := calls d1 @ [?c]\<rparr>"
  have 2: "bus_do bus ?c d1 = Some (bus (length (calls d1)) ?c, ?d2)" "m_dbusInterface ?d2"
    using 1(2) by (simp_all add: bus_do_Some)
  have "only_asks d1 ?d2" by (simp add: only_asks_def) (rule exI [of _ 1], simp)
  with 1(3) have asks: "only_asks d ?d2" by (rule only_asks_trans)
  show ?thesis
  proof (cases "reply_string (bus (length (calls d1)) ?c)")
    case None
    obtain evs' d3 where 3: "IDBus_Reconnect config bus ?d2 = Some (True, evs', d3)" "m_dbusInterface d3" "only_asks ?d2 d3"
      using IDBus_Reconnect_Some [OF 2(2)] by blast
    from asks 3(3) have "only_asks d d3" by (rule only_asks_trans)
    with 1 2 3 None show ?thesis by (simp add: test_getProperty_def)
  next
    case (Some s)
    then have "s \<in> answers bus (calls ?d2)"
      by (auto simp: answers_def reply_string_Some intro!: exI [of _ "length (calls d1)"])
    with 1 2 asks Some show ?thesis by (simp add: test_getProperty_def)
  qed
qed

text \<open>
  The program goes on for ever: no turn fails, whatever the bus answers; it only asks for the status, and each line
  that it prints is an answer.
\<close>

lemma test_turns_go_on:
  "\<exists>ls d'. test_turns n config bus d = Some (ls, d') \<and> only_asks d d' \<and> set ls \<subseteq> answers bus (calls d') \<and> length ls \<le> n"
proof (induction n arbitrary: d)
  case (Suc n)
  obtain v ls d1 where 1: "test_getProperty config bus PROPERTY_STATUS d = Some (v, ls, d1)"
    "only_asks d d1" "set ls \<subseteq> answers bus (calls d1)"
    using getProperty_goes_on by blast
  have l: "length ls \<le> 1"
    using 1(1) by (auto simp: test_getProperty_def bind_eq_Some_conv split: prod.splits option.splits)
  obtain ls' d2 where 2: "test_turns n config bus d1 = Some (ls', d2)" "only_asks d1 d2"
    "set ls' \<subseteq> answers bus (calls d2)" "length ls' \<le> n"
    using Suc.IH by blast
  have "set ls \<subseteq> answers bus (calls d2)" using 1(3) answers_mono [OF 2(2)] by blast
  with 1 2 l show ?case by (auto intro: only_asks_trans)
qed simp

lemma test_polls_for_ever:
  "\<exists>ls d. test_main n config bus = Some (ls, d) \<and> only_asks IDBus_new d \<and> set ls \<subseteq> answers bus (calls d)"
  using test_turns_go_on [of "Suc n" config bus IDBus_new] by (simp add: test_main_def) blast

text \<open>
  \<open>setProperty\<close>, which the program does not use, fails when the service answers: the answer has no string.
\<close>

lemma setProperty_reads_the_wrong_type:
  assumes "m_dbusInterface d" and "bus (length (calls d)) (B_SetProperty p v) = Reply"
  shows "\<exists>d'. test_setProperty config bus p v d = Some (False, d')"
proof -
  let ?d = "d\<lparr>calls := calls d @ [B_SetProperty p v]\<rparr>"
  have "m_dbusInterface ?d" using assms(1) by simp
  then obtain evs d' where "IDBus_Reconnect config bus ?d = Some (True, evs, d')"
    using IDBus_Reconnect_Some by blast
  with assms show ?thesis by (simp add: test_setProperty_def IDBus_iX10_def bus_do_Some)
qed

end
