(* ===== verification/X10_Process.thy ===== *)
theory X10_Process
  imports X10_Cmd
begin

text \<open>
  What the programs ask of the operating system: the search of the command line client for the process of
  the service (\<open>proc_find\<close> of \<open>cmd/main.cpp\<close>), and the test of the port before a service is registered on a
  remote bus (\<open>CheckPortTCP\<close> of \<open>controller/service/x10dbusservice.cpp\<close>).
\<close>

section \<open>Reading the state of a process\<close>

text \<open>
  \<open>fscanf\<close> with the format \<open>%ld (%[^)]) %c\<close>: a space of the format skips any white space, \<open>%[^)]\<close> wants at
  least one character. \<open>None\<close> is a result other than 3. The name goes to an array of 100 characters; the
  kernel's are shorter.
\<close>

definition scan_long :: "string \<Rightarrow> (int \<times> string) option" where
  "scan_long s =
     (let t = dropWhile is_space s;
          neg = (t \<noteq> [] \<and> hd t = CHR ''-'');
          u = (if t \<noteq> [] \<and> (hd t = CHR ''-'' \<or> hd t = CHR ''+'') then tl t else t);
          ds = takeWhile is_digit u
      in if ds = [] then None
         else Some (if neg then - digits_value 0 ds else digits_value 0 ds, dropWhile is_digit u))"

definition scan_char :: "char \<Rightarrow> string \<Rightarrow> string option" where
  "scan_char c s = (case s of [] \<Rightarrow> None | x # t \<Rightarrow> if x = c then Some t else None)"

definition scan_stat :: "string \<Rightarrow> (int \<times> string \<times> char) option" where
  "scan_stat s = do {
     (pid, t) \<leftarrow> scan_long s;
     t \<leftarrow> scan_char CHR ''('' (dropWhile is_space t);
     let pname = takeWhile (\<lambda>c. c \<noteq> CHR '')'') t;
     if pname = [] then None
     else do {
       t \<leftarrow> scan_char CHR '')'' (dropWhile (\<lambda>c. c \<noteq> CHR '')'') t);
       (case dropWhile is_space t of [] \<Rightarrow> None | state # _ \<Rightarrow> Some (pid, pname, state))
     }
   }"

section \<open>The search\<close>

text \<open>
  The file of a process; \<open>stat\<close> gives the text of a file that can be opened. The buffer for the name of the file
  is long enough for every number.
\<close>

definition stat_path :: "int \<Rightarrow> string" where
  "stat_path lpid = ''/proc/'' @ dec_int lpid @ ''/stat''"

fun proc_loop :: "string \<Rightarrow> (string \<Rightarrow> string option) \<Rightarrow> string list \<Rightarrow> int" where
  "proc_loop name stat [] = -1"
| "proc_loop name stat (d_name # ents) =
     (let lpid = c_atoi d_name
      in if lpid < 0 then proc_loop name stat ents
         else case stat (stat_path lpid) of
                None \<Rightarrow> proc_loop name stat ents
              | Some s \<Rightarrow>
                  (case scan_stat s of
                     None \<Rightarrow> -1
                   | Some (_, pname, _) \<Rightarrow> if pname = name then wrap32 lpid else proc_loop name stat ents))"

definition proc_find :: "string \<Rightarrow> string list option \<Rightarrow> (string \<Rightarrow> string option) \<Rightarrow> int" where
  "proc_find name dir stat = (case dir of None \<Rightarrow> -1 | Some ents \<Rightarrow> proc_loop name stat ents)"

text \<open>The client with its search.\<close>

definition cmd_program ::
    "cmd_env \<Rightarrow> string list option \<Rightarrow> (string \<Rightarrow> string option) \<Rightarrow> string list \<Rightarrow> IDBus
       \<Rightarrow> (int \<times> cmd_out list \<times> IDBus) option" where
  "cmd_program env dir stat args d = cmd_main env (proc_find ''x10_service'' dir stat) args d"

section \<open>The processes behind the files\<close>

text \<open>
  What the search meets at a number: no process; one that ends between the opening of its file and the
  reading, which then gives nothing; a process with its name and state.
\<close>

datatype seen = Absent | Vanished | Alive string char

fun stat_text :: "int \<Rightarrow> seen \<Rightarrow> string option" where
  "stat_text p Absent = None"
| "stat_text p Vanished = Some []"
| "stat_text p (Alive comm st) = Some (dec_int p @ '' ('' @ comm @ '') '' @ [st])"

definition shows_processes :: "(int \<Rightarrow> seen) \<Rightarrow> (string \<Rightarrow> string option) \<Rightarrow> bool" where
  "shows_processes sees stat \<longleftrightarrow>
     (\<forall>p \<ge> 0. stat (stat_path p) = stat_text p (sees p) \<and>
        (\<forall>comm st. sees p = Alive comm st \<longrightarrow> \<not> is_space st \<and> p \<le> INT_MAX))"

text \<open>What the search can read: a name that is not empty and does not begin with a parenthesis that closes.\<close>

fun readable :: "seen \<Rightarrow> bool" where
  "readable Absent = True"
| "readable Vanished = False"
| "readable (Alive comm st) \<longleftrightarrow> comm \<noteq> [] \<and> hd comm \<noteq> CHR '')''"

fun named :: "string \<Rightarrow> seen \<Rightarrow> bool" where
  "named name (Alive comm st) \<longleftrightarrow> takeWhile (\<lambda>c. c \<noteq> CHR '')'') comm = name"
| "named name _ = False"

section \<open>Lemmas\<close>

lemma dec_nat_all_digits: "\<forall>c \<in> set (dec_nat n). is_digit c"
  using dec_nat_digits by blast

lemma scan_long_dec:
  assumes "0 \<le> p" and "t = [] \<or> \<not> is_digit (hd t)"
  shows "scan_long (dec_int p @ t) = Some (p, t)"
proof -
  have p: "dec_int p = dec_nat (nat p)" using assms(1) by (simp add: dec_int_def)
  obtain c cs where c: "dec_nat (nat p) = c # cs" using dec_int_nonempty [of p] p by (cases "dec_nat (nat p)") auto
  have dig: "is_digit c" using dec_nat_all_digits [of "nat p"] c by simp
  then have sign: "c \<noteq> CHR ''-''" "c \<noteq> CHR ''+''" by (auto simp: is_digit_def)
  have drop: "dropWhile is_space (dec_int p @ t) = dec_int p @ t" using digit_no_space [OF dig] by (simp add: p c)
  have take: "takeWhile is_digit (dec_int p @ t) = dec_int p" "dropWhile is_digit (dec_int p @ t) = t"
    using dec_nat_all_digits [of "nat p"] assms(2) by (cases t; simp add: p)+
  have "digits_value 0 (dec_int p) = p"
    using digits_value_read [OF read_dec_dec_nat [of "nat p"]] assms(1) by (simp add: p)
  then show ?thesis
    using take sign by (simp add: scan_long_def drop Let_def) (simp add: p c)
qed

text \<open>A text of the kernel is read back, the name up to its first closing parenthesis.\<close>

lemma scan_stat_text:
  assumes "0 \<le> p" and "\<not> is_space st"
  shows "\<exists>st'. scan_stat (dec_int p @ '' ('' @ comm @ '') '' @ [st]) =
    (if readable (Alive comm st) then Some (p, takeWhile (\<lambda>c. c \<noteq> CHR '')'') comm, st') else None)"
proof -
  let ?t = "comm @ '') '' @ [st]"
  have name: "takeWhile (\<lambda>c. c \<noteq> CHR '')'') ?t = takeWhile (\<lambda>c. c \<noteq> CHR '')'') comm"
    by (induction comm) simp_all
  have "\<exists>u. dropWhile (\<lambda>c. c \<noteq> CHR '')'') ?t = CHR '')'' # u \<and> st \<in> set u"
    by (induction comm) auto
  then obtain u where u: "dropWhile (\<lambda>c. c \<noteq> CHR '')'') ?t = CHR '')'' # u" "st \<in> set u" by blast
  then obtain x v where x: "dropWhile is_space u = x # v"
    using assms(2) by (cases "dropWhile is_space u") auto
  have long: "scan_long (dec_int p @ '' ('' @ ?t) = Some (p, '' ('' @ ?t)"
    using scan_long_dec [OF assms(1), of "'' ('' @ ?t"] by simp
  have space: "is_space CHR '' ''" "\<not> is_space CHR ''(''" by (simp_all add: is_space_def)
  have "takeWhile (\<lambda>c. c \<noteq> CHR '')'') comm = [] \<longleftrightarrow> \<not> readable (Alive comm st)" by (cases comm) auto
  then show ?thesis
    using long u(1) x name space by (simp add: scan_stat_def scan_char_def Let_def del: readable.simps)
qed

text \<open>The search stops at the first process that it cannot read or that has the name.\<close>

lemma proc_loop_stops:
  assumes "shows_processes sees stat" and "\<forall>e \<in> set ents. 0 \<le> c_atoi e"
  shows "proc_loop name stat ents =
    (case find (\<lambda>p. \<not> readable (sees p) \<or> named name (sees p)) (map c_atoi ents) of
       None \<Rightarrow> -1
     | Some p \<Rightarrow> if readable (sees p) then p else -1)"
  using assms(2)
proof (induction ents)
  case (Cons e ents)
  let ?p = "c_atoi e"
  have p: "0 \<le> ?p" using Cons.prems by simp
  have stat: "stat (stat_path ?p) = stat_text ?p (sees ?p)"
    and live: "\<And>comm st. sees ?p = Alive comm st \<Longrightarrow> \<not> is_space st \<and> ?p \<le> INT_MAX"
    using assms(1) p by (auto simp: shows_processes_def)
  note IH = Cons.IH [OF ballI, OF Cons.prems [rule_format]]
  show ?case
  proof (cases "sees ?p")
    case Absent
    then show ?thesis using p stat Cons by simp
  next
    case Vanished
    then show ?thesis using p stat by (simp add: scan_stat_def scan_long_def)
  next
    case (Alive comm st)
    from scan_stat_text [OF p, of st comm] live [OF Alive] obtain st' where
      "scan_stat (dec_int ?p @ '' ('' @ comm @ '') '' @ [st]) =
        (if readable (sees ?p) then Some (?p, takeWhile (\<lambda>c. c \<noteq> CHR '')'') comm, st') else None)"
      unfolding Alive by blast
    moreover have "wrap32 ?p = ?p"
      using p live [OF Alive] by (intro wrap32_id) (simp add: in_int_def INT_MIN_def)
    ultimately show ?thesis
      using p stat Cons Alive by (simp add: Let_def del: readable.simps)
  qed
qed simp

text \<open>
  So \<open>quit\<close> sends \<open>Quit\<close> when the search reaches the service; it says that nothing runs, and sends nothing,
  where a process that it cannot read comes before it: one that ends meanwhile, or one without a name.
\<close>

lemma quit_needs_readable_processes:
  assumes "shows_processes sees stat" and "\<forall>e \<in> set ents. 0 \<le> c_atoi e"
  shows "case find (\<lambda>p. \<not> readable (sees p) \<or> named ''x10_service'' (sees p)) (map c_atoi ents) of
      None \<Rightarrow> cmd_program env (Some ents) stat [''quit''] d = Some (0, [Out_line ''Not running''], d)
    | Some p \<Rightarrow>
        if readable (sees p)
        then \<exists>d'. cmd_program env (Some ents) stat [''quit''] d =
                 Some (0, [Out_line (''Quitting instance '' @ dec_int p)], d') \<and> B_Quit \<in> set (calls d')
        else cmd_program env (Some ents) stat [''quit''] d = Some (0, [Out_line ''Not running''], d)"
proof -
  let ?f = "find (\<lambda>p. \<not> readable (sees p) \<or> named ''x10_service'' (sees p)) (map c_atoi ents)"
  note stops = proc_loop_stops [OF assms, of "''x10_service''"]
  obtain evs d1 where 1: "IDBus_iX10 (c_config env) (c_bus env) d = Some (evs, d1)" "m_dbusInterface d1"
    using IDBus_iX10_Some by blast
  have quit: "strcaseeq ''quit'' ''quit''" by (simp add: strcaseeq_def)
  show ?thesis
  proof (cases ?f)
    case None
    then show ?thesis using stops quit by (simp add: cmd_program_def proc_find_def cmd_main_def)
  next
    case (Some p)
    then have "0 \<le> p" using assms(2) by (auto simp: find_Some_iff)
    then show ?thesis
      using Some stops quit 1 by (simp add: cmd_program_def proc_find_def cmd_main_def bus_do_Some)
  qed
qed

section \<open>What is printed\<close>

text \<open>The lines of the help and of the version, whose text a configured header gives.\<close>

definition printUsage :: "string \<Rightarrow> string list" where
  "printUsage fullversion =
    [''x10 ('' @ fullversion @ '') - send commands to X10 controller through DBUS'',
     ''   help | version'',
     ''   status | start | stop | restart | reload'',
     ''   address               -> get value'',
     ''   address [+|-|s|b]     -> on|off|soften|brighten'',
     ''   address {-1..7}       -> set to value -1(off), 0..7'',
     ''   all on/+ | off/- | allon | alloff'',
     ''   properties | p | prop -> list all properties'',
     ''   propertyName          -> get value for property'',
     ''   propertyName value    -> set value if allowed (e.g. SmartQueue)'',
     [],
     '' sample   :  x10 e2; x10 e2 + ; x10 e2 3;'']"

definition printVersion :: "string \<Rightarrow> string list" where
  "printVersion fullversion = [fullversion]"

fun out_lines :: "string \<Rightarrow> cmd_out \<Rightarrow> string list" where
  "out_lines fullversion Out_usage = printUsage fullversion"
| "out_lines fullversion Out_version = printVersion fullversion"
| "out_lines fullversion (Out_line l) = [l]"

section \<open>The port of a remote bus\<close>

text \<open>
  Whether something listens at an address is an argument, like the number of files that the process may have
  open; \<open>n\<close> are open. The number of the port passes through a \<open>short int\<close> and \<open>htons\<close>. The socket is
  never closed.
\<close>

definition CheckPortTCP :: "(string \<Rightarrow> 16 word \<Rightarrow> bool) \<Rightarrow> nat \<Rightarrow> int \<Rightarrow> string \<Rightarrow> nat \<Rightarrow> bool \<times> nat" where
  "CheckPortTCP listens limit dwPort ipAddressStr n =
     (let sin_port = word_of_int dwPort
      in if n < limit then (listens ipAddressStr sin_port, Suc n) else (False, n))"

text \<open>The registration with its test, which is made for a remote bus only.\<close>

definition register_checked ::
    "(string \<Rightarrow> 16 word \<Rightarrow> bool) \<Rightarrow> nat \<Rightarrow> bus_answers \<Rightarrow> Config \<Rightarrow> nat \<times> Bus \<Rightarrow> bool \<times> nat \<times> Bus" where
  "register_checked listens limit a config = (\<lambda>(n, b).
     let (reached, n) =
           (if USE_LOCAL_SYSTEM_BUS config then (True, n)
            else CheckPortTCP listens limit (CONTROLLER_PORT config) (CONTROLLER_HOST config) n);
         (ok, b) = RegisterDBusService (a\<lparr>port_open := reached\<rparr>) config b
     in (ok, n, b))"

text \<open>Every registration on a remote bus leaves a socket open, until none can be had.\<close>

lemma registrations_leave_sockets:
  assumes "\<not> USE_LOCAL_SYSTEM_BUS config"
  shows "fst (((\<lambda>s. snd (register_checked listens limit a config s)) ^^ k) (n, b)) = (if n \<le> limit then min limit (n + k) else n)"
proof (induction k)
  case (Suc k)
  let ?s = "((\<lambda>s. snd (register_checked listens limit a config s)) ^^ k) (n, b)"
  have "fst (snd (register_checked listens limit a config ?s)) = (if fst ?s < limit then Suc (fst ?s) else fst ?s)"
    using assms by (simp add: register_checked_def CheckPortTCP_def Let_def split: prod.split)
  with Suc show ?case by auto
qed simp

lemma registration_fails_in_the_end:
  assumes "\<not> USE_LOCAL_SYSTEM_BUS config" and "n \<le> limit" and "limit \<le> n + k"
  shows "\<not> fst (register_checked listens limit a config (((\<lambda>s. snd (register_checked listens limit a config s)) ^^ k) (n, b)))"
proof -
  let ?s = "((\<lambda>s. snd (register_checked listens limit a config s)) ^^ k) (n, b)"
  have "fst ?s = limit" using registrations_leave_sockets [OF assms(1)] assms(2,3) by simp
  then show ?thesis
    using assms(1) by (cases ?s) (simp add: register_checked_def CheckPortTCP_def RegisterDBusService_def Let_def)
qed

text \<open>A number beyond 16 bits is taken for another port.\<close>

lemma port_is_cut: "CheckPortTCP listens limit (65536 + p) ip n = CheckPortTCP listens limit p ip n"
proof -
  have "(word_of_int (65536 + p) :: 16 word) = word_of_int p" by (simp add: word_of_int_eq_iff take_bit_eq_mod)
  then show ?thesis by (simp only: CheckPortTCP_def)
qed

end
