(* ===== verification/X10_Shutdown.thy ===== *)
theory X10_Shutdown
  imports X10_Daemon_Laws
begin

text \<open>
  The end of the service's process, after its event loop: the destructors of the object of the service in
  \<open>controller/service/x10dbusservice.cpp\<close> and of the queue manager in \<open>queue-manager.cpp\<close>, which run
  when the program's \<open>main\<close> has returned.
\<close>

section \<open>The destructors\<close>

text \<open>
  What comes of them: they wait for the thread to stop; the process ends, having saved the configuration; or
  \<open>QThread\<close>, the base of the queue manager, is destroyed while its thread runs, which aborts the process
  (as Qt documents), after the configuration is saved.
\<close>

datatype ending =
    Waits_for_thread
  | Ends qsettings
  | Aborts qsettings

text \<open>\<open>~QueueManager\<close>: \<open>Stop\<close> where it is not stopped, the controller, the configuration; then \<open>~QThread\<close>.\<close>

definition QueueManager_delete :: "bool \<Rightarrow> daemon \<Rightarrow> ending" where
  "QueueManager_delete isWritable d =
     (let saved = Config_Save isWritable (qm_config (dq d)) (dini d)
      in if qm_status (dq d) \<noteq> QM_STOPPED \<and> qm_status (dq d) \<noteq> QM_STOPPING then Waits_for_thread
         else if thread_running d then Aborts saved
         else Ends saved)"

text \<open>\<open>~X10DbusService\<close>: \<open>Stop\<close>, then the queue manager.\<close>

definition X10DbusService_delete :: "bool \<Rightarrow> daemon \<Rightarrow> ending" where
  "X10DbusService_delete isWritable d =
     (if thread_running d \<and> qm_status (dq d) \<noteq> QM_STOPPED \<and> qm_status (dq d) \<noteq> QM_STOPPING
      then Waits_for_thread
      else QueueManager_delete isWritable d)"

section \<open>How the process ends\<close>

text \<open>
  Behind the event loop the thread is out of its loop, so that no destructor waits; but for \<open>QThread\<close> it may
  still run, and then the process aborts.
\<close>

lemma process_ends_or_aborts:
  assumes "qt_number_ok q" and "dreachable q lt ini g d" and "dmain d = M_Gone"
  shows "X10DbusService_delete w d =
    (if dthread d = T_Idle then Ends (Config_Save w (qm_config (dq d)) (dini d))
     else Aborts (Config_Save w (qm_config (dq d)) (dini d)))"
proof -
  have "main_ok (dmain d) d" using dreachable_ok [OF assms(2,1)] by (simp add: daemon_ok_def)
  then have "qm_status (dq d) = QM_STOPPED" using assms(3) by simp
  then show ?thesis by (simp add: X10DbusService_delete_def QueueManager_delete_def thread_running_def Let_def)
qed

text \<open>
  \<open>Quit\<close> waits for the status only. Whenever it has waited, the thread has yet to end, so the process
  aborts unless the thread is faster than the return from the event loop; a \<open>Quit\<close> that finds the thread begun
  but not yet at work does not wait at all.
\<close>

lemma quit_does_not_wait_for_the_end:
  assumes "qt_number_ok q" and "dreachable q lt ini g d" and "dmain d = M_Waiting P_Quit"
    and "qm_status (dq d) \<noteq> QM_STOPPED" and "3 \<le> length is"
  shows "\<exists>saved. X10DbusService_delete w
    (stop_wait P_Quit (d\<lparr>dw := fold worker_move is (dw d), dthread := T_Ending\<rparr>)) = Aborts saved"
proof -
  have ok: "daemon_ok q lt ini g d" by (rule dreachable_ok [OF assms(2,1)])
  then have run: "\<not> isRunning (dq d)" and st: "qm_status (dq d) = QM_STOPPING"
    using assms(3,4) by (auto simp: daemon_ok_def)
  have "reachable q lt ini g (dw d)" using ok by (simp add: daemon_ok_def)
  then have on: "wplace (dw d) \<noteq> W_Off" using status_stopped [OF assms(1)] assms(4) by blast
  have "moves_left (wplace (dw d)) \<le> length is" using moves_left_three [of "wplace (dw d)"] assms(5) by simp
  note m = moves_stopping [OF run st on this]
  have stopped: "qm_status (wq (fold worker_move is (dw d))) = QM_STOPPED"
    using m by (auto simp: stop_wait_def)
  then show ?thesis
    by (simp add: stop_wait_def X10DbusService_delete_def QueueManager_delete_def thread_running_def Let_def)
qed

lemma quit_before_the_thread_runs:
  "\<exists>saved. dmain (svc_Quit begun_daemon) = M_Gone \<and> X10DbusService_delete w (svc_Quit begun_daemon) = Aborts saved"
proof -
  have "thread_running begun_daemon" "qm_status (dq begun_daemon) = QM_STOPPED"
    by (simp_all add: begun_daemon_def svc_Start_def qm_Start_def thread_running_def daemon_start_def
        world_start_def QueueManager_new_def)
  then show ?thesis
    by (simp add: svc_Quit_def stop_then_def X10DbusService_delete_def QueueManager_delete_def
        thread_running_def Let_def)
qed

end
