(* ===== verification/X10_Pause.thy ===== *)
theory X10_Pause
  imports X10_Wire
begin

text \<open>
  The pauses that \<open>x10_send\<close> of \<open>x10core/x10controller.cpp\<close> makes, one behind each command that it hands to the
  plugin, and the time that the commands of the queue take by them.
\<close>

section \<open>The pauses\<close>

definition c_waitTimeStandard :: int where "c_waitTimeStandard = 950000"

text \<open>In microseconds; what follows the first \<open>return\<close> of the function is dead.\<close>

definition x10_waitTime :: "CmdCode \<Rightarrow> int" where "x10_waitTime code = c_waitTimeStandard"

text \<open>The pauses of \<open>x10_send\<close> for one command after the other, also those of the call of itself.\<close>

fun send_time :: "'h X10Controller \<Rightarrow> x10_ha_command list \<Rightarrow> int option" where
  "send_time c [] = Some 0"
| "send_time c (x # xs) =
     (case x10_send c (Some x) of
        None \<Rightarrow> None
      | Some (r, sent, c') \<Rightarrow>
          map_option (\<lambda>t. sum_list (map (\<lambda>y. x10_waitTime (ha_cmd y)) sent) + t) (send_time c' xs))"

section \<open>The time of a plan\<close>

lemma send_time_moves:
  assumes "real_unit ch u" and "IsOperational c" and "set ts \<subseteq> set moves" and "u mod 8 \<noteq> 1 \<or> \<not> list_ex is_dim ts"
  shows "send_time c (map (ha_of ch u) ts) =
    Some (c_waitTimeStandard * (int (length ts) + (if ts \<noteq> [] \<and> list_ex is_dim ts \<and> \<not> addressed c ch u \<and> is_dim (hd ts) then 1 else 0)))"
  using assms
proof (induction ts arbitrary: c)
  case (Cons t ts)
  have t: "t \<in> set moves" and ts: "set ts \<subseteq> set moves"
    using Cons.prems(3) by (auto simp del: list.set(2) intro: list.set_intros)
  note s = x10_send_move [OF Cons.prems(1) t Cons.prems(2)]
  have "IsOperational (sent_to ch u c)" using Cons.prems(2) by (simp add: sent_to_def)
  then have ih: "send_time (sent_to ch u c) (map (ha_of ch u) ts) = Some (c_waitTimeStandard * int (length ts))"
    using Cons.IH [OF Cons.prems(1) _ ts, of "sent_to ch u c"] Cons.prems(4) by auto
  show ?case
    using Cons.prems(4) by (auto simp: s ih x10_waitTime_def algebra_simps)
qed simp

lemma set_plan_length: "level_ok v \<Longrightarrow> level_ok cur \<Longrightarrow> length (set_plan v cur) \<le> 8"
  by (auto simp: set_plan_def dims_to_def level_ok_def MAX_VALUE_def nat_le_iff)

text \<open>
  A \<open>CMD_SET\<close> for a unit with a unit below it in its half keeps the thread of the queue for less than
  nine seconds: its plan has at most eight commands, and an on can come before them.
\<close>

lemma set_takes_nine_pauses:
  assumes "level_ok v" and "level_ok cur" and "real_unit ch u" and "IsOperational c" and "u mod 8 \<noteq> 1"
  shows "\<exists>t. send_time c (map (ha_of ch u) (set_plan v cur)) = Some t \<and> 0 \<le> t \<and> t \<le> 9 * c_waitTimeStandard"
proof -
  have "set (set_plan v cur) \<subseteq> set moves" by (auto simp: set_plan_def dims_to_def)
  note time = send_time_moves [OF assms(3,4) this]
  show ?thesis
    using time assms(5) set_plan_length [OF assms(1,2)] by (simp add: c_waitTimeStandard_def)
qed

end
