(* ===== verification/Spec2Isabelle.thy ===== *)
theory Spec2Isabelle
  imports X10_Rule_Editor X10_Cmd X10_Controller X10_Kernel_Path X10_Kernel_Array X10_Path X10_Wire X10_Logger X10_Layout X10_Rule_Events X10_Control_View X10_Race
    X10_Rule_Path X10_Settings X10_Introspection X10_Poll X10_Process X10_Shutdown X10_Pause
begin

text \<open>
  A verification library for x10-widget, which drives X10 home automation from a KDE desktop: a
  service on the bus owns a USB transceiver, and a desktop widget, its data engine and a command line
  client talk to it.

  \<^bold>\<open>The program and its parts.\<close> A command is a house letter A to P, a unit 1 to 16 and an action. The
  user acts on a control of the widget (\<open>widget/plasmoid\<close>), whose request goes through a job of
  the data engine (\<open>widget/data_engine\<close>) and the bus to the service (\<open>controller/service\<close>); the command
  line client (\<open>cmd\<close>) calls the service directly. The service queues commands, and its thread turns
  them one by one into elementary commands for the controller (\<open>controller/x10core\<close>), which sends
  them through one of two plugins: libusb, or the device file of a kernel driver of the repository
  (\<open>controller/linux\<close>). For every unit the service keeps a container with the last level, -1 for off and
  0 to 7; its changes travel back as signals to the data engine and the controls. Scheduled rules, kept
  by the service and edited in the widget, queue commands at their times. \<open>common\<close> holds what
  several programs share: commands and checks, rules, configuration, the connection to the bus.

  \<^bold>\<open>Theories and sources.\<close> Definitions have the names of the functions they model, with a prefix where
  two files use one name (\<open>k_\<close> kernel, \<open>qm_\<close> queue manager, \<open>rm_\<close> rules manager, \<open>svc_\<close> service,
  \<open>cmd_\<close> command line, \<open>widget_\<close> and \<open>applet_\<close> applet).

  \<^item> \<open>X10_Prelude\<close>: C integers, Qt strings, decimal numbers, lemma collections; \<open>X10_Store\<close>: the ordered
    map with the locale \<open>std_map\<close>, interpreted on it and used by the queue manager and the data engine.
  \<^item> \<open>X10_Codes\<close>: \<open>x10core/x10codes\<close>. \<open>X10_Command\<close>: \<open>common/command.h\<close>. \<open>X10_Config\<close>: \<open>common/config.h\<close>.
    \<open>X10_Logger\<close>: \<open>common/logger\<close>. \<open>X10_Interface\<close>: \<open>common/interfacehandler\<close>. \<open>X10_Bus\<close>: the two ends of the
    bus, \<open>common/X10DbusInterface.h\<close> and \<open>service/X10DbusAdaptor.cpp\<close>. \<open>X10_Introspection\<close>: the
    description of the service in \<open>service/X10DbusAdaptor.h\<close>. \<open>X10_Poll\<close>: \<open>test/main.cpp\<close>.
  \<^item> \<open>X10_Rule\<close>, \<open>X10_Rule_Time\<close>, \<open>X10_Rule_Text\<close>: \<open>common/rule\<close>, its times and its text form.
    \<open>X10_Rules_Manager\<close>: \<open>service/rules-manager\<close>. \<open>X10_Rule_Editor\<close>, \<open>X10_Rule_Events\<close>: the page of the rules in
    \<open>plasmoid/x10-widget-settings.cpp\<close>, its slots and then its signals and the dialog.
  \<^item> \<open>X10_Container\<close>: \<open>service/container\<close>, with the locale \<open>container_op\<close> of the operations on a level,
    interpreted on setting, pushing and receiving. \<open>X10_Queue\<close>, \<open>X10_Queue_Laws\<close>, \<open>X10_Worker\<close>,
    \<open>X10_Worker_Laws\<close>, \<open>X10_Rounds\<close>: \<open>service/queue-manager\<close>, the queue and the thread, with a step relation
    of the thread, the clients, the timer and the receiver. \<open>X10_Levels\<close>, \<open>X10_Promise\<close>: the abstract queue,
    which knows levels only, and its refinement. \<open>X10_Race\<close>: the accesses to the containers one by one.
    \<open>X10_Service\<close>, \<open>X10_Daemon\<close>, \<open>X10_Daemon_Laws\<close>: \<open>service/x10dbusservice\<close>, its slots, and its process with
    the beginning and end of the thread. \<open>X10_Shutdown\<close>: the destructors behind its event loop.
  \<^item> \<open>X10_Driver\<close>, \<open>X10_Libusb\<close>, \<open>X10_Libusb_Laws\<close>, \<open>X10_Controller\<close>: the plugins and the controller of
    \<open>x10core\<close>. \<open>X10_Wire\<close>: the queue over controller and plugin. \<open>X10_Pause\<close>: the time that sending takes. \<open>X10_Kernel_Codes\<close>, \<open>X10_Kernel\<close>,
    \<open>X10_Kernel_Laws\<close>, \<open>X10_Kernel_Path\<close>, \<open>X10_Kernel_Array\<close>: the kernel driver \<open>x10-cm19a.c\<close>: what it computes,
    a transceiver with its locks, buffers and calls, and the array of them while the module is loaded.
  \<^item> \<open>X10_Engine\<close>, \<open>X10_Engine_Laws\<close>, \<open>X10_Job\<close>: the data engine, its services and jobs. \<open>X10_Cmd\<close>:
    \<open>cmd/main.cpp\<close>. \<open>X10_Process\<close>: its search for the process of the service and its help, and the test of
    the port that the service makes. \<open>X10_Control\<close>, \<open>X10_Control_Laws\<close>, \<open>X10_Control_View\<close>: \<open>control-widget\<close>,
    with the locales \<open>control_reaction\<close> and \<open>control_action\<close> for what every slot keeps and what a user's
    action does, interpreted on the slots. \<open>X10_Nodes\<close>, \<open>X10_Node_Laws\<close>: the table of units.
    \<open>X10_Widget\<close>, \<open>X10_Layout\<close>: the applet, its rows of controls, icons and menu.
    \<open>X10_Settings\<close>: the page of the settings among the events of its user.
  \<^item> \<open>X10_Path\<close>: a command from the control on the desktop through job, bus, slot and queue to the level.
    \<open>X10_Rule_Path\<close>: a rule from its text and its time through the queue to the levels of its units.

  \<^bold>\<open>How the code is represented.\<close> A class or a struct is a record, a method a function on it; pointers to
  members that are only null or not are options. A \<open>std::map\<close> is an association list in key order.
  32-bit codes and bytes are words; \<open>int\<close> and \<open>unsigned\<close> of the program are integers with the
  conversion written where the code converts. An access outside an array, an unbounded recursion and a
  loop that does not end have no result (\<open>None\<close>); in the kernel driver a result is one of
  returning, sleeping for ever and a memory fault. What a call emits is collected in the state
  (signals, bus calls, requests to the USB core, entries of the log), oldest first.

  \<^bold>\<open>The environment.\<close> Code outside the repository is an argument: Qt's reading of numbers (\<open>qt_number\<close>,
  with \<open>qt_number_ok\<close> for what is relied on: decimal numbers are read back, white space at the ends
  is the library's matter; \<open>std_number\<close> is an instance), the answers of the bus (\<open>bus\<close>), \<open>QSettings\<close>
  and \<open>KConfig\<close> as maps from keys to texts, clock and time zone, the order in which the proxy model
  sorts the rows of the applet, the results of \<open>libusb\<close>, of the file system, of the shell (\<open>echo_ok\<close>, with
  the instance \<open>sample_sh\<close>) and of the kernel.

  \<^bold>\<open>What is shown.\<close>

  \<^item> The service: every reachable state of thread, clients, timer and receiver satisfies the invariant
    (levels from -1 to 7, well-formed keys and commands); the status follows the thread; whatever the
    interleaving, the queue implements a list of commands that change levels at once, so that desktop and
    service agree when the thread is at rest; a \<open>CMD_SET\<close> sends the elementary commands of its plan, which is
    compared with the fewest that would do, and reaches its level; a queue drains; the smart queue keeps no
    contradicting commands. Where it fails: a house pattern that gets a container makes a later command to
    the house recurse without end; \<open>GetValue\<close> can make a container anew beside the thread, and a level is lost.
  \<^item> The process: its moves are those of the queue; stopping takes three moves of the thread at most; a stop
    followed by a start can end the service, and the end of the process can abort it. On the bus the service
    is what its introspection text says.
  \<^item> Rules: \<open>GetExecutionTime\<close> is the first instant that is due, within seven days; the text form is read
    back; whatever text is read, an enabled rule is safe. When the timer ends in time, the rules due then and no
    others change the levels of their units, as their addresses and actions say. The timer stalls when it ends in the second
    a rule is due. In the editor, viewing a rule keeps it, but not a rule with seconds; the list shows the
    rules until the user applies them.
  \<^item> Controllers: what each plugin sends, receives and reads outside its tables, that brightening
    is sent as dimming, and what a set makes of the frames; both plugins send the same frames for the
    units 1 to 8. The kernel driver never overruns a buffer, with all transceivers of its array; it
    reads a key press once and takes its own texts back. A second open spoils the first; unplugging
    an open device costs an entry of the array for ever; refused opens and an unplugging stop
    all transceivers; the module can be unloaded under an open file.
  \<^item> Clients: everything the jobs of the data engine and the command line send is accepted by the service;
    what the data engine publishes and what a control shows follow the level of the service; the rows of
    the table survive their file; every unit of the table has its control in the layout; opposite
    presses of one button can vanish in the queue; unit 0, which the table accepts, stops the service. The
    log has every message that its levels let through. The page of the settings marks and sends what is changed,
    but not what restoring the defaults changes. The search for the process of the service misses it behind
    a process that it cannot read; the test of the port uses up sockets.

  \<^bold>\<open>Bounds.\<close> \<open>QueueCommand\<close> takes the depth of the stack as fuel: a pattern expands to commands for real
  units, which do not expand again, so that 2 is enough while all containers are for real units; without
  that no depth is enough, which is a property. \<open>updateSourceEvent\<close> of the data engine calls itself through
  \<open>setData\<close> once, again 2. A \<open>CMD_SET\<close> needs at most eight rounds, since levels differ by at most eight.
  Replacing in a text ends within its length; the searches for a free unit and house have sixteen tries, as
  in the code. The loop of the USB plugin's receiver is a partial function, with the
  lemma when it ends. In the kernel driver each call uses up wake-ups, which is its measure; the
  properties of what is read and sent give a list that is long enough.

  \<^bold>\<open>Abstractions.\<close> The queue manager's thread and its clients are interleaved at the calls and at the parts
  of the thread's loop that hold the mutex; the container map is taken as protected too, although
  some calls reach it without the mutex: \<open>X10_Race\<close> takes those apart, with each access to the map
  atomic. Signals of the system reach the process in its event loop only, and a thread that still runs
  when the process ends makes no more steps there (\<open>X10_Shutdown\<close>). Interrupts of the kernel driver
  arrive while a call sleeps or between calls, and the calls on the transceivers follow each other, except for those
  of the USB core that sleep for ever. Strings are Latin-1; what \<open>vsnprintf\<close> makes of a format is the text it
  is given. Memory that \<open>new\<close> returns is there; the failures of \<open>malloc\<close> and \<open>kmalloc\<close> are arguments.

  \<^bold>\<open>Not modelled.\<close> Painting and the sizes of items, the widths of columns, unused code
  (\<open>QueueManagerReader\<close>, \<open>ahpRead\<close>, the code behind the early return of the driver plugin's \<open>recv\<close>), the constructor of the control that only builds a temporary, and the tables by
  which the kernel driver registers itself.

  \<^bold>\<open>Left open.\<close> The whole service with the accesses of \<open>X10_Race\<close> for all units at once; calls on two
  transceivers that overlap; repeated rules on the way to the levels; the data engine, the service and
  the rules under one clock. They need a finer interleaving than the steps here have; what remains of the sources is declarations, includes and registration.
\<close>

end
